theory Spec2Isabelle
  imports Main
begin


section \<open>JavaScript strings\<close>

text \<open>
  A JavaScript string is a sequence of UTF-16 code units; \<open>length\<close>, \<open>substring\<close> and
  \<open>includes\<close> count and compare code units.  A code unit is a natural number, and the
  ASCII text of the source's templates is written with \<open>ascii\<close>.
\<close>

type_synonym jsstring = "nat list"

definition ascii :: "string \<Rightarrow> jsstring" where
  "ascii s = map of_char s"

fun isPrefixOf :: "jsstring \<Rightarrow> jsstring \<Rightarrow> bool" where
  "isPrefixOf [] s = True"
| "isPrefixOf (p # ps) [] = False"
| "isPrefixOf (p # ps) (c # cs) = (p = c \<and> isPrefixOf ps cs)"

text \<open>\<open>s.includes(m)\<close>: \<open>m\<close> occurs in \<open>s\<close> as a contiguous run of code units.\<close>

fun js_includes :: "jsstring \<Rightarrow> jsstring \<Rightarrow> bool" where
  "js_includes [] m = (m = [])"
| "js_includes (c # cs) m = (isPrefixOf m (c # cs) \<or> js_includes cs m)"

text \<open>
  Decimal rendering of a non-negative integer, as template interpolation does for a number
  that is a non-negative integer below \<open>10^21\<close>: counts, lengths, issue numbers and the line
  and column numbers of a report.
\<close>

fun showNat :: "nat \<Rightarrow> jsstring" where
  "showNat n = (if n < 10 then [48 + n] else showNat (n div 10) @ [48 + n mod 10])"

declare showNat.simps [simp del]

definition showInt :: "int \<Rightarrow> jsstring" where
  "showInt i = (if i < 0 then ascii ''-'' @ showNat (nat (- i)) else showNat (nat i))"

definition plural :: "nat \<Rightarrow> jsstring" where
  "plural n = (if n > 1 then ascii ''s'' else [])"

text \<open>
  The case mapping of the ASCII letters.  \<open>String.prototype.toUpperCase\<close> and
  \<open>toLowerCase\<close> are functions of the host that follow the Unicode tables; they are
  parameters of the environment below, and on ASCII text they are \<open>asciiUpper\<close> and
  \<open>asciiLower\<close>.
\<close>

definition upperUnit :: "nat \<Rightarrow> nat" where
  "upperUnit c = (if 97 \<le> c \<and> c \<le> 122 then c - 32 else c)"

definition lowerUnit :: "nat \<Rightarrow> nat" where
  "lowerUnit c = (if 65 \<le> c \<and> c \<le> 90 then c + 32 else c)"

definition asciiUpper :: "jsstring \<Rightarrow> jsstring" where
  "asciiUpper s = map upperUnit s"

definition asciiLower :: "jsstring \<Rightarrow> jsstring" where
  "asciiLower s = map lowerUnit s"

text \<open>The character classes of the regular expressions: digits, white space and line terminators.\<close>

definition isDigit :: "nat \<Rightarrow> bool" where
  "isDigit c = (48 \<le> c \<and> c \<le> 57)"

definition isLineTerminator :: "nat \<Rightarrow> bool" where
  "isLineTerminator c = (c = 10 \<or> c = 13 \<or> c = 8232 \<or> c = 8233)"

definition isWhiteSpace :: "nat \<Rightarrow> bool" where
  "isWhiteSpace c = (c = 9 \<or> c = 10 \<or> c = 11 \<or> c = 12 \<or> c = 13 \<or> c = 32 \<or> c = 160
     \<or> c = 5760 \<or> (8192 \<le> c \<and> c \<le> 8202) \<or> c = 8232 \<or> c = 8233 \<or> c = 8239
     \<or> c = 8287 \<or> c = 12288 \<or> c = 65279)"

definition trim :: "jsstring \<Rightarrow> jsstring" where
  "trim s = rev (dropWhile isWhiteSpace (rev (dropWhile isWhiteSpace s)))"

text \<open>
  \<open>sanitizeLogMessage\<close>: the control characters are removed, the text is cut to 500 code
  units, every run of white space becomes one space, and the result is trimmed.
\<close>

definition isControl :: "nat \<Rightarrow> bool" where
  "isControl c = (c \<le> 31 \<or> (127 \<le> c \<and> c \<le> 159))"

function collapseSpaces :: "jsstring \<Rightarrow> jsstring" where
  "collapseSpaces [] = []"
| "collapseSpaces (c # cs) =
     (if isWhiteSpace c then 32 # collapseSpaces (dropWhile isWhiteSpace cs)
      else c # collapseSpaces cs)"
  by pat_completeness auto
termination
  by (relation "measure length") (auto simp: length_dropWhile_le less_Suc_eq_le)

definition sanitizeLogMessage :: "jsstring \<Rightarrow> jsstring" where
  "sanitizeLogMessage message =
     trim (collapseSpaces (take 500 (filter (\<lambda>c. \<not> isControl c) message)))"

text \<open>\<open>s.replace(pat, '')\<close> with a string pattern: the first occurrence is removed.\<close>

fun removeFirst :: "jsstring \<Rightarrow> jsstring \<Rightarrow> jsstring" where
  "removeFirst pat [] = []"
| "removeFirst pat (c # cs) =
     (if isPrefixOf pat (c # cs) then drop (length pat) (c # cs) else c # removeFirst pat cs)"

fun splitOn :: "nat \<Rightarrow> jsstring \<Rightarrow> jsstring list" where
  "splitOn d [] = [[]]"
| "splitOn d (c # cs) =
     (if c = d then [] # splitOn d cs
      else (case splitOn d cs of [] \<Rightarrow> [[c]] | w # ws \<Rightarrow> (c # w) # ws))"

fun joinWith :: "jsstring \<Rightarrow> jsstring list \<Rightarrow> jsstring" where
  "joinWith sep [] = []"
| "joinWith sep [w] = w"
| "joinWith sep (w # v # ws) = w @ sep @ joinWith sep (v # ws)"

text \<open>
  \<open>x || d\<close> on an optional string and on an optional number: absent, empty and 0 are falsy.
  \<open>textOfOptional\<close> is the interpolation of a value that may be \<open>undefined\<close>.
\<close>

definition textOfOptional :: "jsstring option \<Rightarrow> jsstring" where
  "textOfOptional x = (case x of None \<Rightarrow> ascii ''undefined'' | Some s \<Rightarrow> s)"

definition orElse :: "jsstring option \<Rightarrow> jsstring \<Rightarrow> jsstring" where
  "orElse x d = (case x of None \<Rightarrow> d | Some s \<Rightarrow> if s = [] then d else s)"

definition orElseNat :: "nat option \<Rightarrow> nat \<Rightarrow> nat" where
  "orElseNat x d = (case x of None \<Rightarrow> d | Some n \<Rightarrow> if n = 0 then d else n)"

text \<open>\<open>path.basename\<close> and \<open>path.extname\<close> of the POSIX path module.\<close>

definition basename :: "jsstring \<Rightarrow> jsstring" where
  "basename p = rev (takeWhile (\<lambda>c. c \<noteq> 47) (dropWhile (\<lambda>c. c = 47) (rev p)))"

definition extname :: "jsstring \<Rightarrow> jsstring" where
  "extname p =
     (let base = basename p;
          afterDot = rev (takeWhile (\<lambda>c. c \<noteq> 46) (rev base))
      in if 46 \<notin> set base then []
         else if length base = Suc (length afterDot) \<or> base = [46, 46] then []
         else 46 # afterDot)"

text \<open>\<open>set.add(k)\<close> on an insertion-ordered \<open>Set\<close>.\<close>

definition setAdd :: "'a list \<Rightarrow> 'a \<Rightarrow> 'a list" where
  "setAdd s k = (if k \<in> set s then s else s @ [k])"

section \<open>Property lookup on plain objects\<close>

text \<open>
  The tables of the program are plain objects, and \<open>table[key]\<close> on a plain object finds
  the members of \<open>Object.prototype\<close> as well as the table's own entries.  A member is a
  built-in function, or for \<open>__proto__\<close> the prototype object itself; it is truthy, it is
  no string, and its conversion to text is the text Node prints for it.
\<close>

definition objectPrototypeMembers :: "jsstring list" where
  "objectPrototypeMembers =
     [ascii ''constructor'', ascii ''__defineGetter__'', ascii ''__defineSetter__'',
      ascii ''hasOwnProperty'', ascii ''__lookupGetter__'', ascii ''__lookupSetter__'',
      ascii ''isPrototypeOf'', ascii ''propertyIsEnumerable'', ascii ''toString'',
      ascii ''valueOf'', ascii ''__proto__'', ascii ''toLocaleString'']"

definition nativeText :: "jsstring \<Rightarrow> jsstring" where
  "nativeText member =
     (if member = ascii ''__proto__'' then ascii ''[object Object]''
      else ascii ''function ''
        @ (if member = ascii ''constructor'' then ascii ''Object'' else member)
        @ ascii ''() { [native code] }'')"

text \<open>A value that is a string or a member of \<open>Object.prototype\<close> (given by its name).\<close>

datatype jsvalue = Str jsstring | Member jsstring

definition textOf :: "jsvalue \<Rightarrow> jsstring" where
  "textOf v = (case v of Str s \<Rightarrow> s | Member member \<Rightarrow> nativeText member)"

datatype 'a property = Absent | Own 'a | Inherited jsstring

definition jsGet :: "(jsstring \<rightharpoonup> 'a) \<Rightarrow> jsstring \<Rightarrow> 'a property" where
  "jsGet table key =
     (case table key of
        Some v \<Rightarrow> Own v
      | None \<Rightarrow> if key \<in> set objectPrototypeMembers then Inherited key else Absent)"

text \<open>
  \<open>table[key] = v\<close>: an own entry is written, except that assigning a string or a number to
  \<open>__proto__\<close> on an object without such an own entry does nothing.
\<close>

definition jsSet :: "(jsstring \<rightharpoonup> 'a) \<Rightarrow> jsstring \<Rightarrow> 'a \<Rightarrow> (jsstring \<rightharpoonup> 'a)" where
  "jsSet table key v =
     (if key = ascii ''__proto__'' \<and> table key = None then table else table(key \<mapsto> v))"

text \<open>\<open>table[key] || d\<close> for a table of strings.\<close>

definition jsGetOr :: "(jsstring \<rightharpoonup> jsstring) \<Rightarrow> jsstring \<Rightarrow> jsstring \<Rightarrow> jsvalue" where
  "jsGetOr table key d =
     (case jsGet table key of
        Absent \<Rightarrow> Str d
      | Own s \<Rightarrow> if s = [] then Str d else Str s
      | Inherited member \<Rightarrow> Member member)"

section \<open>Findings and grouped findings\<close>

text \<open>
  The rule identifier and the rule name of a finding are \<open>undefined\<close> when the report has
  none; every use of the two fields is an interpolation into text or a property key, where
  \<open>undefined\<close> reads as the text \<open>undefined\<close>, and the fields hold that text.  The severity
  is what the lookup in the severity table gives: a string or a member of
  \<open>Object.prototype\<close>.
\<close>

record finding =
  f_ruleId :: jsstring
  f_ruleName :: jsstring
  f_ruleHelp :: jsstring
  f_message :: jsstring
  f_level :: jsstring
  f_severity :: jsvalue
  f_filePath :: jsstring
  f_startLine :: nat
  f_endLine :: nat
  f_startColumn :: nat
  f_endColumn :: nat
  f_codeSnippet :: jsstring
  f_tool :: jsstring
  f_toolVersion :: jsstring

record occurrence =
  o_startLine :: nat
  o_endLine :: nat
  o_startColumn :: nat
  o_endColumn :: nat
  o_codeSnippet :: jsstring
  o_message :: jsstring

record groupedFinding =
  g_ruleId :: jsstring
  g_ruleName :: jsstring
  g_ruleHelp :: jsstring
  g_filePath :: jsstring
  g_level :: jsstring
  g_severity :: jsvalue
  g_tool :: jsstring
  g_toolVersion :: jsstring
  g_message :: jsstring
  g_occurrences :: "occurrence list"

section \<open>Finding grouping\<close>

text \<open>The key of the grouping map: \<open>`${finding.ruleId}:${finding.filePath}`\<close>.\<close>

definition groupKey :: "finding \<Rightarrow> jsstring" where
  "groupKey f = f_ruleId f @ ascii '':'' @ f_filePath f"

definition newGroup :: "finding \<Rightarrow> groupedFinding" where
  "newGroup f = \<lparr> g_ruleId = f_ruleId f, g_ruleName = f_ruleName f, g_ruleHelp = f_ruleHelp f,
     g_filePath = f_filePath f, g_level = f_level f, g_severity = f_severity f,
     g_tool = f_tool f, g_toolVersion = f_toolVersion f, g_message = f_message f,
     g_occurrences = [] \<rparr>"

definition occurrenceOf :: "finding \<Rightarrow> occurrence" where
  "occurrenceOf f = \<lparr> o_startLine = f_startLine f, o_endLine = f_endLine f,
     o_startColumn = f_startColumn f, o_endColumn = f_endColumn f,
     o_codeSnippet = f_codeSnippet f, o_message = f_message f \<rparr>"

text \<open>
  The \<open>Map\<close> of the source keeps its entries in insertion order; it is an association
  list here.  \<open>pushOccurrence\<close> is \<open>groups.get(key).occurrences.push(...)\<close>.
\<close>

fun pushOccurrence :: "jsstring \<Rightarrow> occurrence \<Rightarrow> (jsstring \<times> groupedFinding) list
    \<Rightarrow> (jsstring \<times> groupedFinding) list" where
  "pushOccurrence k oc [] = []"
| "pushOccurrence k oc ((k', g) # rest) =
     (if k' = k then (k', g\<lparr>g_occurrences := g_occurrences g @ [oc]\<rparr>) # rest
      else (k', g) # pushOccurrence k oc rest)"

definition groupStep :: "(jsstring \<times> groupedFinding) list \<Rightarrow> finding
    \<Rightarrow> (jsstring \<times> groupedFinding) list" where
  "groupStep groups f =
     (let key = groupKey f;
          groups' = (if key \<in> fst ` set groups then groups else groups @ [(key, newGroup f)])
      in pushOccurrence key (occurrenceOf f) groups')"

definition groupFindingsByRuleAndFile :: "finding list \<Rightarrow> groupedFinding list" where
  "groupFindingsByRuleAndFile findings = map snd (foldl groupStep [] findings)"

section \<open>Configuration, mapping tables and environment\<close>

text \<open>
  \<open>maxIssuesPerRun\<close> is the result of \<open>parseInt\<close>: an integer, or \<open>None\<close> for \<open>NaN\<close>.
\<close>

record config =
  severityThreshold :: jsstring
  maxIssuesPerRun :: "int option"
  enableMaintainability :: bool
  enableThreatModel :: bool
  autoAssign :: "jsstring list"
  excludedPaths :: "jsstring list"
  owner :: jsstring
  repo :: jsstring
  branch :: jsstring
  sha :: jsstring
  promptRepo :: jsstring
  promptBranch :: jsstring
  sarifPath :: jsstring

text \<open>
  The tables of \<open>prompt-mappings.json\<close> are read at start-up; the file is not part of the
  sources at hand, so its tables are parameters: the own entries of each table, with
  strings for the severities, category keys and labels, and for a category the four fields
  the program reads, each of which may be absent.  \<open>maintainability_triggers\<close> is given by
  its entries in the order of \<open>Object.entries\<close>.
\<close>

record category =
  c_name :: "jsstring option"
  c_prompt_file :: "jsstring option"
  c_maintainability :: "jsstring list option"
  c_threat_model :: "jsstring list option"

text \<open>An object without any of the four fields.\<close>

definition noFields :: category where
  "noFields = \<lparr> c_name = None, c_prompt_file = None, c_maintainability = None,
     c_threat_model = None \<rparr>"

record maintTrigger =
  t_keywords :: "jsstring list"
  t_prompt_file :: jsstring

record mappings =
  severity_mapping :: "jsstring \<rightharpoonup> jsstring"
  codeql_to_owasp :: "jsstring \<rightharpoonup> jsstring"
  owasp_categories :: "jsstring \<rightharpoonup> category"
  label_mapping :: "jsstring \<rightharpoonup> jsstring"
  maintainability_triggers :: "(jsstring \<times> maintTrigger) list"

text \<open>A source file as \<open>fs.existsSync\<close> and \<open>fs.readFileSync\<close> see it.\<close>

datatype fileEntry = NoFile | Unreadable jsstring | Content jsstring

text \<open>The reply to the HTTP request for a guidance document: status 200 with the
  content, status 404, or any other failure with the message of its error.\<close>

datatype httpReply = Delivered jsstring | Status404 | Failed jsstring

text \<open>
  The environment of one run: configuration and tables; the hash manifest
  \<open>prompt-hashes.json\<close> (for a category the own entries of its table, \<open>None\<close> when the
  manifest has no such table); the host's URL parser (the message of the error it throws,
  or protocol and host name), the HTTP client and the SHA-256 digest in hexadecimal; the
  host's case mappings; the clock reading used for \<open>new Date().toISOString()\<close>; the file
  system; the path of the summary file and the duration the run reports at its end.
\<close>

record env =
  cfg :: config
  mp :: mappings
  promptHashes :: "jsstring \<Rightarrow> (jsstring \<rightharpoonup> jsstring) option"
  parseUrl :: "jsstring \<Rightarrow> jsstring + jsstring \<times> jsstring"
  httpGet :: "jsstring \<Rightarrow> httpReply"
  sha256hex :: "jsstring \<Rightarrow> jsstring"
  toUpperCase :: "jsstring \<Rightarrow> jsstring"
  toLowerCase :: "jsstring \<Rightarrow> jsstring"
  now :: jsstring
  files :: "jsstring \<Rightarrow> fileEntry"
  summaryFile :: jsstring
  duration :: jsstring

text \<open>
  An entry of the log: its level and its sanitised message.  The time stamp and the
  metadata fields of an entry are left out.
\<close>

datatype log_level = INFO | WARN | ERROR | SUCCESS

type_synonym logEntry = "log_level \<times> jsstring"

text \<open>\<open>word.charAt(0).toUpperCase() + word.slice(1)\<close>.\<close>

definition capitalize :: "env \<Rightarrow> jsstring \<Rightarrow> jsstring" where
  "capitalize e s = (case s of [] \<Rightarrow> [] | c # cs \<Rightarrow> toUpperCase e [c] @ cs)"

section \<open>Taxonomy mapping\<close>

text \<open>
  The result of \<open>mapToOWASP\<close> is \<open>{ key: owaspKey, ...category }\<close>: the key as it was
  looked up, and the fields of the category.  A category found among the members of
  \<open>Object.prototype\<close> has no enumerable field, so the spread copies nothing.
\<close>

record owaspInfo =
  oi_key :: jsvalue
  oi_category :: category

text \<open>\<open>mappings.codeql_to_owasp[ruleId]\<close> when it is truthy.\<close>

definition owaspKeyOf :: "mappings \<Rightarrow> jsstring \<Rightarrow> jsvalue option" where
  "owaspKeyOf m ruleId =
     (case jsGet (codeql_to_owasp m) ruleId of
        Absent \<Rightarrow> None
      | Own owaspKey \<Rightarrow> if owaspKey = [] then None else Some (Str owaspKey)
      | Inherited member \<Rightarrow> Some (Member member))"

definition mapToOWASP :: "mappings \<Rightarrow> jsstring \<Rightarrow> owaspInfo option" where
  "mapToOWASP m ruleId =
     (case owaspKeyOf m ruleId of
        None \<Rightarrow> None
      | Some owaspKey \<Rightarrow>
          (case jsGet (owasp_categories m) (textOf owaspKey) of
             Absent \<Rightarrow> None
           | Own c \<Rightarrow> Some \<lparr> oi_key = owaspKey, oi_category = c \<rparr>
           | Inherited member \<Rightarrow> Some \<lparr> oi_key = owaspKey, oi_category = noFields \<rparr>))"

text \<open>The log messages \<open>mapToOWASP\<close> writes on its two failure branches.\<close>

definition mapToOWASPLogs :: "mappings \<Rightarrow> jsstring \<Rightarrow> (log_level \<times> jsstring) list" where
  "mapToOWASPLogs m ruleId =
     (case owaspKeyOf m ruleId of
        None \<Rightarrow> [(WARN, ascii ''No OWASP mapping found for rule: '' @ ruleId)]
      | Some owaspKey \<Rightarrow>
          (case jsGet (owasp_categories m) (textOf owaspKey) of
             Absent \<Rightarrow> [(ERROR, ascii ''OWASP category not found: '' @ textOf owaspKey)]
           | _ \<Rightarrow> []))"

section \<open>Filter stage\<close>

fun shouldExcludeLoop :: "jsstring list \<Rightarrow> jsstring \<Rightarrow> bool" where
  "shouldExcludeLoop [] filePath = False"
| "shouldExcludeLoop (excludedPath # rest) filePath =
     (if js_includes filePath excludedPath then True else shouldExcludeLoop rest filePath)"

definition shouldExcludePath :: "config \<Rightarrow> jsstring \<Rightarrow> bool" where
  "shouldExcludePath c filePath = shouldExcludeLoop (excludedPaths c) filePath"

text \<open>\<open>Array.prototype.indexOf\<close>: the first index, or \<open>-1\<close>.\<close>

fun indexOf :: "'a list \<Rightarrow> 'a \<Rightarrow> int" where
  "indexOf [] x = - 1"
| "indexOf (y # ys) x =
     (if y = x then 0 else (let i = indexOf ys x in if i < 0 then - 1 else i + 1))"

definition severityLevels :: "jsstring list" where
  "severityLevels = [ascii ''low'', ascii ''medium'', ascii ''high'', ascii ''critical'']"

definition meetsSeverityThreshold :: "config \<Rightarrow> jsvalue \<Rightarrow> bool" where
  "meetsSeverityThreshold c severity =
     (let thresholdIndex = indexOf (map Str severityLevels) (Str (severityThreshold c));
          severityIndex = indexOf (map Str severityLevels) severity
      in severityIndex \<ge> thresholdIndex)"

section \<open>Maintainability detection\<close>

definition searchTextOf :: "env \<Rightarrow> groupedFinding \<Rightarrow> jsstring" where
  "searchTextOf e g =
     toLowerCase e (g_message g @ ascii '' '' @ g_ruleHelp g @ ascii '' '' @ g_ruleId g)"

definition triggerFires :: "env \<Rightarrow> jsstring \<Rightarrow> maintTrigger \<Rightarrow> bool" where
  "triggerFires e searchText tr =
     list_ex (\<lambda>keyword. js_includes searchText (toLowerCase e keyword)) (t_keywords tr)"

definition detectMaintainabilityConcerns :: "env \<Rightarrow> groupedFinding \<Rightarrow> jsstring list" where
  "detectMaintainabilityConcerns e g =
     (if \<not> enableMaintainability (cfg e) then []
      else foldl (\<lambda>concerns (key, tr).
             if triggerFires e (searchTextOf e g) tr then setAdd concerns (t_prompt_file tr)
             else concerns) [] (maintainability_triggers (mp e)))"

text \<open>The log messages \<open>detectMaintainabilityConcerns\<close> writes.\<close>

definition detectMaintainabilityLogs :: "env \<Rightarrow> groupedFinding
    \<Rightarrow> (log_level \<times> jsstring) list" where
  "detectMaintainabilityLogs e g =
     (if \<not> enableMaintainability (cfg e) then []
      else map (\<lambda>(key, tr). (INFO, ascii ''Detected maintainability concern: '' @ key
                    @ ascii '' for '' @ g_ruleId g))
             (filter (\<lambda>(key, tr). triggerFires e (searchTextOf e g) tr)
                (maintainability_triggers (mp e))))"

section \<open>Content renderer\<close>

subsection \<open>Titles of guidance documents\<close>

text \<open>\<open>filename.match(/A(\<dots>)/)\<close>: the first \<open>A\<close> followed by two digits, or the empty string.\<close>

fun owaspNum :: "jsstring \<Rightarrow> jsstring" where
  "owaspNum (a # b # c # rest) =
     (if a = 65 \<and> isDigit b \<and> isDigit c then [65, b, c] else owaspNum (b # c # rest))"
| "owaspNum s = []"

text \<open>
  The title pattern: at the start of a line a \<open>#\<close>, white space, then a non-empty run of
  code units other than \<open>(\<close>, the em dash and the newline.  The white space is matched
  greedily; when no title character follows it, the match backtracks into the white
  space and captures white space only.  The capture is trimmed by the caller.
\<close>

definition titleUnit :: "nat \<Rightarrow> bool" where
  "titleUnit c = (c \<noteq> 40 \<and> c \<noteq> 8212 \<and> c \<noteq> 10)"

definition headingAt :: "jsstring \<Rightarrow> jsstring option" where
  "headingAt s =
     (case s of
        [] \<Rightarrow> None
      | c # r \<Rightarrow>
          if c \<noteq> 35 then None
          else (let ws = takeWhile isWhiteSpace r;
                    run = takeWhile titleUnit (dropWhile isWhiteSpace r)
                in if ws = [] then None
                   else if run \<noteq> [] then Some (trim run)
                   else if list_ex (\<lambda>c. c \<noteq> 10) (tl ws) then Some []
                   else None))"

fun findHeading :: "bool \<Rightarrow> jsstring \<Rightarrow> jsstring option" where
  "findHeading atLineStart [] = None"
| "findHeading atLineStart (c # cs) =
     (case (if atLineStart then headingAt (c # cs) else None) of
        Some t \<Rightarrow> Some t
      | None \<Rightarrow> findHeading (isLineTerminator c) cs)"

definition extractOwaspInfo :: "jsstring \<Rightarrow> jsstring \<Rightarrow> jsstring \<times> jsstring" where
  "extractOwaspInfo filename content =
     (owaspNum filename, (case findHeading True content of Some t \<Rightarrow> t | None \<Rightarrow> []))"

definition extractMaintainabilityTitle :: "env \<Rightarrow> jsstring \<Rightarrow> jsstring" where
  "extractMaintainabilityTitle e filename =
     joinWith (ascii '' '')
       (map (capitalize e) (splitOn 45 (removeFirst (ascii ''.md'') filename)))"

definition extractStrideTitle :: "env \<Rightarrow> jsstring \<Rightarrow> jsstring" where
  "extractStrideTitle e filename =
     joinWith (ascii '' '')
       (map (capitalize e) (splitOn 45 (removeFirst (ascii ''.md'') filename)))"

subsection \<open>Issue body\<close>

text \<open>
  The fetched guidance handed to the renderer; a prompt is a pair of file name and content.
  The file name of the category's prompt is \<open>undefined\<close> when the category has no
  \<open>prompt_file\<close>.
\<close>

record prompts =
  p_owaspKey :: jsvalue
  p_owaspCategory :: "jsstring option"
  p_owaspFile :: "jsstring option"
  p_owaspPrompts :: "(jsstring option \<times> jsstring) list"
  p_maintainabilityPrompts :: "(jsstring \<times> jsstring) list"
  p_threatModelPrompts :: "(jsstring \<times> jsstring) list"

definition owaspCategoryOf :: "prompts \<Rightarrow> jsstring" where
  "owaspCategoryOf p = orElse (p_owaspCategory p) (ascii ''Unknown'')"

text \<open>\<open>prompts.owaspKey || ''\<close>, interpolated.\<close>

definition owaspKeyText :: "prompts \<Rightarrow> jsstring" where
  "owaspKeyText p = textOf (p_owaspKey p)"

definition languageMap :: "(jsstring \<times> jsstring) list" where
  "languageMap =
     [(ascii ''.js'', ascii ''javascript''), (ascii ''.ts'', ascii ''typescript''),
      (ascii ''.jsx'', ascii ''javascript''), (ascii ''.tsx'', ascii ''typescript''),
      (ascii ''.py'', ascii ''python''), (ascii ''.java'', ascii ''java''),
      (ascii ''.go'', ascii ''go''), (ascii ''.cs'', ascii ''csharp''),
      (ascii ''.rb'', ascii ''ruby''), (ascii ''.php'', ascii ''php'')]"

text \<open>
  \<open>languageMap[ext] || 'text'\<close>.  The extension is empty or starts with a dot, so it names
  no member of \<open>Object.prototype\<close>.
\<close>

definition languageOf :: "env \<Rightarrow> jsstring \<Rightarrow> jsstring" where
  "languageOf e filePath =
     (case map_of languageMap (toLowerCase e (extname filePath)) of
        Some l \<Rightarrow> l
      | None \<Rightarrow> ascii ''text'')"

definition guideWord :: "nat \<Rightarrow> jsstring" where
  "guideWord n = (if n = 1 then ascii ''guide'' else ascii ''guides'')"

definition threatWord :: "nat \<Rightarrow> jsstring" where
  "threatWord n = (if n = 1 then ascii ''threat'' else ascii ''threats'')"

definition bodyHeader :: "env \<Rightarrow> groupedFinding \<Rightarrow> prompts \<Rightarrow> jsstring" where
  "bodyHeader e g p =
     ascii ''## '' @ [55357, 56628] @ ascii '' Security Vulnerability: '' @ g_ruleName g
     @ [10, 10] @ ascii ''**Detected by**: '' @ g_tool g @ ascii '' v'' @ g_toolVersion g
     @ [10] @ ascii ''**Created**: '' @ now e @ [10] @ ascii ''**Occurrences**: ''
     @ showNat (length (g_occurrences g)) @ ascii '' location''
     @ plural (length (g_occurrences g)) @ ascii '' in this file'' @ [10, 10] @ ascii ''---''
     @ [10, 10] @ ascii ''### '' @ [55357, 56523] @ ascii '' Vulnerability Details'' @ [10, 10]
     @ ascii ''| Property | Value |'' @ [10] @ ascii ''|----------|-------|'' @ [10]
     @ ascii ''| **Severity** | '' @ toUpperCase e (textOf (g_severity g)) @ ascii '' |'' @ [10]
     @ ascii ''| **CodeQL Rule** | '' @ [96] @ g_ruleId g @ [96] @ ascii '' |'' @ [10]
     @ ascii ''| **OWASP Category** | ['' @ owaspCategoryOf p
     @ ascii ''](https://maintainability.ai/docs/prompts/owasp/'' @ orElse (p_owaspFile p) []
     @ ascii '') |'' @ [10] @ ascii ''| **File** | '' @ [96] @ g_filePath g @ [96]
     @ ascii '' |'' @ [10] @ ascii ''| **Total Occurrences** | ''
     @ showNat (length (g_occurrences g)) @ ascii '' |'' @ [10, 10] @ ascii ''### ''
     @ [55357, 56507] @ ascii '' Vulnerable Code Locations'' @ [10, 10]"

definition lineRange :: "occurrence \<Rightarrow> jsstring" where
  "lineRange oc =
     showNat (o_startLine oc)
     @ (if o_endLine oc \<noteq> o_startLine oc then ascii ''-'' @ showNat (o_endLine oc) else [])"

definition locationLabel :: "nat \<Rightarrow> nat \<Rightarrow> occurrence \<Rightarrow> jsstring" where
  "locationLabel count index oc =
     (if count > 1
      then ascii ''#### Location '' @ showNat (index + 1) @ ascii '': Lines '' @ lineRange oc
      else ascii ''#### Lines '' @ lineRange oc)"

definition snippetOrDefault :: "occurrence \<Rightarrow> jsstring" where
  "snippetOrDefault oc =
     (if o_codeSnippet oc = [] then ascii ''(No code snippet available)'' else o_codeSnippet oc)"

definition occurrenceSection :: "env \<Rightarrow> groupedFinding \<Rightarrow> nat \<Rightarrow> occurrence \<Rightarrow> jsstring" where
  "occurrenceSection e g index oc =
     [10] @ locationLabel (length (g_occurrences g)) index oc @ [10, 10, 96, 96, 96]
     @ languageOf e (g_filePath g) @ [10] @ snippetOrDefault oc @ [10, 96, 96, 96, 10, 10]
     @ ascii ''**Issue**: '' @ o_message oc @ [10, 10]"

text \<open>The \<open>forEach\<close> over the occurrences, with its index.\<close>

fun occurrenceSections :: "env \<Rightarrow> groupedFinding \<Rightarrow> nat \<Rightarrow> occurrence list \<Rightarrow> jsstring" where
  "occurrenceSections e g index [] = []"
| "occurrenceSections e g index (oc # ocs) =
     occurrenceSection e g index oc @ occurrenceSections e g (Suc index) ocs"

definition ruleHelpSection :: "groupedFinding \<Rightarrow> jsstring" where
  "ruleHelpSection g =
     (if g_ruleHelp g = [] then []
      else [10] @ ascii ''**Additional Context**: '' @ g_ruleHelp g @ [10])"

text \<open>
  The section of one category prompt.  With a file name that is \<open>undefined\<close> the call of
  \<open>extractOwaspInfo\<close> throws; \<open>createIssueBody\<close> below returns the error before any section
  is used.
\<close>

definition owaspPromptSection :: "jsstring option \<times> jsstring \<Rightarrow> jsstring" where
  "owaspPromptSection pr =
     (case fst pr of
        None \<Rightarrow> []
      | Some filename \<Rightarrow>
          [10] @ ascii ''<details>'' @ [10] @ ascii ''<summary>'' @ [55357, 56594]
          @ ascii '' <strong>'' @ fst (extractOwaspInfo filename (snd pr)) @ ascii '' - ''
          @ snd (extractOwaspInfo filename (snd pr)) @ ascii ''</strong></summary>'' @ [10, 10]
          @ snd pr @ [10, 10] @ ascii ''</details>'' @ [10, 10])"

definition owaspSection :: "prompts \<Rightarrow> jsstring" where
  "owaspSection p =
     (if p_owaspPrompts p = [] then []
      else [10] @ ascii ''<details>'' @ [10] @ ascii ''<summary>'' @ [55357, 56536]
        @ ascii '' <strong>OWASP Security Guidance</strong> (''
        @ showNat (length (p_owaspPrompts p)) @ ascii '' ''
        @ guideWord (length (p_owaspPrompts p)) @ ascii '')</summary>'' @ [10, 10]
        @ concat (map owaspPromptSection (p_owaspPrompts p))
        @ [10] @ ascii ''</details>'' @ [10, 10])"

definition maintPromptSection :: "env \<Rightarrow> jsstring \<times> jsstring \<Rightarrow> jsstring" where
  "maintPromptSection e pr =
     [10] @ ascii ''<details>'' @ [10] @ ascii ''<summary>'' @ [55357, 56528]
     @ ascii '' <strong>'' @ extractMaintainabilityTitle e (fst pr)
     @ ascii ''</strong></summary>'' @ [10, 10] @ snd pr @ [10, 10] @ ascii ''</details>''
     @ [10, 10]"

definition maintSection :: "env \<Rightarrow> prompts \<Rightarrow> jsstring" where
  "maintSection e p =
     (if p_maintainabilityPrompts p = [] then []
      else [10] @ ascii ''<details>'' @ [10] @ ascii ''<summary>'' @ [55356, 57303, 65039]
        @ ascii '' <strong>Maintainability Guidance</strong> (''
        @ showNat (length (p_maintainabilityPrompts p)) @ ascii '' ''
        @ guideWord (length (p_maintainabilityPrompts p)) @ ascii '')</summary>'' @ [10, 10]
        @ concat (map (maintPromptSection e) (p_maintainabilityPrompts p))
        @ [10] @ ascii ''</details>'' @ [10, 10])"

definition threatPromptSection :: "env \<Rightarrow> jsstring \<times> jsstring \<Rightarrow> jsstring" where
  "threatPromptSection e pr =
     [10] @ ascii ''<details>'' @ [10] @ ascii ''<summary>'' @ [55356, 57261]
     @ ascii '' <strong>'' @ extractStrideTitle e (fst pr) @ ascii ''</strong></summary>''
     @ [10, 10] @ snd pr @ [10, 10] @ ascii ''</details>'' @ [10, 10]"

definition threatSection :: "env \<Rightarrow> prompts \<Rightarrow> jsstring" where
  "threatSection e p =
     (if p_threatModelPrompts p = [] then []
      else [10] @ ascii ''<details>'' @ [10] @ ascii ''<summary>'' @ [55356, 57263]
        @ ascii '' <strong>Threat Model Analysis (STRIDE)</strong> (''
        @ showNat (length (p_threatModelPrompts p)) @ ascii '' ''
        @ threatWord (length (p_threatModelPrompts p)) @ ascii '')</summary>'' @ [10, 10]
        @ concat (map (threatPromptSection e) (p_threatModelPrompts p))
        @ [10] @ ascii ''</details>'' @ [10, 10])"

definition remediationZone :: "groupedFinding \<Rightarrow> jsstring" where
  "remediationZone g =
     [10, 10] @ ascii ''---'' @ [10, 10] @ ascii ''## '' @ [55358, 56598]
     @ ascii '' Claude Remediation Zone'' @ [10, 10]
     @ ascii ''To request a remediation plan for **all '' @ showNat (length (g_occurrences g))
     @ ascii '' occurrence'' @ plural (length (g_occurrences g))
     @ ascii ''**, **copy and paste this comment**:'' @ [10, 10, 96, 96, 96, 10]
     @ ascii ''@claude Please provide a remediation plan for all ''
     @ showNat (length (g_occurrences g)) @ ascii '' occurrence''
     @ plural (length (g_occurrences g)) @ ascii '' of this vulnerability in '' @ g_filePath g
     @ ascii '' following the security and maintainability guidelines provided.''
     @ [10, 96, 96, 96, 10, 10] @ ascii ''---'' @ [10, 10]"

definition metadataFooter :: "env \<Rightarrow> groupedFinding \<Rightarrow> prompts \<Rightarrow> jsstring" where
  "metadataFooter e g p =
     [10] @ ascii ''<details>'' @ [10] @ ascii ''<summary>'' @ [55357, 56522]
     @ ascii '' Additional Metadata</summary>'' @ [10, 10] @ ascii ''- **Detection Time**: ''
     @ now e @ [10] @ ascii ''- **Language**: '' @ capitalize e (languageOf e (g_filePath g))
     @ [10] @ ascii ''- **Tool**: '' @ g_tool g @ ascii '' v'' @ g_toolVersion g @ [10]
     @ ascii ''- **Repository**: '' @ owner (cfg e) @ ascii ''/'' @ repo (cfg e) @ [10]
     @ ascii ''- **Branch**: '' @ branch (cfg e) @ [10] @ ascii ''- **Commit**: ''
     @ sha (cfg e) @ [10] @ ascii ''- **Rule ID**: '' @ g_ruleId g @ [10]
     @ ascii ''- **OWASP Category**: '' @ owaspKeyText p @ [10] @ ascii ''- **Severity**: ''
     @ textOf (g_severity g) @ ascii '' (CodeQL level: '' @ g_level g @ ascii '')'' @ [10]
     @ ascii ''- **Prompt Source**: '' @ promptRepo (cfg e) @ ascii ''@''
     @ promptBranch (cfg e) @ [10, 10] @ ascii ''</details>'' @ [10]"

text \<open>The body as assembled before the final size check.\<close>

definition assembleBody :: "env \<Rightarrow> groupedFinding \<Rightarrow> prompts \<Rightarrow> jsstring" where
  "assembleBody e g p =
     bodyHeader e g p @ occurrenceSections e g 0 (g_occurrences g) @ ruleHelpSection g
     @ owaspSection p @ maintSection e p @ threatSection e p @ remediationZone g
     @ metadataFooter e g p"

definition MAX_BODY_LENGTH :: nat where
  "MAX_BODY_LENGTH = 65000"

definition truncationNotice :: jsstring where
  "truncationNotice =
     [10, 10] @ ascii ''---'' @ [10, 10] @ ascii ''**'' @ [9888, 65039]
     @ ascii '' Note**: This issue was truncated due to size limits. See the OWASP category link above for complete security guidance.''"

text \<open>The final size check on the assembled body.\<close>

definition truncateBody :: "jsstring \<Rightarrow> jsstring" where
  "truncateBody body =
     (if length body > MAX_BODY_LENGTH
      then take MAX_BODY_LENGTH body @ truncationNotice
      else body)"

text \<open>
  \<open>createIssueBody\<close> returns the body, or throws: the header calls \<open>toUpperCase\<close> on the
  severity, which only a string has, and the section of a category prompt calls \<open>match\<close>
  on its file name.  \<open>Inl\<close> is the message of the \<open>TypeError\<close> as Node words it.
\<close>

definition createIssueBody :: "env \<Rightarrow> groupedFinding \<Rightarrow> prompts \<Rightarrow> jsstring + jsstring" where
  "createIssueBody e g p =
     (case g_severity g of
        Member member \<Rightarrow>
          Inl (ascii ''groupedFinding.severity.toUpperCase is not a function'')
      | Str severity \<Rightarrow>
          if list_ex (\<lambda>pr. fst pr = None) (p_owaspPrompts p)
          then Inl (ascii ''Cannot read properties of undefined (reading '' @ [39]
                 @ ascii ''match'' @ [39] @ ascii '')'')
          else Inr (truncateBody (assembleBody e g p)))"

text \<open>The log message \<open>createIssueBody\<close> writes when it returns a truncated body.\<close>

definition createIssueBodyLogs :: "env \<Rightarrow> groupedFinding \<Rightarrow> prompts
    \<Rightarrow> (log_level \<times> jsstring) list" where
  "createIssueBodyLogs e g p =
     (case createIssueBody e g p of
        Inl err \<Rightarrow> []
      | Inr body \<Rightarrow>
          if length (assembleBody e g p) > MAX_BODY_LENGTH
          then [(WARN, ascii ''Issue body too long ('' @ showNat (length (assembleBody e g p))
                  @ ascii '' chars), truncating to '' @ showNat MAX_BODY_LENGTH)]
          else [])"

subsection \<open>Issue title and labels\<close>

definition createIssueTitle :: "groupedFinding \<Rightarrow> jsstring" where
  "createIssueTitle g =
     ascii ''[Security] '' @ g_ruleName g @ ascii '' in '' @ basename (g_filePath g)
     @ ascii '' ('' @ showNat (length (g_occurrences g)) @ ascii '' occurrence''
     @ plural (length (g_occurrences g)) @ ascii '')''"

text \<open>
  The labels are the values pushed to the array: strings, and the member of
  \<open>Object.prototype\<close> that the label table yields for a severity naming one.  The call
  \<open>owaspInfo.key.toLowerCase()\<close> throws when the key is no string.
\<close>

definition generateLabels :: "env \<Rightarrow> groupedFinding \<Rightarrow> owaspInfo \<Rightarrow> jsstring list
    \<Rightarrow> jsstring + jsvalue list" where
  "generateLabels e g owaspInfo maintainabilityFiles =
     (let severityLabels =
            (case jsGet (label_mapping (mp e)) (textOf (g_severity g)) of
               Absent \<Rightarrow> []
             | Own severityLabel \<Rightarrow> if severityLabel = [] then [] else [Str severityLabel]
             | Inherited member \<Rightarrow> [Member member])
      in case oi_key owaspInfo of
           Member member \<Rightarrow> Inl (ascii ''owaspInfo.key.toLowerCase is not a function'')
         | Str key \<Rightarrow>
             Inr ([Str (ascii ''codeql-finding'')] @ severityLabels
                  @ (if key = [] then [] else [Str (ascii ''owasp/'' @ toLowerCase e key)])
                  @ map (\<lambda>file. Str (ascii ''maintainability/''
                                       @ removeFirst (ascii ''.md'') file))
                      maintainabilityFiles
                  @ [Str (ascii ''awaiting-remediation-plan'')]))"

section \<open>The external tracker\<close>

text \<open>
  The issue tracker is an external collaborator reached through remote calls.  It is an
  in-memory store here: the issues in the order in which the tracker lists them (newest
  first), the number the next created issue gets, and a fault plan.  Every remote call
  takes the next entry of the plan: \<open>Some msg\<close> makes the call fail with that error
  message and no effect, \<open>None\<close> (or an exhausted plan) lets it succeed.  The store keeps
  the labels of an issue as they were sent.  The world also holds the log file, to which
  every run appends.
\<close>

datatype issueState = Open | Closed

record issue =
  i_number :: nat
  i_title :: jsstring
  i_body :: jsstring
  i_labels :: "jsvalue list"
  i_assignees :: "jsstring list"
  i_state :: issueState
  i_comments :: "jsstring list"

record world =
  issues :: "issue list"
  nextNumber :: nat
  faults :: "jsstring option list"
  logs :: "logEntry list"

definition log :: "log_level \<Rightarrow> jsstring \<Rightarrow> world \<Rightarrow> world" where
  "log level message w = w\<lparr>logs := logs w @ [(level, sanitizeLogMessage message)]\<rparr>"

text \<open>Several calls of \<open>log\<close> in a row.\<close>

definition logAll :: "(log_level \<times> jsstring) list \<Rightarrow> world \<Rightarrow> world" where
  "logAll messages w = foldl (\<lambda>w (level, message). log level message w) w messages"

definition remoteCall :: "world \<Rightarrow> jsstring option \<times> world" where
  "remoteCall w =
     (case faults w of
        [] \<Rightarrow> (None, w)
      | f # fs \<Rightarrow> (f, w\<lparr>faults := fs\<rparr>))"

definition sentinelLabel :: jsvalue where
  "sentinelLabel = Str (ascii ''codeql-finding'')"

text \<open>
  \<open>issues.listForRepo\<close> with \<open>labels: 'codeql-finding'\<close>, \<open>state: 'open'\<close> and
  \<open>per_page: 100\<close>: the first page of the open issues carrying the label.
\<close>

definition openListing :: "world \<Rightarrow> issue list" where
  "openListing w =
     take 100 (filter (\<lambda>i. i_state i = Open \<and> sentinelLabel \<in> set (i_labels i)) (issues w))"

definition listForRepo :: "world \<Rightarrow> (jsstring + issue list) \<times> world" where
  "listForRepo w =
     (case remoteCall w of
        (Some err, w') \<Rightarrow> (Inl err, w')
      | (None, w') \<Rightarrow> (Inr (openListing w'), w'))"

text \<open>A remote call that changes the issue with the given number; the reply is the issue.\<close>

definition modifyIssue :: "nat \<Rightarrow> (issue \<Rightarrow> issue) \<Rightarrow> world \<Rightarrow> (jsstring + issue) \<times> world" where
  "modifyIssue n f w =
     (case remoteCall w of
        (Some err, w') \<Rightarrow> (Inl err, w')
      | (None, w') \<Rightarrow>
          (case find (\<lambda>i. i_number i = n) (issues w') of
             None \<Rightarrow> (Inl (ascii ''Not Found''), w')
           | Some i \<Rightarrow>
               (Inr (f i),
                w'\<lparr>issues := map (\<lambda>j. if i_number j = n then f j else j) (issues w')\<rparr>)))"

definition issuesUpdate :: "nat \<Rightarrow> jsstring \<Rightarrow> jsvalue list \<Rightarrow> world
    \<Rightarrow> (jsstring + issue) \<times> world" where
  "issuesUpdate n body labels = modifyIssue n (\<lambda>i. i\<lparr>i_body := body, i_labels := labels\<rparr>)"

definition issuesClose :: "nat \<Rightarrow> world \<Rightarrow> (jsstring + issue) \<times> world" where
  "issuesClose n = modifyIssue n (\<lambda>i. i\<lparr>i_state := Closed\<rparr>)"

definition createComment :: "nat \<Rightarrow> jsstring \<Rightarrow> world \<Rightarrow> (jsstring + issue) \<times> world" where
  "createComment n text = modifyIssue n (\<lambda>i. i\<lparr>i_comments := i_comments i @ [text]\<rparr>)"

definition addLabels :: "nat \<Rightarrow> jsvalue list \<Rightarrow> world \<Rightarrow> (jsstring + issue) \<times> world" where
  "addLabels n labels = modifyIssue n (\<lambda>i. i\<lparr>i_labels := foldl setAdd (i_labels i) labels\<rparr>)"

definition issuesCreate :: "jsstring \<Rightarrow> jsstring \<Rightarrow> jsvalue list \<Rightarrow> jsstring list \<Rightarrow> world
    \<Rightarrow> (jsstring + issue) \<times> world" where
  "issuesCreate title body labels assignees w =
     (case remoteCall w of
        (Some err, w') \<Rightarrow> (Inl err, w')
      | (None, w') \<Rightarrow>
          (let i = \<lparr> i_number = nextNumber w', i_title = title, i_body = body,
                     i_labels = labels, i_assignees = assignees, i_state = Open,
                     i_comments = [] \<rparr>
           in (Inr i, w'\<lparr>issues := i # issues w', nextNumber := Suc (nextNumber w')\<rparr>)))"

section \<open>Reconciliation engine\<close>

subsection \<open>Deduplication lookup\<close>

definition ruleMarker :: "groupedFinding \<Rightarrow> jsstring" where
  "ruleMarker g = [96] @ g_ruleId g @ [96]"

definition fileMarker :: "groupedFinding \<Rightarrow> jsstring" where
  "fileMarker g = [96] @ g_filePath g @ [96]"

definition matchesFinding :: "groupedFinding \<Rightarrow> issue \<Rightarrow> bool" where
  "matchesFinding g i =
     (let hasRuleId = js_includes (i_body i) (ruleMarker g);
          hasFilePath = js_includes (i_body i) (fileMarker g)
      in hasRuleId \<and> hasFilePath)"

definition findExistingIssue :: "groupedFinding \<Rightarrow> world \<Rightarrow> issue option \<times> world" where
  "findExistingIssue g w0 =
     (let w = log INFO (ascii ''Searching for existing issue: '' @ g_ruleId g @ ascii '' in ''
                          @ g_filePath g) w0
      in case listForRepo w of
           (Inl err, w') \<Rightarrow>
             (None, log ERROR (ascii ''Failed to search for existing issue: '' @ err) w')
         | (Inr found, w') \<Rightarrow>
             (case find (matchesFinding g) found of
                Some i \<Rightarrow>
                  (Some i, log INFO (ascii ''Found existing issue #'' @ showNat (i_number i)) w')
              | None \<Rightarrow> (None, log INFO (ascii ''No existing issue found'') w')))"

subsection \<open>Create or update\<close>

datatype action = Created | Updated

definition updateComment :: "env \<Rightarrow> jsstring" where
  "updateComment e =
     [55357, 56580] @ ascii '' **Issue Updated**'' @ [10, 10]
     @ ascii ''This vulnerability was re-detected in the latest CodeQL scan.'' @ [10, 10]
     @ ascii ''**Commit**: '' @ sha (cfg e) @ [10] @ ascii ''**Branch**: '' @ branch (cfg e)
     @ [10] @ ascii ''**Timestamp**: '' @ now e"

text \<open>
  The result is \<open>Inl\<close> the message of the error the function throws, or \<open>Inr\<close> the
  tracker's reply and the action taken.
\<close>

definition createOrUpdateIssue :: "env \<Rightarrow> groupedFinding \<Rightarrow> jsstring \<Rightarrow> jsvalue list \<Rightarrow> world
    \<Rightarrow> (jsstring + issue \<times> action) \<times> world" where
  "createOrUpdateIssue e g issueBody labels w0 =
     (let title = createIssueTitle g
      in case findExistingIssue g w0 of
           (Some existingIssue, w1) \<Rightarrow>
             (let n = i_number existingIssue;
                  failed = (\<lambda>err w. (Inl err, log ERROR (ascii ''Failed to update issue #''
                                @ showNat n @ ascii '': '' @ err) w))
              in case issuesUpdate n issueBody labels
                        (log INFO (ascii ''Updating existing issue #'' @ showNat n) w1) of
                   (Inl err, w2) \<Rightarrow> failed err w2
                 | (Inr i, w2) \<Rightarrow>
                     (case createComment n (updateComment e) w2 of
                        (Inl err, w3) \<Rightarrow> failed err w3
                      | (Inr c, w3) \<Rightarrow>
                          (Inr (i, Updated),
                           log SUCCESS (ascii ''Updated issue #'' @ showNat (i_number i)
                             @ ascii '': '' @ title) w3)))
         | (None, w1) \<Rightarrow>
             (case issuesCreate title issueBody labels (autoAssign (cfg e))
                     (log INFO (ascii ''Creating new issue: '' @ title) w1) of
                (Inl err, w2) \<Rightarrow>
                  (Inl err, log ERROR (ascii ''Failed to create issue: '' @ err) w2)
              | (Inr i, w2) \<Rightarrow>
                  (Inr (i, Created),
                   log SUCCESS (ascii ''Created issue #'' @ showNat (i_number i)
                     @ ascii '': '' @ title) w2)))"

subsection \<open>Auto-close sweep\<close>

text \<open>\<open>body.match(re)\<close> without the global flag: the match at the leftmost position.\<close>

fun searchFirst :: "(jsstring \<Rightarrow> 'a option) \<Rightarrow> jsstring \<Rightarrow> 'a option" where
  "searchFirst matchAt [] = matchAt []"
| "searchFirst matchAt (c # cs) =
     (case matchAt (c # cs) of Some r \<Rightarrow> Some r | None \<Rightarrow> searchFirst matchAt cs)"

text \<open>
  A literal followed by a backticked value: after the literal (which ends with the opening
  backtick) a non-empty run of code units other than the backtick, then a backtick.
\<close>

definition backtickedAt :: "jsstring \<Rightarrow> jsstring \<Rightarrow> jsstring option" where
  "backtickedAt lit s =
     (if isPrefixOf lit s
      then (let r = drop (length lit) s;
                run = takeWhile (\<lambda>c. c \<noteq> 96) r
            in if run \<noteq> [] \<and> dropWhile (\<lambda>c. c \<noteq> 96) r \<noteq> [] then Some run else None)
      else None)"

definition ruleMatch :: "jsstring \<Rightarrow> jsstring option" where
  "ruleMatch body = searchFirst (backtickedAt (ascii ''**CodeQL Rule** | '' @ [96])) body"

definition fileMatch :: "jsstring \<Rightarrow> jsstring option" where
  "fileMatch body = searchFirst (backtickedAt (ascii ''**File** | '' @ [96])) body"

text \<open>
  The occurrence pattern, case-insensitive and global: \<open>line\<close>, an optional \<open>s\<close>, white
  space, digits (captured), and optionally a hyphen with digits.  \<open>linesAt\<close> gives the
  capture and the length of the match at the start of its argument.
\<close>

definition unitIs :: "nat \<Rightarrow> nat \<Rightarrow> bool" where
  "unitIs lower c = (c = lower \<or> c + 32 = lower)"

definition linesAt :: "jsstring \<Rightarrow> (jsstring \<times> nat) option" where
  "linesAt s =
     (case s of
        c1 # c2 # c3 # c4 # r \<Rightarrow>
          if unitIs 108 c1 \<and> unitIs 105 c2 \<and> unitIs 110 c3 \<and> unitIs 101 c4
          then (let hasS = (case r of [] \<Rightarrow> False | c5 # r' \<Rightarrow> unitIs 115 c5);
                    r1 = (if hasS then tl r else r);
                    ws = takeWhile isWhiteSpace r1;
                    r2 = dropWhile isWhiteSpace r1;
                    ds = takeWhile isDigit r2;
                    r3 = dropWhile isDigit r2;
                    range = (case r3 of
                               [] \<Rightarrow> 0
                             | d # r4 \<Rightarrow>
                                 if d = 45 \<and> takeWhile isDigit r4 \<noteq> []
                                 then Suc (length (takeWhile isDigit r4)) else 0)
                in if ws \<noteq> [] \<and> ds \<noteq> []
                   then Some (ds, 4 + (if hasS then 1 else 0) + length ws + length ds + range)
                   else None)
          else None
      | _ \<Rightarrow> None)"

text \<open>
  \<open>body.matchAll(re)\<close>: the captures from left to right; after a match the search goes
  on behind it, so the code units of a match are skipped.
\<close>

fun scanLines :: "nat \<Rightarrow> jsstring \<Rightarrow> jsstring list" where
  "scanLines skip [] = []"
| "scanLines skip (c # cs) =
     (if skip > 0 then scanLines (skip - 1) cs
      else (case linesAt (c # cs) of
              Some (capture, n) \<Rightarrow> capture # scanLines (n - 1) cs
            | None \<Rightarrow> scanLines 0 cs))"

definition oldFormatAt :: "jsstring \<Rightarrow> jsstring option" where
  "oldFormatAt s =
     (if isPrefixOf (ascii ''**Lines** | '') s
      then (let ds = takeWhile isDigit (drop (length (ascii ''**Lines** | '')) s)
            in if ds \<noteq> [] then Some ds else None)
      else None)"

definition issueLinesOf :: "jsstring \<Rightarrow> jsstring list" where
  "issueLinesOf body =
     (let issueLines = foldl setAdd [] (scanLines 0 body)
      in if issueLines = []
         then (case searchFirst oldFormatAt body of None \<Rightarrow> [] | Some l \<Rightarrow> [l])
         else issueLines)"

definition vulnKey :: "jsstring \<Rightarrow> jsstring \<Rightarrow> jsstring \<Rightarrow> jsstring" where
  "vulnKey ruleId filePath line = ruleId @ ascii '':'' @ filePath @ ascii '':'' @ line"

definition areOrIs :: "nat \<Rightarrow> jsstring" where
  "areOrIs n = (if n > 1 then ascii ''are'' else ascii ''is'')"

definition closeComment :: "env \<Rightarrow> jsstring \<Rightarrow> jsstring \<Rightarrow> nat \<Rightarrow> jsstring" where
  "closeComment e ruleId filePath occurrenceCount =
     ascii ''## '' @ [9989] @ ascii '' All Vulnerabilities Resolved'' @ [10, 10]
     @ ascii ''This issue is being automatically closed because **all ''
     @ showNat occurrenceCount @ ascii '' occurrence'' @ plural occurrenceCount
     @ ascii ''** of this vulnerability '' @ areOrIs occurrenceCount
     @ ascii '' no longer detected in the latest CodeQL scan.'' @ [10, 10]
     @ ascii ''**Details:**'' @ [10] @ ascii ''- **Rule**: '' @ [96] @ ruleId @ [96, 10]
     @ ascii ''- **File**: '' @ [96] @ filePath @ [96, 10]
     @ ascii ''- **Occurrences Resolved**: '' @ showNat occurrenceCount @ [10]
     @ ascii ''- **Scan Date**: '' @ now e @ [10] @ ascii ''- **Branch**: '' @ branch (cfg e)
     @ [10] @ ascii ''- **Commit**: '' @ sha (cfg e) @ [10, 10]
     @ ascii ''If this was closed in error, please reopen and add the '' @ [96]
     @ ascii ''false-positive'' @ [96]
     @ ascii '' label to prevent auto-closing in the future.'' @ [10, 10] @ ascii ''---''
     @ [10, 10, 55358, 56598] @ ascii '' Auto-closed by CodeQL to Issues automation''"

text \<open>What the sweep decides for one listed issue, before any remote call.\<close>

datatype sweepDecision =
    SkipFalsePositive
  | SkipUnparsed
  | SkipNoLines
  | KeepOpen
  | CloseIssue jsstring jsstring nat

definition sweepDecide :: "jsstring list \<Rightarrow> issue \<Rightarrow> sweepDecision" where
  "sweepDecide currentVulnerabilities i =
     (if Str (ascii ''false-positive'') \<in> set (i_labels i) then SkipFalsePositive
      else (case (ruleMatch (i_body i), fileMatch (i_body i)) of
              (Some ruleId, Some filePath) \<Rightarrow>
                (let issueLines = issueLinesOf (i_body i)
                 in if issueLines = [] then SkipNoLines
                    else if list_ex (\<lambda>line. vulnKey ruleId filePath line
                                       \<in> set currentVulnerabilities) issueLines
                    then KeepOpen
                    else CloseIssue ruleId filePath (length issueLines))
            | _ \<Rightarrow> SkipUnparsed))"

text \<open>The three remote calls that close an issue; the first failure is thrown.\<close>

definition closeResolved :: "env \<Rightarrow> issue \<Rightarrow> jsstring \<Rightarrow> jsstring \<Rightarrow> nat \<Rightarrow> world
    \<Rightarrow> (jsstring + unit) \<times> world" where
  "closeResolved e i ruleId filePath occurrenceCount w0 =
     (let w = log INFO (ascii ''All occurrences resolved for '' @ ruleId @ ascii '' in ''
                 @ filePath @ ascii '', closing issue #'' @ showNat (i_number i)) w0
      in case issuesClose (i_number i) w of
           (Inl err, w1) \<Rightarrow> (Inl err, w1)
         | (Inr r1, w1) \<Rightarrow>
             (case createComment (i_number i)
                     (closeComment e ruleId filePath occurrenceCount) w1 of
                (Inl err, w2) \<Rightarrow> (Inl err, w2)
              | (Inr r2, w2) \<Rightarrow>
                  (case addLabels (i_number i) [Str (ascii ''resolved'')] w2 of
                     (Inl err, w3) \<Rightarrow> (Inl err, w3)
                   | (Inr r3, w3) \<Rightarrow> (Inr (), w3))))"

fun sweepLoop :: "env \<Rightarrow> jsstring list \<Rightarrow> issue list \<Rightarrow> nat \<Rightarrow> world
    \<Rightarrow> (jsstring + nat) \<times> world" where
  "sweepLoop e currentVulnerabilities [] closedCount w = (Inr closedCount, w)"
| "sweepLoop e currentVulnerabilities (i # rest) closedCount w =
     (case sweepDecide currentVulnerabilities i of
        SkipFalsePositive \<Rightarrow>
          sweepLoop e currentVulnerabilities rest closedCount
            (log INFO (ascii ''Skipping issue #'' @ showNat (i_number i)
               @ ascii '' (marked as false-positive)'') w)
      | SkipUnparsed \<Rightarrow>
          sweepLoop e currentVulnerabilities rest closedCount
            (log WARN (ascii ''Could not parse issue #'' @ showNat (i_number i)
               @ ascii '', skipping auto-close check'') w)
      | SkipNoLines \<Rightarrow>
          sweepLoop e currentVulnerabilities rest closedCount
            (log WARN (ascii ''Could not extract line numbers from issue #''
               @ showNat (i_number i) @ ascii '', skipping auto-close check'') w)
      | KeepOpen \<Rightarrow>
          sweepLoop e currentVulnerabilities rest closedCount
            (log INFO (ascii ''Issue #'' @ showNat (i_number i)
               @ ascii '' still has active occurrences, keeping open'') w)
      | CloseIssue ruleId filePath occurrenceCount \<Rightarrow>
          (case closeResolved e i ruleId filePath occurrenceCount w of
             (Inl err, w') \<Rightarrow> (Inl err, w')
           | (Inr u, w') \<Rightarrow> sweepLoop e currentVulnerabilities rest (Suc closedCount) w'))"

definition autoCloseResolvedIssues :: "env \<Rightarrow> jsstring list \<Rightarrow> world
    \<Rightarrow> (jsstring + nat) \<times> world" where
  "autoCloseResolvedIssues e currentVulnerabilities w =
     (let failed = (\<lambda>err w. (Inl err, log ERROR (ascii ''Error in auto-close: '' @ err) w))
      in case listForRepo w of
           (Inl err, w1) \<Rightarrow> failed err w1
         | (Inr openIssues, w1) \<Rightarrow>
             (case sweepLoop e currentVulnerabilities openIssues 0
                     (log INFO (ascii ''Found '' @ showNat (length openIssues)
                        @ ascii '' open CodeQL issue(s) to check'') w1) of
                (Inl err, w2) \<Rightarrow> failed err w2
              | (Inr closedCount, w2) \<Rightarrow> (Inr closedCount, w2)))"

subsection \<open>Guidance fetch\<close>

text \<open>
  \<open>fetchPrompt\<close> with its cache, a \<open>Map\<close> of the module that is empty when a run starts.
  The function returns the content (\<open>None\<close> is \<open>null\<close>), the log messages it wrote and
  the cache.  The file name is \<open>undefined\<close> when the category has no \<open>prompt_file\<close>.
\<close>

type_synonym promptCache = "jsstring \<rightharpoonup> jsstring option"

definition ALLOWED_DOMAINS :: "jsstring list" where
  "ALLOWED_DOMAINS = [ascii ''raw.githubusercontent.com'']"

definition verifyPromptUrl :: "env \<Rightarrow> jsstring \<Rightarrow> bool \<times> (log_level \<times> jsstring) list" where
  "verifyPromptUrl e urlString =
     (case parseUrl e urlString of
        Inl err \<Rightarrow> (False, [(ERROR, ascii ''Invalid prompt URL'')])
      | Inr (protocol, hostname) \<Rightarrow>
          if protocol \<noteq> ascii ''https:''
          then (False, [(ERROR, ascii ''Blocked non-HTTPS prompt URL'')])
          else if hostname \<notin> set ALLOWED_DOMAINS
          then (False, [(ERROR, ascii ''Blocked prompt fetch from untrusted domain'')])
          else (True, []))"

definition promptUrl :: "env \<Rightarrow> jsstring \<Rightarrow> jsstring \<Rightarrow> jsstring" where
  "promptUrl e category file =
     ascii ''https://raw.githubusercontent.com/'' @ promptRepo (cfg e) @ ascii ''/''
     @ promptBranch (cfg e) @ ascii ''/examples/promptpack/'' @ category @ ascii ''/'' @ file"

text \<open>
  With an expected hash that is a member of \<open>Object.prototype\<close> the comparison fails and
  building the log entry throws (\<open>expectedHash.substring\<close> is no function), which the
  \<open>catch\<close> of the function handles like a failed request.
\<close>

definition fetchPrompt :: "env \<Rightarrow> jsstring \<Rightarrow> jsstring option \<Rightarrow> promptCache
    \<Rightarrow> jsstring option \<times> (log_level \<times> jsstring) list \<times> promptCache" where
  "fetchPrompt e category file cache =
     (let cacheKey = category @ ascii ''/'' @ textOfOptional file;
          fetching = (INFO, ascii ''Fetching prompt: '' @ cacheKey);
          failed = (None, [fetching, (ERROR, ascii ''Failed to fetch prompt: '' @ cacheKey)],
                    cache(cacheKey \<mapsto> None))
      in case cache cacheKey of
           Some content \<Rightarrow> (content, [(INFO, ascii ''Using cached prompt: '' @ cacheKey)], cache)
         | None \<Rightarrow>
             (let expectedHash =
                    (case promptHashes e category of
                       None \<Rightarrow> Absent
                     | Some table \<Rightarrow> jsGet table (textOfOptional file))
              in if expectedHash = Absent \<or> expectedHash = Own []
                 then (None, [(ERROR, ascii ''Prompt not in hash manifest: '' @ cacheKey)], cache)
                 else (case verifyPromptUrl e (promptUrl e category (textOfOptional file)) of
                         (False, urlLogs) \<Rightarrow> (None, urlLogs, cache)
                       | (True, urlLogs) \<Rightarrow>
                           (case httpGet e (promptUrl e category (textOfOptional file)) of
                              Status404 \<Rightarrow>
                                (None, [fetching, (WARN, ascii ''Prompt not found: '' @ cacheKey)],
                                 cache(cacheKey \<mapsto> None))
                            | Failed err \<Rightarrow> failed
                            | Delivered content \<Rightarrow>
                                (case expectedHash of
                                   Own hash \<Rightarrow>
                                     if ascii ''sha256:'' @ sha256hex e content = hash
                                     then (Some content,
                                           [fetching, (SUCCESS, ascii ''Prompt verified and cached: ''
                                                                  @ cacheKey)],
                                           cache(cacheKey \<mapsto> Some content))
                                     else (None,
                                           [fetching,
                                            (ERROR, ascii ''Prompt integrity verification FAILED: ''
                                                      @ cacheKey)],
                                           cache)
                                 | _ \<Rightarrow> failed)))))"

text \<open>A loop that fetches the prompts of a list of files and keeps those with content.\<close>

definition withContent :: "'a \<Rightarrow> jsstring option \<Rightarrow> ('a \<times> jsstring) list" where
  "withContent file content =
     (case content of None \<Rightarrow> [] | Some c \<Rightarrow> if c = [] then [] else [(file, c)])"

fun fetchAll :: "env \<Rightarrow> jsstring \<Rightarrow> jsstring list \<Rightarrow> promptCache
    \<Rightarrow> (jsstring \<times> jsstring) list \<times> (log_level \<times> jsstring) list \<times> promptCache" where
  "fetchAll e category [] cache = ([], [], cache)"
| "fetchAll e category (file # rest) cache =
     (case fetchPrompt e category (Some file) cache of
        (content, ls, cache1) \<Rightarrow>
          (case fetchAll e category rest cache1 of
             (found, ls', cache2) \<Rightarrow> (withContent file content @ found, ls @ ls', cache2)))"

subsection \<open>Processing the grouped findings\<close>

text \<open>
  A counter of \<open>by_severity\<close> or \<open>by_owasp\<close>.  \<open>(table[key] || 0) + 1\<close> is a number one
  higher when the entry is a number or absent; when the lookup yields a string or a member
  of \<open>Object.prototype\<close> the \<open>+\<close> appends the text \<open>1\<close>.
\<close>

datatype count = Count nat | Joined jsstring

record results =
  r_total :: nat
  r_created :: nat
  r_updated :: nat
  r_skipped :: nat
  r_closed :: nat
  r_errors :: "(jsstring \<times> jsstring \<times> jsstring) list"
  r_by_severity :: "jsstring \<rightharpoonup> count"
  r_by_owasp :: "jsstring \<rightharpoonup> count"

definition bump :: "(jsstring \<rightharpoonup> count) \<Rightarrow> jsstring \<Rightarrow> (jsstring \<rightharpoonup> count)" where
  "bump m k =
     jsSet m k
       (case jsGet m k of
          Absent \<Rightarrow> Count 1
        | Own (Count c) \<Rightarrow> Count (c + 1)
        | Own (Joined s) \<Rightarrow> if s = [] then Count 1 else Joined (s @ ascii ''1'')
        | Inherited member \<Rightarrow> Joined (nativeText member @ ascii ''1''))"

definition zeroBySeverity :: "jsstring \<rightharpoonup> count" where
  "zeroBySeverity =
     [ascii ''critical'' \<mapsto> Count 0, ascii ''high'' \<mapsto> Count 0, ascii ''medium'' \<mapsto> Count 0,
      ascii ''low'' \<mapsto> Count 0]"

definition initialResults :: "nat \<Rightarrow> results" where
  "initialResults n = \<lparr> r_total = n, r_created = 0, r_updated = 0, r_skipped = 0, r_closed = 0,
     r_errors = [], r_by_severity = zeroBySeverity, r_by_owasp = Map.empty \<rparr>"

text \<open>
  The state of the loop: the results, \<open>processedCount\<close>, the live keys, the prompt cache
  and the world.
\<close>

record loopState =
  ls_results :: results
  ls_processedCount :: nat
  ls_currentVulnerabilities :: "jsstring list"
  ls_promptCache :: promptCache
  ls_world :: world

definition maintainabilityFilesOf :: "env \<Rightarrow> groupedFinding \<Rightarrow> owaspInfo \<Rightarrow> jsstring list" where
  "maintainabilityFilesOf e g owaspInfo =
     (case c_maintainability (oi_category owaspInfo) of
        None \<Rightarrow> detectMaintainabilityConcerns e g
      | Some aspects \<Rightarrow>
          foldl setAdd (detectMaintainabilityConcerns e g)
            (map (\<lambda>aspect. aspect @ ascii ''.md'') aspects))"

text \<open>
  The part of the loop body that fetches the guidance: the prompts handed to the renderer
  and the maintainability files, the log messages written meanwhile, and the cache.
\<close>

definition gatherPrompts :: "env \<Rightarrow> groupedFinding \<Rightarrow> owaspInfo \<Rightarrow> promptCache
    \<Rightarrow> (prompts \<times> jsstring list) \<times> (log_level \<times> jsstring) list \<times> promptCache" where
  "gatherPrompts e g owaspInfo cache0 =
     (case fetchPrompt e (ascii ''owasp'') (c_prompt_file (oi_category owaspInfo)) cache0 of
        (owaspContent, ls1, cache1) \<Rightarrow>
          (let maintainabilityFiles = maintainabilityFilesOf e g owaspInfo
           in case fetchAll e (ascii ''maintainability'') maintainabilityFiles cache1 of
                (maintainabilityPrompts, ls2, cache2) \<Rightarrow>
                  (case (case c_threat_model (oi_category owaspInfo) of
                           None \<Rightarrow> ([], [], cache2)
                         | Some threats \<Rightarrow>
                             if enableThreatModel (cfg e)
                             then fetchAll e (ascii ''threat-modeling'')
                                    (map (\<lambda>threat. threat @ ascii ''.md'') threats) cache2
                             else ([], [], cache2)) of
                     (threatModelPrompts, ls3, cache3) \<Rightarrow>
                       ((\<lparr> p_owaspKey = oi_key owaspInfo,
                           p_owaspCategory = c_name (oi_category owaspInfo),
                           p_owaspFile = c_prompt_file (oi_category owaspInfo),
                           p_owaspPrompts =
                             withContent (c_prompt_file (oi_category owaspInfo)) owaspContent,
                           p_maintainabilityPrompts = maintainabilityPrompts,
                           p_threatModelPrompts = threatModelPrompts \<rparr>,
                         maintainabilityFiles),
                        ls1 @ detectMaintainabilityLogs e g @ ls2 @ ls3, cache3))))"

definition occurrenceKeys :: "groupedFinding \<Rightarrow> jsstring list" where
  "occurrenceKeys g =
     map (\<lambda>oc. vulnKey (g_ruleId g) (g_filePath g) (showNat (o_startLine oc))) (g_occurrences g)"

definition skipped1 :: "results \<Rightarrow> results" where
  "skipped1 r = r\<lparr>r_skipped := r_skipped r + 1\<rparr>"

text \<open>The three messages that name the reason of a rejection.\<close>

definition belowThresholdMessage :: "env \<Rightarrow> groupedFinding \<Rightarrow> jsstring" where
  "belowThresholdMessage e g =
     ascii ''Skipping '' @ g_ruleId g @ ascii '' (severity '' @ textOf (g_severity g)
     @ ascii '' below threshold '' @ severityThreshold (cfg e) @ ascii '')''"

definition excludedPathMessage :: "groupedFinding \<Rightarrow> jsstring" where
  "excludedPathMessage g =
     ascii ''Skipping '' @ g_ruleId g @ ascii '' (path '' @ g_filePath g @ ascii '' is excluded)''"

definition noMappingMessage :: "groupedFinding \<Rightarrow> jsstring" where
  "noMappingMessage g = ascii ''Skipping '' @ g_ruleId g @ ascii '' (no OWASP mapping)''"

text \<open>
  The create/update stage of one iteration, for a group that passed the filter: count by
  category, fetch the guidance, render body and labels, create or update the issue.  An
  error thrown on the way is caught by the \<open>catch\<close> of the loop body: it is logged and
  recorded, and the group counted as skipped.
\<close>

definition createUpdateStage :: "env \<Rightarrow> groupedFinding \<Rightarrow> owaspInfo \<Rightarrow> results \<Rightarrow> loopState
    \<Rightarrow> loopState" where
  "createUpdateStage e g owaspInfo r st =
     (let r' = r\<lparr>r_by_owasp := bump (r_by_owasp r) (textOf (oi_key owaspInfo))\<rparr>
      in case gatherPrompts e g owaspInfo (ls_promptCache st) of
           ((prompts, maintainabilityFiles), ls, cache) \<Rightarrow>
             (let w1 = logAll ls
                         (log INFO (ascii ''Processing grouped finding: '' @ g_ruleId g
                            @ ascii '' ('' @ textOf (oi_key owaspInfo) @ ascii '') - ''
                            @ showNat (length (g_occurrences g)) @ ascii '' occurrence(s)'')
                            (ls_world st));
                  w2 = logAll (createIssueBodyLogs e g prompts) w1;
                  caught = (\<lambda>err w.
                     st\<lparr>ls_results := skipped1 (r'\<lparr>r_errors := r_errors r'
                             @ [(g_ruleId g, g_filePath g, err)]\<rparr>),
                        ls_promptCache := cache,
                        ls_world := log ERROR (ascii ''Failed to process grouped finding ''
                           @ g_ruleId g @ ascii '': '' @ err) w\<rparr>)
              in case createIssueBody e g prompts of
                   Inl err \<Rightarrow> caught err w1
                 | Inr issueBody \<Rightarrow>
                     (case generateLabels e g owaspInfo maintainabilityFiles of
                        Inl err \<Rightarrow> caught err w2
                      | Inr labels \<Rightarrow>
                          (case createOrUpdateIssue e g issueBody labels w2 of
                             (Inl err, w3) \<Rightarrow> caught err w3
                           | (Inr (i, act), w3) \<Rightarrow>
                               st\<lparr>ls_results :=
                                    (case act of
                                       Created \<Rightarrow> r'\<lparr>r_created := r_created r' + 1\<rparr>
                                     | Updated \<Rightarrow> r'\<lparr>r_updated := r_updated r' + 1\<rparr>),
                                  ls_processedCount := ls_processedCount st + 1,
                                  ls_currentVulnerabilities :=
                                    foldl setAdd (ls_currentVulnerabilities st)
                                      (occurrenceKeys g),
                                  ls_promptCache := cache,
                                  ls_world := w3\<rparr>))))"

text \<open>One iteration of the loop behind the cap check: the count by severity, the three
  filters, and the create/update stage.\<close>

definition processGroup :: "env \<Rightarrow> groupedFinding \<Rightarrow> loopState \<Rightarrow> loopState" where
  "processGroup e g st =
     (let r = (ls_results st)\<lparr>r_by_severity :=
                 bump (r_by_severity (ls_results st)) (textOf (g_severity g))\<rparr>;
          w = ls_world st
      in if \<not> meetsSeverityThreshold (cfg e) (g_severity g)
         then st\<lparr>ls_results := skipped1 r,
                 ls_world := log INFO (belowThresholdMessage e g) w\<rparr>
         else if shouldExcludePath (cfg e) (g_filePath g)
         then st\<lparr>ls_results := skipped1 r,
                 ls_world := log INFO (excludedPathMessage g) w\<rparr>
         else (case mapToOWASP (mp e) (g_ruleId g) of
                 None \<Rightarrow>
                   st\<lparr>ls_results := skipped1 r,
                      ls_world := log WARN (noMappingMessage g)
                         (logAll (mapToOWASPLogs (mp e) (g_ruleId g)) w)\<rparr>
               | Some owaspInfo \<Rightarrow> createUpdateStage e g owaspInfo r st))"

text \<open>
  The loop over the grouped findings; \<open>groupCount\<close> is \<open>groupedFindings.length\<close>.  Once
  \<open>processedCount\<close> has reached the cap the loop adds to \<open>skipped\<close> and breaks.  With a cap
  that is \<open>NaN\<close> the comparison is false.
\<close>

definition capReached :: "env \<Rightarrow> loopState \<Rightarrow> bool" where
  "capReached e st =
     (case maxIssuesPerRun (cfg e) of
        None \<Rightarrow> False
      | Some cap \<Rightarrow> int (ls_processedCount st) \<ge> cap)"

definition capText :: "env \<Rightarrow> jsstring" where
  "capText e = (case maxIssuesPerRun (cfg e) of None \<Rightarrow> ascii ''NaN'' | Some cap \<Rightarrow> showInt cap)"

fun processLoop :: "env \<Rightarrow> nat \<Rightarrow> groupedFinding list \<Rightarrow> loopState \<Rightarrow> loopState" where
  "processLoop e groupCount [] st = st"
| "processLoop e groupCount (g # rest) st =
     (if capReached e st
      then st\<lparr>ls_results := (ls_results st)\<lparr>r_skipped := r_skipped (ls_results st)
                     + (groupCount - ls_processedCount st)\<rparr>,
              ls_world := log WARN (ascii ''Reached max issues per run ('' @ capText e
                 @ ascii ''), stopping'') (ls_world st)\<rparr>
      else processLoop e groupCount rest (processGroup e g st))"

definition processFindings :: "env \<Rightarrow> finding list \<Rightarrow> world \<Rightarrow> results \<times> world" where
  "processFindings e findings w0 =
     (let groupedFindings = groupFindingsByRuleAndFile findings;
          w1 = log SUCCESS (ascii ''Grouped '' @ showNat (length findings)
                 @ ascii '' finding(s) into '' @ showNat (length groupedFindings)
                 @ ascii '' issue(s)'')
                 (log INFO (ascii ''Grouping findings by rule and file...'') w0);
          st = processLoop e (length groupedFindings) groupedFindings
                 \<lparr> ls_results = initialResults (length findings), ls_processedCount = 0,
                   ls_currentVulnerabilities = [], ls_promptCache = Map.empty,
                   ls_world = w1 \<rparr>;
          w2 = log INFO (ascii ''Checking for resolved vulnerabilities to auto-close...'')
                 (ls_world st)
      in case autoCloseResolvedIssues e (ls_currentVulnerabilities st) w2 of
           (Inr closedCount, w3) \<Rightarrow>
             ((ls_results st)\<lparr>r_closed := closedCount\<rparr>,
              log INFO (ascii ''Auto-closed '' @ showNat closedCount
                 @ ascii '' resolved issue(s)'') w3)
         | (Inl err, w3) \<Rightarrow>
             (ls_results st,
              log ERROR (ascii ''Failed to auto-close resolved issues: '' @ err) w3))"

section \<open>Report parser\<close>

subsection \<open>The report\<close>

text \<open>
  The parsed report, field by field as the parser reads it; an optional field is \<open>None\<close>
  when the report lacks it.  A text field holds a string; a line or column number is a
  non-negative integer.  \<open>res_location\<close> is \<open>locations[0].physicalLocation\<close>.  An entry
  of a result list on which the body of the parser's loop throws (a \<open>null\<close> entry, a
  snippet text that is not a string) is \<open>Throwing\<close> with the message of the error.
\<close>

record sarifRegion =
  rg_startLine :: "nat option"
  rg_endLine :: "nat option"
  rg_startColumn :: "nat option"
  rg_endColumn :: "nat option"
  rg_snippetText :: "jsstring option"

record sarifLocation =
  loc_uri :: "jsstring option"
  loc_region :: "sarifRegion option"

record sarifRule =
  rule_id :: "jsstring option"
  rule_shortDescription :: "jsstring option"
  rule_name :: "jsstring option"
  rule_helpText :: "jsstring option"
  rule_fullDescription :: "jsstring option"

record sarifResult =
  res_ruleId :: "jsstring option"
  res_messageText :: "jsstring option"
  res_level :: "jsstring option"
  res_location :: "sarifLocation option"

datatype resultEntry = Throwing jsstring | WellTyped sarifResult

record sarifRun =
  run_toolName :: "jsstring option"
  run_semanticVersion :: "jsstring option"
  run_version :: "jsstring option"
  run_rules :: "sarifRule list"
  run_results :: "resultEntry list"




subsection \<open>Code snippet extraction\<close>

definition padStart4 :: "jsstring \<Rightarrow> jsstring" where
  "padStart4 s = replicate (4 - length s) 32 @ s"

fun numberedLines :: "nat \<Rightarrow> nat \<Rightarrow> nat \<Rightarrow> jsstring list \<Rightarrow> jsstring list" where
  "numberedLines startLine endLine lineNum [] = []"
| "numberedLines startLine endLine lineNum (line # rest) =
     ((if lineNum \<ge> startLine \<and> lineNum \<le> endLine then [8594, 32] else ascii ''  '')
        @ padStart4 (showNat lineNum) @ ascii '': '' @ line)
     # numberedLines startLine endLine (Suc lineNum) rest"

definition extractCodeSnippet :: "env \<Rightarrow> jsstring \<Rightarrow> nat \<Rightarrow> nat \<Rightarrow> nat \<Rightarrow> jsstring" where
  "extractCodeSnippet e filePath startLine endLine contextLines =
     (case files e filePath of
        NoFile \<Rightarrow> ascii ''(File not found)''
      | Unreadable msg \<Rightarrow> ascii ''(Unable to extract code snippet)''
      | Content fileContent \<Rightarrow>
          (let lines = splitOn 10 fileContent;
               snippetStart = startLine - contextLines - 1;
               snippetEnd = min (length lines) (endLine + contextLines);
               snippetLines = drop snippetStart (take snippetEnd lines)
           in joinWith [10] (numberedLines startLine endLine (snippetStart + 1) snippetLines)))"

definition extractCodeSnippetLogs :: "env \<Rightarrow> jsstring \<Rightarrow> (log_level \<times> jsstring) list" where
  "extractCodeSnippetLogs e filePath =
     (case files e filePath of
        NoFile \<Rightarrow> [(WARN, ascii ''File not found for snippet extraction: '' @ filePath)]
      | Unreadable msg \<Rightarrow>
          [(WARN, ascii ''Failed to extract code snippet from '' @ filePath @ ascii '': '' @ msg)]
      | Content fileContent \<Rightarrow> [])"

subsection \<open>Parsing\<close>

definition snippetMissing :: "sarifRegion option \<Rightarrow> bool" where
  "snippetMissing region =
     (let codeSnippet = orElse (case region of None \<Rightarrow> None | Some rg \<Rightarrow> rg_snippetText rg) []
      in codeSnippet = [] \<or> trim codeSnippet = [])"

text \<open>The finding pushed for a result with a location.\<close>

definition findingOf :: "env \<Rightarrow> sarifRun \<Rightarrow> sarifResult \<Rightarrow> sarifLocation \<Rightarrow> finding" where
  "findingOf e run result location =
     (let ruleId = textOfOptional (res_ruleId result);
          message = orElse (res_messageText result) (ascii ''No description provided'');
          level = orElse (res_level result) (ascii ''warning'');
          filePath = orElse (loc_uri location) (ascii ''unknown'');
          region = loc_region location;
          startLine = orElseNat (case region of None \<Rightarrow> None | Some rg \<Rightarrow> rg_startLine rg) 1;
          endLine = orElseNat (case region of None \<Rightarrow> None | Some rg \<Rightarrow> rg_endLine rg) startLine;
          startColumn =
            orElseNat (case region of None \<Rightarrow> None | Some rg \<Rightarrow> rg_startColumn rg) 1;
          endColumn =
            orElseNat (case region of None \<Rightarrow> None | Some rg \<Rightarrow> rg_endColumn rg) startColumn;
          codeSnippet =
            (if snippetMissing region then extractCodeSnippet e filePath startLine endLine 2
             else orElse (case region of None \<Rightarrow> None | Some rg \<Rightarrow> rg_snippetText rg) []);
          rule = find (\<lambda>r. rule_id r = res_ruleId result) (run_rules run);
          ruleName =
            orElse (case rule of None \<Rightarrow> None | Some r \<Rightarrow> rule_shortDescription r)
              (orElse (case rule of None \<Rightarrow> None | Some r \<Rightarrow> rule_name r) ruleId);
          ruleHelp =
            orElse (case rule of None \<Rightarrow> None | Some r \<Rightarrow> rule_helpText r)
              (orElse (case rule of None \<Rightarrow> None | Some r \<Rightarrow> rule_fullDescription r) [])
      in \<lparr> f_ruleId = ruleId, f_ruleName = ruleName, f_ruleHelp = ruleHelp,
           f_message = message, f_level = level,
           f_severity = jsGetOr (severity_mapping (mp e)) level (ascii ''medium''),
           f_filePath = filePath, f_startLine = startLine, f_endLine = endLine,
           f_startColumn = startColumn, f_endColumn = endColumn,
           f_codeSnippet = trim codeSnippet,
           f_tool = orElse (run_toolName run) (ascii ''CodeQL''),
           f_toolVersion =
             orElse (run_semanticVersion run) (orElse (run_version run) (ascii ''unknown'')) \<rparr>)"

text \<open>
  The loop over the results of one run: the findings in report order, and the log
  messages.  A result without a location is skipped with a warning; an entry that throws
  is caught, logged as an error, and the loop goes on.
\<close>

fun parseResults :: "env \<Rightarrow> sarifRun \<Rightarrow> resultEntry list
    \<Rightarrow> finding list \<times> (log_level \<times> jsstring) list" where
  "parseResults e run [] = ([], [])"
| "parseResults e run (Throwing msg # rest) =
     (let (fs, ls) = parseResults e run rest
      in (fs, (ERROR, ascii ''Failed to parse result: '' @ msg) # ls))"
| "parseResults e run (WellTyped result # rest) =
     (let (fs, ls) = parseResults e run rest
      in case res_location result of
           None \<Rightarrow>
             (fs, (WARN, ascii ''Skipping result without location: ''
                       @ textOfOptional (res_ruleId result)) # ls)
         | Some location \<Rightarrow>
             (findingOf e run result location # fs,
              (if snippetMissing (loc_region location)
               then extractCodeSnippetLogs e (orElse (loc_uri location) (ascii ''unknown''))
               else []) @ ls))"



section \<open>Main execution\<close>



section \<open>Notions used in the properties\<close>

text \<open>
  The verdict of the filter stage: the severity meets the threshold, the path is not
  excluded and the rule maps to a category.
\<close>

definition actionable :: "env \<Rightarrow> groupedFinding \<Rightarrow> bool" where
  "actionable e g = (meetsSeverityThreshold (cfg e) (g_severity g)
     \<and> \<not> shouldExcludePath (cfg e) (g_filePath g) \<and> mapToOWASP (mp e) (g_ruleId g) \<noteq> None)"

text \<open>
  The three conditions of the filter in the words of the specification.  The rank of a
  severity is its position in the order low, medium, high, critical, and \<open>-1\<close> for any
  other value; the severity meets the threshold when its rank is at least the rank of the
  threshold.  The path is clean when it contains none of the exclusion substrings, and
  the rule is known when \<open>mapToOWASP\<close> yields a category for it.
\<close>

definition severityRank :: "jsvalue \<Rightarrow> int" where
  "severityRank v =
     (if v = Str (ascii ''low'') then 0
      else if v = Str (ascii ''medium'') then 1
      else if v = Str (ascii ''high'') then 2
      else if v = Str (ascii ''critical'') then 3
      else - 1)"

definition passesFilter :: "env \<Rightarrow> groupedFinding \<Rightarrow> bool" where
  "passesFilter e g =
     (severityRank (g_severity g) \<ge> severityRank (Str (severityThreshold (cfg e)))
      \<and> \<not> list_ex (js_includes (g_filePath g)) (excludedPaths (cfg e))
      \<and> mapToOWASP (mp e) (g_ruleId g) \<noteq> None)"


text \<open>
  The prompts handed to the renderer when no guidance document was fetched, and the
  labels then generated.
\<close>

definition plainPrompts :: "owaspInfo \<Rightarrow> prompts" where
  "plainPrompts info =
     \<lparr> p_owaspKey = oi_key info, p_owaspCategory = c_name (oi_category info),
       p_owaspFile = c_prompt_file (oi_category info), p_owaspPrompts = [],
       p_maintainabilityPrompts = [], p_threatModelPrompts = [] \<rparr>"

text \<open>
  The two labels the sweep searches a body for, each ending with the opening backtick, and
  the text of the header that stands in front of each: the header up to the rule row, and
  up to the file row.
\<close>

definition ruleLabel :: jsstring where
  "ruleLabel = ascii ''**CodeQL Rule** | '' @ [96]"

definition fileLabel :: jsstring where
  "fileLabel = ascii ''**File** | '' @ [96]"

definition beforeRuleRow :: "env \<Rightarrow> groupedFinding \<Rightarrow> jsstring" where
  "beforeRuleRow e g =
     ascii ''## '' @ [55357, 56628] @ ascii '' Security Vulnerability: '' @ g_ruleName g
     @ [10, 10] @ ascii ''**Detected by**: '' @ g_tool g @ ascii '' v'' @ g_toolVersion g
     @ [10] @ ascii ''**Created**: '' @ now e @ [10] @ ascii ''**Occurrences**: ''
     @ showNat (length (g_occurrences g)) @ ascii '' location''
     @ plural (length (g_occurrences g)) @ ascii '' in this file'' @ [10, 10] @ ascii ''---''
     @ [10, 10] @ ascii ''### '' @ [55357, 56523] @ ascii '' Vulnerability Details'' @ [10, 10]
     @ ascii ''| Property | Value |'' @ [10] @ ascii ''|----------|-------|'' @ [10]
     @ ascii ''| **Severity** | '' @ toUpperCase e (textOf (g_severity g)) @ ascii '' |'' @ [10]
     @ ascii ''| ''"

definition beforeFileRow :: "env \<Rightarrow> groupedFinding \<Rightarrow> prompts \<Rightarrow> jsstring" where
  "beforeFileRow e g p =
     beforeRuleRow e g @ ruleLabel @ g_ruleId g @ [96] @ ascii '' |'' @ [10]
     @ ascii ''| **OWASP Category** | ['' @ owaspCategoryOf p
     @ ascii ''](https://maintainability.ai/docs/prompts/owasp/'' @ orElse (p_owaspFile p) []
     @ ascii '') |'' @ [10] @ ascii ''| ''"

text \<open>
  What the sweep makes of a listed issue when no remote call fails: an issue it decides to
  close gets the state closed, the resolution comment and the label \<open>resolved\<close>; any
  other issue is left as it is.
\<close>

definition resolvedIssue :: "env \<Rightarrow> jsstring \<Rightarrow> jsstring \<Rightarrow> nat \<Rightarrow> issue \<Rightarrow> issue" where
  "resolvedIssue e ruleId filePath occurrenceCount i =
     i\<lparr>i_state := Closed,
       i_comments := i_comments i @ [closeComment e ruleId filePath occurrenceCount],
       i_labels := foldl setAdd (i_labels i) [Str (ascii ''resolved'')]\<rparr>"

definition sweepOutcome :: "env \<Rightarrow> jsstring list \<Rightarrow> issue \<Rightarrow> issue" where
  "sweepOutcome e currentVulnerabilities i =
     (case sweepDecide currentVulnerabilities i of
        CloseIssue ruleId filePath occurrenceCount \<Rightarrow>
          resolvedIssue e ruleId filePath occurrenceCount i
      | _ \<Rightarrow> i)"

definition closes :: "jsstring list \<Rightarrow> issue \<Rightarrow> bool" where
  "closes currentVulnerabilities i =
     (case sweepDecide currentVulnerabilities i of
        CloseIssue ruleId filePath occurrenceCount \<Rightarrow> True
      | _ \<Rightarrow> False)"

text \<open>The state in which the loop of \<open>processFindings\<close> ends, and the world its sweep starts in.\<close>

definition findingsLoop :: "env \<Rightarrow> finding list \<Rightarrow> world \<Rightarrow> loopState" where
  "findingsLoop e findings w0 =
     (let groupedFindings = groupFindingsByRuleAndFile findings
      in processLoop e (length groupedFindings) groupedFindings
           \<lparr> ls_results = initialResults (length findings), ls_processedCount = 0,
             ls_currentVulnerabilities = [], ls_promptCache = Map.empty,
             ls_world = log SUCCESS (ascii ''Grouped '' @ showNat (length findings)
                 @ ascii '' finding(s) into '' @ showNat (length groupedFindings)
                 @ ascii '' issue(s)'')
                 (log INFO (ascii ''Grouping findings by rule and file...'') w0) \<rparr>)"

definition sweepStart :: "env \<Rightarrow> finding list \<Rightarrow> world \<Rightarrow> world" where
  "sweepStart e findings w0 =
     log INFO (ascii ''Checking for resolved vulnerabilities to auto-close...'')
       (ls_world (findingsLoop e findings w0))"

section \<open>Example inputs\<close>

text \<open>
  Concrete inputs for the evaluations below.  The severity table maps the level \<open>error\<close>
  to \<open>critical\<close>, \<open>warning\<close> to \<open>high\<close> and \<open>note\<close> to \<open>low\<close>.  The hash manifest is
  empty, so no guidance is fetched, and all text is ASCII, on which the case mappings of
  the host are \<open>asciiUpper\<close> and \<open>asciiLower\<close>.
\<close>

definition exFinding :: "jsstring \<Rightarrow> jsstring \<Rightarrow> nat \<Rightarrow> jsstring \<Rightarrow> finding" where
  "exFinding ruleId filePath line severity =
     \<lparr> f_ruleId = ruleId, f_ruleName = ruleId, f_ruleHelp = [],
       f_message = ascii ''m'', f_level = ascii ''error'', f_severity = Str severity,
       f_filePath = filePath, f_startLine = line, f_endLine = line, f_startColumn = 1,
       f_endColumn = 1, f_codeSnippet = ascii ''x'', f_tool = ascii ''CodeQL'',
       f_toolVersion = ascii ''2.0'' \<rparr>"

definition exConfig :: config where
  "exConfig = \<lparr> severityThreshold = ascii ''high'', maxIssuesPerRun = Some 10,
     enableMaintainability = False, enableThreatModel = False, autoAssign = [],
     excludedPaths = [], owner = ascii ''acme'', repo = ascii ''shop'', branch = ascii ''main'',
     sha = ascii ''abc123'', promptRepo = ascii ''acme/prompts'', promptBranch = ascii ''main'',
     sarifPath = ascii ''results.sarif'' \<rparr>"

definition exCategory :: category where
  "exCategory = \<lparr> c_name = Some (ascii ''Injection''),
     c_prompt_file = Some (ascii ''A03_injection.md''),
     c_maintainability = None, c_threat_model = None \<rparr>"

definition exMappings :: mappings where
  "exMappings = \<lparr>
     severity_mapping = [ascii ''error'' \<mapsto> ascii ''critical'', ascii ''warning'' \<mapsto> ascii ''high'',
                         ascii ''note'' \<mapsto> ascii ''low''],
     codeql_to_owasp = [ascii ''R1'' \<mapsto> ascii ''A03'', ascii ''R2'' \<mapsto> ascii ''A03''],
     owasp_categories = [ascii ''A03'' \<mapsto> exCategory],
     label_mapping = Map.empty,
     maintainability_triggers = [] \<rparr>"

definition exEnv :: env where
  "exEnv = \<lparr> cfg = exConfig, mp = exMappings, promptHashes = (\<lambda>category. None),
     parseUrl = (\<lambda>url. Inr (ascii ''https:'', ascii ''raw.githubusercontent.com'')),
     httpGet = (\<lambda>url. Status404), sha256hex = (\<lambda>content. []),
     toUpperCase = asciiUpper, toLowerCase = asciiLower,
     now = ascii ''2025-10-13T16:30:00.000Z'', files = (\<lambda>filePath. NoFile),
     summaryFile = ascii ''logs/summary.json'', duration = ascii ''1.00'' \<rparr>"

definition exRun :: sarifRun where
  "exRun = \<lparr> run_toolName = None, run_semanticVersion = None, run_version = None,
     run_rules = [], run_results = [] \<rparr>"

definition exResult :: "jsstring \<Rightarrow> jsstring \<Rightarrow> nat \<Rightarrow> jsstring \<Rightarrow> sarifResult" where
  "exResult ruleId uri line level =
     \<lparr> res_ruleId = Some ruleId, res_messageText = Some (ascii ''m''), res_level = Some level,
       res_location = Some \<lparr> loc_uri = Some uri,
         loc_region = Some \<lparr> rg_startLine = Some line, rg_endLine = None,
           rg_startColumn = None, rg_endColumn = None,
           rg_snippetText = Some (ascii ''x'') \<rparr> \<rparr> \<rparr>"


definition exGrouped :: "jsstring \<Rightarrow> jsstring \<Rightarrow> nat \<Rightarrow> jsstring \<Rightarrow> groupedFinding" where
  "exGrouped ruleId filePath line severity =
     (newGroup (exFinding ruleId filePath line severity))
       \<lparr>g_occurrences := [occurrenceOf (exFinding ruleId filePath line severity)]\<rparr>"

definition exWorld :: world where
  "exWorld = \<lparr> issues = [], nextNumber = 1, faults = [], logs = [] \<rparr>"

definition exState :: "world \<Rightarrow> loopState" where
  "exState w = \<lparr> ls_results = initialResults 0, ls_processedCount = 0,
     ls_currentVulnerabilities = [], ls_promptCache = Map.empty, ls_world = w \<rparr>"

definition exEnvCap1 :: env where
  "exEnvCap1 = exEnv\<lparr>cfg := exConfig\<lparr>maxIssuesPerRun := Some 1\<rparr>\<rparr>"

definition exCapFindings :: "finding list" where
  "exCapFindings =
     [exFinding (ascii ''R1'') (ascii ''a.ts'') 10 (ascii ''medium''),
      exFinding (ascii ''R1'') (ascii ''b.ts'') 10 (ascii ''critical''),
      exFinding (ascii ''R1'') (ascii ''c.ts'') 10 (ascii ''critical'')]"

text \<open>A short issue body that carries the markers of rule \<open>R1\<close> in file \<open>a.ts\<close>, line 10.\<close>

definition exMarkerBody :: jsstring where
  "exMarkerBody =
     ascii ''| **CodeQL Rule** | '' @ [96] @ ascii ''R1'' @ [96] @ ascii '' |'' @ [10]
     @ ascii ''| **File** | '' @ [96] @ ascii ''a.ts'' @ [96] @ ascii '' |'' @ [10]
     @ ascii ''#### Lines 10'' @ [10]"

definition exIssue :: "nat \<Rightarrow> jsstring \<Rightarrow> jsvalue list \<Rightarrow> issue" where
  "exIssue n body labels = \<lparr> i_number = n, i_title = ascii ''t'', i_body = body,
     i_labels = labels, i_assignees = [], i_state = Open, i_comments = [] \<rparr>"

text \<open>A tracker with one open issue for \<open>R1\<close> in \<open>a.ts\<close> whose next call (the listing) fails.\<close>

definition exFailingLookupWorld :: world where
  "exFailingLookupWorld = \<lparr> issues = [exIssue 1 exMarkerBody [sentinelLabel]], nextNumber = 2,
     faults = [Some (ascii ''timeout''), None], logs = [] \<rparr>"

definition exPrompts :: prompts where
  "exPrompts = \<lparr> p_owaspKey = Str (ascii ''A03''), p_owaspCategory = Some (ascii ''Injection''),
     p_owaspFile = Some (ascii ''A03_injection.md''), p_owaspPrompts = [],
     p_maintainabilityPrompts = [], p_threatModelPrompts = [] \<rparr>"

definition exLongNameGroup :: groupedFinding where
  "exLongNameGroup =
     (exGrouped (ascii ''R1'') (ascii ''a.ts'') 10 (ascii ''critical''))
       \<lparr>g_ruleName := replicate 65000 65\<rparr>"

text \<open>
  The group of \<open>R1\<close> in \<open>a.ts\<close> with a rule help text of 70000 code units: its body is
  truncated behind the occurrence sections.
\<close>

definition exLongHelpGroup :: groupedFinding where
  "exLongHelpGroup =
     (exGrouped (ascii ''R1'') (ascii ''a.ts'') 10 (ascii ''critical''))
       \<lparr>g_ruleHelp := replicate 70000 120\<rparr>"

text \<open>A tracker that holds one open issue of the pipeline for \<open>R1\<close> in \<open>a.ts\<close>, line 10.\<close>

definition exTrackedWorld :: world where
  "exTrackedWorld = \<lparr> issues = [exIssue 1 exMarkerBody [sentinelLabel]], nextNumber = 2,
     faults = [], logs = [] \<rparr>"

text \<open>
  A tracker that holds 101 such open issues, listed newest first: the numbers 101 down
  to 1.  None of them has a live key when the live set is empty.
\<close>

definition exCrowdedWorld :: world where
  "exCrowdedWorld = \<lparr> issues = map (\<lambda>n. exIssue n exMarkerBody [sentinelLabel]) (rev [1..<102]),
     nextNumber = 102, faults = [], logs = [] \<rparr>"

text \<open>
  Two findings of rule \<open>R1\<close>: one in \<open>src/Jobs.ts\<close>, whose code snippet quotes the path of
  the other file in backticks, and one in \<open>src/web.ts\<close>.
\<close>

definition exJobsFinding :: finding where
  "exJobsFinding =
     (exFinding (ascii ''R1'') (ascii ''src/Jobs.ts'') 10 (ascii ''critical''))
       \<lparr>f_codeSnippet := ascii ''load('' @ [96] @ ascii ''src/web.ts'' @ [96] @ ascii '')''\<rparr>"

definition exWebFinding :: finding where
  "exWebFinding = exFinding (ascii ''R1'') (ascii ''src/web.ts'') 20 (ascii ''critical'')"

definition exJobsGroup :: groupedFinding where
  "exJobsGroup = (newGroup exJobsFinding)\<lparr>g_occurrences := [occurrenceOf exJobsFinding]\<rparr>"

definition exWebGroup :: groupedFinding where
  "exWebGroup = (newGroup exWebFinding)\<lparr>g_occurrences := [occurrenceOf exWebFinding]\<rparr>"

definition exInfo :: owaspInfo where
  "exInfo = \<lparr> oi_key = Str (ascii ''A03''), oi_category = exCategory \<rparr>"

section \<open>Evaluation\<close>

lemmas ex_defs = exConfig_def exCategory_def exMappings_def exEnv_def exRun_def exResult_def
  exFinding_def

lemmas lookup_defs = jsGet_def jsGetOr_def objectPrototypeMembers_def textOf_def
  textOfOptional_def

lemmas parse_defs = findingOf_def snippetMissing_def orElse_def orElseNat_def trim_def
  isWhiteSpace_def lookup_defs

lemmas group_defs = groupFindingsByRuleAndFile_def groupStep_def groupKey_def newGroup_def
  occurrenceOf_def

lemmas ex2_defs = exGrouped_def exWorld_def exState_def exEnvCap1_def exMarkerBody_def
  exIssue_def exFailingLookupWorld_def exTrackedWorld_def

lemmas filter_defs = actionable_def meetsSeverityThreshold_def shouldExcludePath_def
  mapToOWASP_def owaspKeyOf_def severityLevels_def lookup_defs

lemmas render_defs = bodyHeader_def occurrenceSection_def locationLabel_def lineRange_def
  snippetOrDefault_def languageOf_def languageMap_def extname_def basename_def asciiLower_def
  lowerUnit_def asciiUpper_def upperUnit_def plural_def owaspCategoryOf_def showNat.simps
  exPrompts_def exLongNameGroup_def orElse_def textOf_def

lemmas sweep_defs = sweepDecide_def ruleMatch_def fileMatch_def backtickedAt_def issueLinesOf_def
  linesAt_def unitIs_def isWhiteSpace_def isDigit_def oldFormatAt_def setAdd_def vulnKey_def

lemmas cross_defs = exJobsFinding_def exWebFinding_def exJobsGroup_def exWebGroup_def exInfo_def

lemmas body_defs = assembleBody_def ruleHelpSection_def owaspSection_def maintSection_def
  threatSection_def remediationZone_def metadataFooter_def capitalize_def truncationNotice_def
  owaspKeyText_def

lemmas prompts_defs = gatherPrompts_def fetchPrompt_def maintainabilityFilesOf_def
  detectMaintainabilityConcerns_def detectMaintainabilityLogs_def withContent_def
  plainPrompts_def

section \<open>Properties of string inclusion\<close>

lemma isPrefixOf_iff: "isPrefixOf p s = (\<exists>t. s = p @ t)"
  by (induction p s rule: isPrefixOf.induct) auto

lemma js_includes_iff: "js_includes s m = (\<exists>a b. s = a @ m @ b)"
proof (induction s)
  case Nil
  show ?case by auto
next
  case (Cons c cs)
  show ?case
  proof
    assume "js_includes (c # cs) m"
    then consider "isPrefixOf m (c # cs)" | "js_includes cs m" by auto
    then show "\<exists>a b. c # cs = a @ m @ b"
    proof cases
      case 1
      then obtain t where "c # cs = m @ t" by (auto simp: isPrefixOf_iff)
      then have "c # cs = [] @ m @ t" by simp
      then show ?thesis by blast
    next
      case 2
      with Cons.IH obtain a b where "cs = a @ m @ b" by blast
      then have "c # cs = (c # a) @ m @ b" by simp
      then show ?thesis by blast
    qed
  next
    assume "\<exists>a b. c # cs = a @ m @ b"
    then obtain a b where ab: "c # cs = a @ m @ b" by blast
    show "js_includes (c # cs) m"
    proof (cases a)
      case Nil
      with ab have "isPrefixOf m (c # cs)" by (auto simp: isPrefixOf_iff)
      then show ?thesis by simp
    next
      case (Cons x a')
      with ab have "cs = a' @ m @ b" by simp
      with Cons.IH have "js_includes cs m" by blast
      then show ?thesis by simp
    qed
  qed
qed

lemma js_includes_append_left: "js_includes s m \<Longrightarrow> js_includes (s @ t) m"
  by (auto simp: js_includes_iff) (metis append.assoc)

lemma js_includes_append_right: "js_includes t m \<Longrightarrow> js_includes (s @ t) m"
  by (auto simp: js_includes_iff) (metis append.assoc)

lemma js_includes_take:
  "js_includes s m \<Longrightarrow> length s \<le> n \<Longrightarrow> js_includes (take n (s @ t)) m"
  by (simp add: js_includes_append_left)

lemma js_includes_set: "js_includes s m \<Longrightarrow> set m \<subseteq> set s"
  by (auto simp: js_includes_iff)

lemma take_prefix_replicate:
  "length pre \<le> n \<Longrightarrow> n - length pre \<le> k \<Longrightarrow>
   take n (pre @ replicate k c @ X) = pre @ replicate (n - length pre) c"
  by simp

section \<open>Properties of the grouping\<close>

lemma pushOccurrence_keys: "map fst (pushOccurrence k oc G) = map fst G"
  by (induction G) auto

lemma pushOccurrence_keyset: "fst ` set (pushOccurrence k oc G) = fst ` set G"
  by (metis pushOccurrence_keys set_map)

lemma pushOccurrence_hdr:
  "(k', g') \<in> set (pushOccurrence k oc G) \<Longrightarrow>
   \<exists>g. (k', g) \<in> set G \<and> g_severity g' = g_severity g \<and> g_level g' = g_level g
      \<and> g_ruleId g' = g_ruleId g \<and> g_filePath g' = g_filePath g"
proof (induction G)
  case Nil
  then show ?case by simp
next
  case (Cons a G)
  obtain ka ga where a: "a = (ka, ga)" by (cases a)
  show ?case
  proof (cases "ka = k")
    case True
    with Cons.prems a have "(k', g') = (ka, ga\<lparr>g_occurrences := g_occurrences ga @ [oc]\<rparr>)
        \<or> (k', g') \<in> set G" by simp
    then show ?thesis
    proof
      assume "(k', g') = (ka, ga\<lparr>g_occurrences := g_occurrences ga @ [oc]\<rparr>)"
      then have "(k', ga) \<in> set (a # G)" "g_severity g' = g_severity ga"
        "g_level g' = g_level ga" "g_ruleId g' = g_ruleId ga" "g_filePath g' = g_filePath ga"
        using a by auto
      then show ?thesis by blast
    next
      assume "(k', g') \<in> set G"
      then have "(k', g') \<in> set (a # G)" by simp
      then show ?thesis by blast
    qed
  next
    case False
    with Cons.prems a have "(k', g') = a \<or> (k', g') \<in> set (pushOccurrence k oc G)" by simp
    then show ?thesis
    proof
      assume "(k', g') = a"
      then have "(k', g') \<in> set (a # G)" by simp
      then show ?thesis by blast
    next
      assume "(k', g') \<in> set (pushOccurrence k oc G)"
      from Cons.IH[OF this] show ?thesis by auto
    qed
  qed
qed

lemma find_append_Some: "find P xs = Some y \<Longrightarrow> find P (xs @ zs) = Some y"
  by (induction xs) auto

lemma find_append_None: "find P xs = None \<Longrightarrow> find P (xs @ zs) = find P zs"
  by (induction xs) (auto split: if_splits)

lemma group_invariant:
  "fst ` set (foldl groupStep [] fs) = groupKey ` set fs \<and>
   (\<forall>(k, g) \<in> set (foldl groupStep [] fs).
      \<exists>f. find (\<lambda>f. groupKey f = k) fs = Some f \<and> g_severity g = f_severity f
        \<and> g_level g = f_level f \<and> g_ruleId g = f_ruleId f \<and> g_filePath g = f_filePath f)"
proof (induction fs rule: rev_induct)
  case Nil
  show ?case by simp
next
  case (snoc x fs)
  let ?G = "foldl groupStep [] fs"
  let ?k = "groupKey x"
  let ?G' = "if ?k \<in> fst ` set ?G then ?G else ?G @ [(?k, newGroup x)]"
  have step: "foldl groupStep [] (fs @ [x]) = pushOccurrence ?k (occurrenceOf x) ?G'"
    by (simp add: groupStep_def Let_def)
  have keys: "fst ` set (pushOccurrence ?k (occurrenceOf x) ?G') = groupKey ` set (fs @ [x])"
    unfolding pushOccurrence_keyset using snoc.IH by auto
  have hdr: "\<exists>f. find (\<lambda>f. groupKey f = k) (fs @ [x]) = Some f \<and> g_severity g = f_severity f
        \<and> g_level g = f_level f \<and> g_ruleId g = f_ruleId f \<and> g_filePath g = f_filePath f"
    if "(k, g) \<in> set (pushOccurrence ?k (occurrenceOf x) ?G')" for k g
  proof -
    from pushOccurrence_hdr[OF that] obtain g0 where
      g0: "(k, g0) \<in> set ?G'" "g_severity g = g_severity g0" "g_level g = g_level g0"
          "g_ruleId g = g_ruleId g0" "g_filePath g = g_filePath g0" by blast
    show ?thesis
    proof (cases "(k, g0) \<in> set ?G")
      case True
      with snoc.IH obtain f where "find (\<lambda>f. groupKey f = k) fs = Some f"
        "g_severity g0 = f_severity f" "g_level g0 = f_level f" "g_ruleId g0 = f_ruleId f"
        "g_filePath g0 = f_filePath f" by fast
      then show ?thesis using g0 by (auto simp: find_append_Some)
    next
      case False
      with g0 have new: "?k \<notin> fst ` set ?G" "k = ?k" "g0 = newGroup x"
        by (auto split: if_splits)
      with snoc.IH have "?k \<notin> groupKey ` set fs" by simp
      then have "find (\<lambda>f. groupKey f = ?k) fs = None"
        unfolding find_None_iff by (metis image_eqI)
      then have "find (\<lambda>f. groupKey f = k) (fs @ [x]) = Some x"
        using new by (simp add: find_append_None)
      then show ?thesis using g0 new by (simp add: newGroup_def)
    qed
  qed
  show ?case unfolding step using keys hdr by blast
qed



text \<open>
  C4.  Grouping is meant to partition the findings by the pair of rule identifier and file
  path.  The map key joins the two with a colon, so two different pairs with the same joined
  text share one group: the findings of rule \<open>a:b\<close> in file \<open>c\<close> and of rule \<open>a\<close> in file
  \<open>b:c\<close> end up in a single group that carries the first pair, and the second pair is not a
  group key at all.
\<close>

theorem grouping_merges_colliding_keys:
  "map (\<lambda>g. (g_ruleId g, g_filePath g, map o_startLine (g_occurrences g)))
     (groupFindingsByRuleAndFile
        [exFinding (ascii ''a:b'') (ascii ''c'') 10 (ascii ''high''),
         exFinding (ascii ''a'') (ascii ''b:c'') 20 (ascii ''high'')])
   = [(ascii ''a:b'', ascii ''c'', [10, 20])]"
  by (simp add: group_defs exFinding_def ascii_def Let_def)

text \<open>
  C9 as stated fails: two results of the same rule in the same file with the levels
  \<open>error\<close> and \<open>note\<close> give a group of severity \<open>critical\<close> when the \<open>error\<close> result
  comes first and of severity \<open>low\<close> when the \<open>note\<close> result comes first.
\<close>

theorem severity_depends_on_first_occurrence:
  "map g_severity (groupFindingsByRuleAndFile (fst (parseResults exEnv exRun
      [WellTyped (exResult (ascii ''R1'') (ascii ''a.ts'') 10 (ascii ''error'')),
       WellTyped (exResult (ascii ''R1'') (ascii ''a.ts'') 20 (ascii ''note''))])))
     = [Str (ascii ''critical'')]
   \<and> map g_severity (groupFindingsByRuleAndFile (fst (parseResults exEnv exRun
      [WellTyped (exResult (ascii ''R1'') (ascii ''a.ts'') 20 (ascii ''note'')),
       WellTyped (exResult (ascii ''R1'') (ascii ''a.ts'') 10 (ascii ''error''))])))
     = [Str (ascii ''low'')]"
  by (simp add: ex_defs parse_defs group_defs ascii_def Let_def)

text \<open>
  C9, amended.  The severity (and level) of a grouped finding is that of the first finding
  of the report with the group's key; later occurrences of the group do not change it.
  The level of a finding is the level the tool reported for the result, \<open>warning\<close> when the
  result has none, and its severity is what the lookup of that level in the
  level-to-severity table yields: the table's entry when that is a non-empty string, the
  member of \<open>Object.prototype\<close> of that name when the table has no entry and the level
  names one (such a severity is no string), and \<open>medium\<close> otherwise.
\<close>

theorem group_severity_is_first_findings:
  "(\<forall>g \<in> set (groupFindingsByRuleAndFile fs).
      \<exists>f. find (\<lambda>f. groupKey f = g_ruleId g @ ascii '':'' @ g_filePath g) fs = Some f
        \<and> g_severity g = f_severity f \<and> g_level g = f_level f)
   \<and> f_level (findingOf e run result location) = orElse (res_level result) (ascii ''warning'')
   \<and> f_severity (findingOf e run result location)
       = (case severity_mapping (mp e) (f_level (findingOf e run result location)) of
            Some severity \<Rightarrow> if severity = [] then Str (ascii ''medium'') else Str severity
          | None \<Rightarrow>
              if f_level (findingOf e run result location) \<in> set objectPrototypeMembers
              then Member (f_level (findingOf e run result location))
              else Str (ascii ''medium''))"
proof (intro conjI)
  show "\<forall>g \<in> set (groupFindingsByRuleAndFile fs).
      \<exists>f. find (\<lambda>f. groupKey f = g_ruleId g @ ascii '':'' @ g_filePath g) fs = Some f
        \<and> g_severity g = f_severity f \<and> g_level g = f_level f"
  proof
    fix g assume "g \<in> set (groupFindingsByRuleAndFile fs)"
    then obtain k where kg: "(k, g) \<in> set (foldl groupStep [] fs)"
      by (auto simp: groupFindingsByRuleAndFile_def)
    with group_invariant[of fs] obtain f where f: "find (\<lambda>f. groupKey f = k) fs = Some f"
      "g_severity g = f_severity f" "g_level g = f_level f" "g_ruleId g = f_ruleId f"
      "g_filePath g = f_filePath f" by fast
    from f(1) have "groupKey f = k" by (auto simp: find_Some_iff)
    then have "k = g_ruleId g @ ascii '':'' @ g_filePath g"
      using f by (simp add: groupKey_def)
    with f show "\<exists>f. find (\<lambda>f. groupKey f = g_ruleId g @ ascii '':'' @ g_filePath g) fs = Some f
        \<and> g_severity g = f_severity f \<and> g_level g = f_level f" by auto
  qed
next
  show "f_level (findingOf e run result location) = orElse (res_level result) (ascii ''warning'')"
    by (simp add: findingOf_def Let_def)
next
  show "f_severity (findingOf e run result location)
       = (case severity_mapping (mp e) (f_level (findingOf e run result location)) of
            Some severity \<Rightarrow> if severity = [] then Str (ascii ''medium'') else Str severity
          | None \<Rightarrow>
              if f_level (findingOf e run result location) \<in> set objectPrototypeMembers
              then Member (f_level (findingOf e run result location))
              else Str (ascii ''medium''))"
    by (simp add: findingOf_def Let_def jsGetOr_def jsGet_def split: option.splits)
qed

theorem group_severity_is_first_findings_witness:
  "map g_severity (groupFindingsByRuleAndFile
      [exFinding (ascii ''R1'') (ascii ''a.ts'') 10 (ascii ''critical''),
       exFinding (ascii ''R1'') (ascii ''a.ts'') 20 (ascii ''low'')]) = [Str (ascii ''critical'')]
   \<and> f_severity (findingOf exEnv exRun
         (exResult (ascii ''R1'') (ascii ''a.ts'') 10 (ascii ''error''))
         \<lparr> loc_uri = None, loc_region = None \<rparr>) = Str (ascii ''critical'')
   \<and> f_severity (findingOf exEnv exRun
         (exResult (ascii ''R1'') (ascii ''a.ts'') 10 (ascii ''constructor''))
         \<lparr> loc_uri = None, loc_region = None \<rparr>) = Member (ascii ''constructor'')"
  using group_severity_is_first_findings[of
      "[exFinding (ascii ''R1'') (ascii ''a.ts'') 10 (ascii ''critical''),
        exFinding (ascii ''R1'') (ascii ''a.ts'') 20 (ascii ''low'')]" exEnv exRun
      "exResult (ascii ''R1'') (ascii ''a.ts'') 10 (ascii ''error'')"
      "\<lparr> loc_uri = None, loc_region = None \<rparr>"]
    group_severity_is_first_findings[of "[]" exEnv exRun
      "exResult (ascii ''R1'') (ascii ''a.ts'') 10 (ascii ''constructor'')"
      "\<lparr> loc_uri = None, loc_region = None \<rparr>"]
  by (simp add: ex_defs group_defs orElse_def objectPrototypeMembers_def ascii_def Let_def)
section \<open>Properties of the tracker calls\<close>

lemma log_fields [simp]:
  "issues (log l m w) = issues w" "faults (log l m w) = faults w"
  "nextNumber (log l m w) = nextNumber w"
  "logs (log l m w) = logs w @ [(l, sanitizeLogMessage m)]"
  by (simp_all add: log_def)

lemma logAll_fields [simp]:
  "issues (logAll ls w) = issues w" "faults (logAll ls w) = faults w"
  "nextNumber (logAll ls w) = nextNumber w"
  "logs (logAll ls w) = logs w @ map (\<lambda>(l, m). (l, sanitizeLogMessage m)) ls"
  unfolding logAll_def by (induction ls arbitrary: w; simp add: split_def)+

lemma openListing_log [simp]: "openListing (log l m w) = openListing w"
  "openListing (logAll ls w) = openListing w"
  by (simp_all add: openListing_def)

lemma remoteCall_ok: "faults w = [] \<Longrightarrow> remoteCall w = (None, w)"
  by (simp add: remoteCall_def)

lemma remoteCall_cons: "faults w = f # fs \<Longrightarrow> remoteCall w = (f, w\<lparr>faults := fs\<rparr>)"
  by (simp add: remoteCall_def)

lemma listForRepo_ok: "faults w = [] \<Longrightarrow> listForRepo w = (Inr (openListing w), w)"
  by (simp add: listForRepo_def remoteCall_ok)

lemma openListing_subset: "i \<in> set (openListing w) \<Longrightarrow> i \<in> set (issues w)"
  by (auto simp: openListing_def dest: in_set_takeD)

lemma find_number_Some:
  "i \<in> set xs \<Longrightarrow> \<exists>j. find (\<lambda>j. i_number j = i_number i) xs = Some j"
  by (induction xs) auto

lemma modifyIssue_ok:
  assumes "faults w = []" "i \<in> set (issues w)"
  shows "\<exists>r. modifyIssue (i_number i) f w =
     (Inr r, w\<lparr>issues := map (\<lambda>j. if i_number j = i_number i then f j else j) (issues w)\<rparr>)"
proof -
  from find_number_Some[OF assms(2)] obtain j where
    "find (\<lambda>j. i_number j = i_number i) (issues w) = Some j" by blast
  then show ?thesis using assms(1) by (simp add: modifyIssue_def remoteCall_ok)
qed

lemma findExistingIssue_ok:
  assumes "faults w = []"
  shows "\<exists>w'. findExistingIssue g w = (find (matchesFinding g) (openListing w), w')
     \<and> issues w' = issues w \<and> faults w' = [] \<and> nextNumber w' = nextNumber w"
  using assms by (auto simp: findExistingIssue_def listForRepo_ok Let_def split: option.splits)

lemma createOrUpdate_found:
  assumes "faults w = []" "find (matchesFinding g) (openListing w) = Some i"
  shows "\<exists>r w'. createOrUpdateIssue e g body labels w = (Inr (r, Updated), w')
     \<and> issues w' = map (\<lambda>j. if i_number j = i_number i
          then j\<lparr>i_body := body, i_labels := labels, i_comments := i_comments j @ [updateComment e]\<rparr>
          else j) (issues w)
     \<and> faults w' = [] \<and> nextNumber w' = nextNumber w"
proof -
  from findExistingIssue_ok[OF assms(1), of g] assms(2) obtain w1 where
    w1: "findExistingIssue g w = (Some i, w1)" "issues w1 = issues w" "faults w1 = []"
        "nextNumber w1 = nextNumber w" by auto
  have iin: "i \<in> set (issues w)"
    using assms(2) by (auto simp: find_Some_iff intro!: openListing_subset) 
  let ?w1' = "log INFO (ascii ''Updating existing issue #'' @ showNat (i_number i)) w1"
  have f1: "faults ?w1' = []" "i \<in> set (issues ?w1')" using w1 iin by simp_all
  from modifyIssue_ok[OF f1, of "\<lambda>i. i\<lparr>i_body := body, i_labels := labels\<rparr>"] obtain r where
    r: "issuesUpdate (i_number i) body labels ?w1' =
      (Inr r, ?w1'\<lparr>issues := map (\<lambda>j. if i_number j = i_number i
          then j\<lparr>i_body := body, i_labels := labels\<rparr> else j) (issues ?w1')\<rparr>)"
    by (auto simp: issuesUpdate_def)
  let ?w2 = "?w1'\<lparr>issues := map (\<lambda>j. if i_number j = i_number i
          then j\<lparr>i_body := body, i_labels := labels\<rparr> else j) (issues ?w1')\<rparr>"
  have f2: "faults ?w2 = []" "i\<lparr>i_body := body, i_labels := labels\<rparr> \<in> set (issues ?w2)"
    using f1 by (auto simp: image_iff intro!: bexI[of _ i])
  from modifyIssue_ok[OF f2, of "\<lambda>i. i\<lparr>i_comments := i_comments i @ [updateComment e]\<rparr>"]
  obtain c where
    c: "createComment (i_number i) (updateComment e) ?w2 =
      (Inr c, ?w2\<lparr>issues := map (\<lambda>j. if i_number j = i_number i
          then j\<lparr>i_comments := i_comments j @ [updateComment e]\<rparr> else j) (issues ?w2)\<rparr>)"
    by (auto simp: createComment_def)
  show ?thesis
    using w1 r c by (simp add: createOrUpdateIssue_def Let_def comp_def cong: if_cong)
qed

lemma createOrUpdate_new:
  assumes "faults w = []" "find (matchesFinding g) (openListing w) = None"
  shows "\<exists>w'. createOrUpdateIssue e g body labels w =
       (Inr (\<lparr> i_number = nextNumber w, i_title = createIssueTitle g, i_body = body,
               i_labels = labels, i_assignees = autoAssign (cfg e), i_state = Open,
               i_comments = [] \<rparr>, Created), w')
     \<and> issues w' = \<lparr> i_number = nextNumber w, i_title = createIssueTitle g, i_body = body,
               i_labels = labels, i_assignees = autoAssign (cfg e), i_state = Open,
               i_comments = [] \<rparr> # issues w
     \<and> faults w' = [] \<and> nextNumber w' = Suc (nextNumber w)"
proof -
  from findExistingIssue_ok[OF assms(1), of g] assms(2) obtain w1 where
    w1: "findExistingIssue g w = (None, w1)" "issues w1 = issues w" "faults w1 = []"
        "nextNumber w1 = nextNumber w" by auto
  show ?thesis
    using w1 by (simp add: createOrUpdateIssue_def Let_def issuesCreate_def remoteCall_ok)
qed

section \<open>Properties of one loop iteration\<close>

lemma skipped1_fields [simp]:
  "r_skipped (skipped1 r) = r_skipped r + 1" "r_errors (skipped1 r) = r_errors r"
  "r_created (skipped1 r) = r_created r" "r_updated (skipped1 r) = r_updated r"
  "r_closed (skipped1 r) = r_closed r" "r_total (skipped1 r) = r_total r"
  by (simp_all add: skipped1_def)

lemma processGroup_reject:
  assumes "\<not> actionable e g"
  shows "r_skipped (ls_results (processGroup e g st)) = r_skipped (ls_results st) + 1"
    and "r_errors (ls_results (processGroup e g st)) = r_errors (ls_results st)"
    and "r_created (ls_results (processGroup e g st)) = r_created (ls_results st)"
    and "r_updated (ls_results (processGroup e g st)) = r_updated (ls_results st)"
    and "ls_processedCount (processGroup e g st) = ls_processedCount st"
    and "ls_currentVulnerabilities (processGroup e g st) = ls_currentVulnerabilities st"
    and "ls_promptCache (processGroup e g st) = ls_promptCache st"
    and "issues (ls_world (processGroup e g st)) = issues (ls_world st)"
    and "faults (ls_world (processGroup e g st)) = faults (ls_world st)"
    and "nextNumber (ls_world (processGroup e g st)) = nextNumber (ls_world st)"
    and "logs (ls_world (processGroup e g st)) = logs (ls_world st) @
          map (\<lambda>(l, m). (l, sanitizeLogMessage m))
          (if \<not> meetsSeverityThreshold (cfg e) (g_severity g)
           then [(INFO, belowThresholdMessage e g)]
           else if shouldExcludePath (cfg e) (g_filePath g)
           then [(INFO, excludedPathMessage g)]
           else mapToOWASPLogs (mp e) (g_ruleId g) @ [(WARN, noMappingMessage g)])"
  using assms by (auto simp: actionable_def processGroup_def Let_def split: option.splits)

text \<open>The create/update stage when no remote call fails and the rendering does not throw.\<close>

lemma stage_new:
  assumes "faults (ls_world st) = []"
    "find (matchesFinding g) (openListing (ls_world st)) = None"
    "gatherPrompts e g info (ls_promptCache st) = ((p, mf), ls, cache)"
    "createIssueBody e g p = Inr body" "generateLabels e g info mf = Inr labels"
  shows "r_created (ls_results (createUpdateStage e g info r st)) = r_created r + 1"
    and "r_updated (ls_results (createUpdateStage e g info r st)) = r_updated r"
    and "r_skipped (ls_results (createUpdateStage e g info r st)) = r_skipped r"
    and "r_errors (ls_results (createUpdateStage e g info r st)) = r_errors r"
    and "ls_processedCount (createUpdateStage e g info r st) = ls_processedCount st + 1"
    and "ls_currentVulnerabilities (createUpdateStage e g info r st)
           = foldl setAdd (ls_currentVulnerabilities st) (occurrenceKeys g)"
    and "ls_promptCache (createUpdateStage e g info r st) = cache"
    and "faults (ls_world (createUpdateStage e g info r st)) = []"
    and "nextNumber (ls_world (createUpdateStage e g info r st)) = Suc (nextNumber (ls_world st))"
    and "issues (ls_world (createUpdateStage e g info r st)) =
           \<lparr> i_number = nextNumber (ls_world st), i_title = createIssueTitle g,
             i_body = body, i_labels = labels,
             i_assignees = autoAssign (cfg e), i_state = Open, i_comments = [] \<rparr>
           # issues (ls_world st)"
proof -
  let ?w1 = "logAll ls (log INFO (ascii ''Processing grouped finding: '' @ g_ruleId g
                            @ ascii '' ('' @ textOf (oi_key info) @ ascii '') - ''
                            @ showNat (length (g_occurrences g)) @ ascii '' occurrence(s)'')
                            (ls_world st))"
  let ?w2 = "logAll (createIssueBodyLogs e g p) ?w1"
  have fw: "faults ?w2 = []" "find (matchesFinding g) (openListing ?w2) = None"
    using assms(1,2) by simp_all
  from createOrUpdate_new[OF fw, of e body labels]
  obtain w' where w': "createOrUpdateIssue e g body labels ?w2 =
       (Inr (\<lparr> i_number = nextNumber ?w2, i_title = createIssueTitle g,
               i_body = body, i_labels = labels,
               i_assignees = autoAssign (cfg e), i_state = Open, i_comments = [] \<rparr>, Created), w')"
     "issues w' = \<lparr> i_number = nextNumber ?w2, i_title = createIssueTitle g,
               i_body = body, i_labels = labels,
               i_assignees = autoAssign (cfg e), i_state = Open, i_comments = [] \<rparr> # issues ?w2"
     "faults w' = []" "nextNumber w' = Suc (nextNumber ?w2)" by blast
  have st': "createUpdateStage e g info r st =
      st\<lparr>ls_results := (r\<lparr>r_by_owasp := bump (r_by_owasp r) (textOf (oi_key info))\<rparr>)
               \<lparr>r_created := r_created r + 1\<rparr>,
         ls_processedCount := ls_processedCount st + 1,
         ls_currentVulnerabilities :=
            foldl setAdd (ls_currentVulnerabilities st) (occurrenceKeys g),
         ls_promptCache := cache,
         ls_world := w'\<rparr>"
    using assms(3,4,5) w'(1) by (simp add: createUpdateStage_def Let_def)
  show "r_created (ls_results (createUpdateStage e g info r st)) = r_created r + 1"
    and "r_updated (ls_results (createUpdateStage e g info r st)) = r_updated r"
    and "r_skipped (ls_results (createUpdateStage e g info r st)) = r_skipped r"
    and "r_errors (ls_results (createUpdateStage e g info r st)) = r_errors r"
    and "ls_processedCount (createUpdateStage e g info r st) = ls_processedCount st + 1"
    and "ls_currentVulnerabilities (createUpdateStage e g info r st)
           = foldl setAdd (ls_currentVulnerabilities st) (occurrenceKeys g)"
    and "ls_promptCache (createUpdateStage e g info r st) = cache"
    and "faults (ls_world (createUpdateStage e g info r st)) = []"
    and "nextNumber (ls_world (createUpdateStage e g info r st)) = Suc (nextNumber (ls_world st))"
    and "issues (ls_world (createUpdateStage e g info r st)) =
           \<lparr> i_number = nextNumber (ls_world st), i_title = createIssueTitle g,
             i_body = body, i_labels = labels,
             i_assignees = autoAssign (cfg e), i_state = Open, i_comments = [] \<rparr>
           # issues (ls_world st)"
    using st' w' by simp_all
qed

lemma stage_found:
  assumes "faults (ls_world st) = []"
    "find (matchesFinding g) (openListing (ls_world st)) = Some i"
    "gatherPrompts e g info (ls_promptCache st) = ((p, mf), ls, cache)"
    "createIssueBody e g p = Inr body" "generateLabels e g info mf = Inr labels"
  shows "r_created (ls_results (createUpdateStage e g info r st)) = r_created r"
    and "r_updated (ls_results (createUpdateStage e g info r st)) = r_updated r + 1"
    and "r_skipped (ls_results (createUpdateStage e g info r st)) = r_skipped r"
    and "r_errors (ls_results (createUpdateStage e g info r st)) = r_errors r"
    and "ls_processedCount (createUpdateStage e g info r st) = ls_processedCount st + 1"
    and "ls_currentVulnerabilities (createUpdateStage e g info r st)
           = foldl setAdd (ls_currentVulnerabilities st) (occurrenceKeys g)"
    and "ls_promptCache (createUpdateStage e g info r st) = cache"
    and "faults (ls_world (createUpdateStage e g info r st)) = []"
    and "nextNumber (ls_world (createUpdateStage e g info r st)) = nextNumber (ls_world st)"
    and "issues (ls_world (createUpdateStage e g info r st)) =
            map (\<lambda>j. if i_number j = i_number i
                 then j\<lparr>i_body := body, i_labels := labels,
                        i_comments := i_comments j @ [updateComment e]\<rparr>
                 else j) (issues (ls_world st))"
proof -
  let ?w1 = "logAll ls (log INFO (ascii ''Processing grouped finding: '' @ g_ruleId g
                            @ ascii '' ('' @ textOf (oi_key info) @ ascii '') - ''
                            @ showNat (length (g_occurrences g)) @ ascii '' occurrence(s)'')
                            (ls_world st))"
  let ?w2 = "logAll (createIssueBodyLogs e g p) ?w1"
  have fw: "faults ?w2 = []" "find (matchesFinding g) (openListing ?w2) = Some i"
    using assms(1,2) by simp_all
  from createOrUpdate_found[OF fw, of e body labels]
  obtain rr w' where w': "createOrUpdateIssue e g body labels ?w2 = (Inr (rr, Updated), w')"
     "issues w' = map (\<lambda>j. if i_number j = i_number i
          then j\<lparr>i_body := body, i_labels := labels,
                 i_comments := i_comments j @ [updateComment e]\<rparr>
          else j) (issues ?w2)"
     "faults w' = []" "nextNumber w' = nextNumber ?w2" by blast
  have st': "createUpdateStage e g info r st =
      st\<lparr>ls_results := (r\<lparr>r_by_owasp := bump (r_by_owasp r) (textOf (oi_key info))\<rparr>)
               \<lparr>r_updated := r_updated r + 1\<rparr>,
         ls_processedCount := ls_processedCount st + 1,
         ls_currentVulnerabilities :=
            foldl setAdd (ls_currentVulnerabilities st) (occurrenceKeys g),
         ls_promptCache := cache,
         ls_world := w'\<rparr>"
    using assms(3,4,5) w'(1) by (simp add: createUpdateStage_def Let_def)
  show "r_created (ls_results (createUpdateStage e g info r st)) = r_created r"
    and "r_updated (ls_results (createUpdateStage e g info r st)) = r_updated r + 1"
    and "r_skipped (ls_results (createUpdateStage e g info r st)) = r_skipped r"
    and "r_errors (ls_results (createUpdateStage e g info r st)) = r_errors r"
    and "ls_processedCount (createUpdateStage e g info r st) = ls_processedCount st + 1"
    and "ls_currentVulnerabilities (createUpdateStage e g info r st)
           = foldl setAdd (ls_currentVulnerabilities st) (occurrenceKeys g)"
    and "ls_promptCache (createUpdateStage e g info r st) = cache"
    and "faults (ls_world (createUpdateStage e g info r st)) = []"
    and "nextNumber (ls_world (createUpdateStage e g info r st)) = nextNumber (ls_world st)"
    and "issues (ls_world (createUpdateStage e g info r st)) =
            map (\<lambda>j. if i_number j = i_number i
                 then j\<lparr>i_body := body, i_labels := labels,
                        i_comments := i_comments j @ [updateComment e]\<rparr>
                 else j) (issues (ls_world st))"
    using st' w' by simp_all
qed

text \<open>An actionable group enters the create/update stage.\<close>

lemma processGroup_stage:
  assumes "actionable e g" "mapToOWASP (mp e) (g_ruleId g) = Some info"
  shows "processGroup e g st =
     createUpdateStage e g info ((ls_results st)\<lparr>r_by_severity :=
                 bump (r_by_severity (ls_results st)) (textOf (g_severity g))\<rparr>) st"
  using assms by (simp add: actionable_def processGroup_def Let_def)


lemma shouldExcludeLoop_iff:
  "shouldExcludeLoop xs p = list_ex (js_includes p) xs"
  by (induction xs) auto

section \<open>The create/update stage without guidance\<close>

text \<open>
  With an empty hash manifest nothing is fetched: the prompt of the category is refused as
  not in the manifest, and the cache stays empty.
\<close>

lemma fetchPrompt_no_manifest:
  "promptHashes e = (\<lambda>category. None) \<Longrightarrow>
   fetchPrompt e category file Map.empty =
     (None, [(ERROR, ascii ''Prompt not in hash manifest: '' @ category @ ascii ''/''
                @ textOfOptional file)], Map.empty)"
  by (simp add: fetchPrompt_def Let_def)

lemma gather_plain:
  assumes "promptHashes e = (\<lambda>category. None)" "\<not> enableMaintainability (cfg e)"
    "c_maintainability (oi_category info) = None" "c_threat_model (oi_category info) = None"
  shows "\<exists>ls. gatherPrompts e g info Map.empty = ((plainPrompts info, []), ls, Map.empty)"
  using assms
  by (simp add: gatherPrompts_def fetchPrompt_no_manifest maintainabilityFilesOf_def
      detectMaintainabilityConcerns_def withContent_def plainPrompts_def)

lemma createIssueBody_plain:
  "g_severity g = Str s \<Longrightarrow>
   createIssueBody e g (plainPrompts info) = Inr (truncateBody (assembleBody e g (plainPrompts info)))"
  by (simp add: createIssueBody_def plainPrompts_def)

lemma generateLabels_Str:
  "oi_key info = Str k \<Longrightarrow> g_severity g = Str s \<Longrightarrow>
   jsGet (label_mapping (mp e)) s = Absent \<Longrightarrow>
   \<exists>labels. generateLabels e g info [] = Inr labels
     \<and> sentinelLabel \<in> set labels \<and> Str (ascii ''false-positive'') \<notin> set labels"
  by (auto simp: generateLabels_def Let_def sentinelLabel_def textOf_def ascii_def)

text \<open>The body the stage renders for a group when nothing is fetched.\<close>

lemma processGroup_new_plain:
  assumes "actionable e g" "mapToOWASP (mp e) (g_ruleId g) = Some info"
    "promptHashes e = (\<lambda>category. None)" "\<not> enableMaintainability (cfg e)"
    "c_maintainability (oi_category info) = None" "c_threat_model (oi_category info) = None"
    "g_severity g = Str s" "oi_key info = Str k"
    "jsGet (label_mapping (mp e)) s = Absent"
    "ls_promptCache st = Map.empty" "faults (ls_world st) = []"
    "find (matchesFinding g) (openListing (ls_world st)) = None"
  shows "r_created (ls_results (processGroup e g st)) = r_created (ls_results st) + 1"
    and "r_updated (ls_results (processGroup e g st)) = r_updated (ls_results st)"
    and "r_skipped (ls_results (processGroup e g st)) = r_skipped (ls_results st)"
    and "r_errors (ls_results (processGroup e g st)) = r_errors (ls_results st)"
    and "ls_processedCount (processGroup e g st) = ls_processedCount st + 1"
    and "ls_currentVulnerabilities (processGroup e g st)
           = foldl setAdd (ls_currentVulnerabilities st) (occurrenceKeys g)"
    and "ls_promptCache (processGroup e g st) = Map.empty"
    and "faults (ls_world (processGroup e g st)) = []"
    and "nextNumber (ls_world (processGroup e g st)) = Suc (nextNumber (ls_world st))"
    and "\<exists>labels. sentinelLabel \<in> set labels \<and> Str (ascii ''false-positive'') \<notin> set labels
          \<and> issues (ls_world (processGroup e g st)) =
           \<lparr> i_number = nextNumber (ls_world st), i_title = createIssueTitle g,
             i_body = truncateBody (assembleBody e g (plainPrompts info)), i_labels = labels,
             i_assignees = autoAssign (cfg e), i_state = Open, i_comments = [] \<rparr>
           # issues (ls_world st)"
proof -
  from gather_plain[OF assms(3,4,5,6), of g] obtain ls where
    ga: "gatherPrompts e g info (ls_promptCache st) = ((plainPrompts info, []), ls, Map.empty)"
    using assms(10) by auto
  from generateLabels_Str[OF assms(8,7,9)] obtain labels where
    la: "generateLabels e g info [] = Inr labels" "sentinelLabel \<in> set labels"
      "Str (ascii ''false-positive'') \<notin> set labels" by blast
  note bo = createIssueBody_plain[OF assms(7), of e info]
  note pg = processGroup_stage[OF assms(1,2), of st]
  note sn = stage_new[OF assms(11,12) ga bo la(1)]
  show "r_created (ls_results (processGroup e g st)) = r_created (ls_results st) + 1"
    and "r_updated (ls_results (processGroup e g st)) = r_updated (ls_results st)"
    and "r_skipped (ls_results (processGroup e g st)) = r_skipped (ls_results st)"
    and "r_errors (ls_results (processGroup e g st)) = r_errors (ls_results st)"
    and "ls_processedCount (processGroup e g st) = ls_processedCount st + 1"
    and "ls_currentVulnerabilities (processGroup e g st)
           = foldl setAdd (ls_currentVulnerabilities st) (occurrenceKeys g)"
    and "ls_promptCache (processGroup e g st) = Map.empty"
    and "faults (ls_world (processGroup e g st)) = []"
    and "nextNumber (ls_world (processGroup e g st)) = Suc (nextNumber (ls_world st))"
    unfolding pg using sn by simp_all
  show "\<exists>labels. sentinelLabel \<in> set labels \<and> Str (ascii ''false-positive'') \<notin> set labels
          \<and> issues (ls_world (processGroup e g st)) =
           \<lparr> i_number = nextNumber (ls_world st), i_title = createIssueTitle g,
             i_body = truncateBody (assembleBody e g (plainPrompts info)), i_labels = labels,
             i_assignees = autoAssign (cfg e), i_state = Open, i_comments = [] \<rparr>
           # issues (ls_world st)"
    unfolding pg using sn(10) la(2,3) by blast
qed

lemma processGroup_found_plain:
  assumes "actionable e g" "mapToOWASP (mp e) (g_ruleId g) = Some info"
    "promptHashes e = (\<lambda>category. None)" "\<not> enableMaintainability (cfg e)"
    "c_maintainability (oi_category info) = None" "c_threat_model (oi_category info) = None"
    "g_severity g = Str s" "oi_key info = Str k"
    "jsGet (label_mapping (mp e)) s = Absent"
    "ls_promptCache st = Map.empty" "faults (ls_world st) = []"
    "find (matchesFinding g) (openListing (ls_world st)) = Some i"
  shows "r_created (ls_results (processGroup e g st)) = r_created (ls_results st)"
    and "r_updated (ls_results (processGroup e g st)) = r_updated (ls_results st) + 1"
    and "r_skipped (ls_results (processGroup e g st)) = r_skipped (ls_results st)"
    and "r_errors (ls_results (processGroup e g st)) = r_errors (ls_results st)"
    and "ls_processedCount (processGroup e g st) = ls_processedCount st + 1"
    and "ls_currentVulnerabilities (processGroup e g st)
           = foldl setAdd (ls_currentVulnerabilities st) (occurrenceKeys g)"
    and "ls_promptCache (processGroup e g st) = Map.empty"
    and "faults (ls_world (processGroup e g st)) = []"
    and "nextNumber (ls_world (processGroup e g st)) = nextNumber (ls_world st)"
    and "\<exists>labels. sentinelLabel \<in> set labels \<and> Str (ascii ''false-positive'') \<notin> set labels
          \<and> issues (ls_world (processGroup e g st)) =
            map (\<lambda>j. if i_number j = i_number i
                 then j\<lparr>i_body := truncateBody (assembleBody e g (plainPrompts info)),
                        i_labels := labels,
                        i_comments := i_comments j @ [updateComment e]\<rparr>
                 else j) (issues (ls_world st))"
proof -
  from gather_plain[OF assms(3,4,5,6), of g] obtain ls where
    ga: "gatherPrompts e g info (ls_promptCache st) = ((plainPrompts info, []), ls, Map.empty)"
    using assms(10) by auto
  from generateLabels_Str[OF assms(8,7,9)] obtain labels where
    la: "generateLabels e g info [] = Inr labels" "sentinelLabel \<in> set labels"
      "Str (ascii ''false-positive'') \<notin> set labels" by blast
  note bo = createIssueBody_plain[OF assms(7), of e info]
  note pg = processGroup_stage[OF assms(1,2), of st]
  note sn = stage_found[OF assms(11,12) ga bo la(1)]
  show "r_created (ls_results (processGroup e g st)) = r_created (ls_results st)"
    and "r_updated (ls_results (processGroup e g st)) = r_updated (ls_results st) + 1"
    and "r_skipped (ls_results (processGroup e g st)) = r_skipped (ls_results st)"
    and "r_errors (ls_results (processGroup e g st)) = r_errors (ls_results st)"
    and "ls_processedCount (processGroup e g st) = ls_processedCount st + 1"
    and "ls_currentVulnerabilities (processGroup e g st)
           = foldl setAdd (ls_currentVulnerabilities st) (occurrenceKeys g)"
    and "ls_promptCache (processGroup e g st) = Map.empty"
    and "faults (ls_world (processGroup e g st)) = []"
    and "nextNumber (ls_world (processGroup e g st)) = nextNumber (ls_world st)"
    unfolding pg using sn by simp_all
  show "\<exists>labels. sentinelLabel \<in> set labels \<and> Str (ascii ''false-positive'') \<notin> set labels
          \<and> issues (ls_world (processGroup e g st)) =
            map (\<lambda>j. if i_number j = i_number i
                 then j\<lparr>i_body := truncateBody (assembleBody e g (plainPrompts info)),
                        i_labels := labels,
                        i_comments := i_comments j @ [updateComment e]\<rparr>
                 else j) (issues (ls_world st))"
    unfolding pg using sn(10) la(2,3) by blast
qed

text \<open>The example environments are of this kind.\<close>

lemma exEnv_plain:
  "promptHashes exEnv = (\<lambda>category. None)" "\<not> enableMaintainability (cfg exEnv)"
  "promptHashes exEnvCap1 = (\<lambda>category. None)" "\<not> enableMaintainability (cfg exEnvCap1)"
  "c_maintainability (oi_category exInfo) = None" "c_threat_model (oi_category exInfo) = None"
  "oi_key exInfo = Str (ascii ''A03'')"
  "jsGet (label_mapping (mp exEnv)) (ascii ''critical'') = Absent"
  "jsGet (label_mapping (mp exEnvCap1)) (ascii ''critical'') = Absent"
  by (simp_all add: ex_defs ex2_defs exInfo_def lookup_defs ascii_def)

lemma exInfo_R1:
  "mapToOWASP (mp exEnv) (ascii ''R1'') = Some exInfo"
  "mapToOWASP (mp exEnvCap1) (ascii ''R1'') = Some exInfo"
  by (simp_all add: mapToOWASP_def owaspKeyOf_def lookup_defs ex_defs ex2_defs exInfo_def
      ascii_def)

section \<open>Properties of the auto-close sweep\<close>

lemma map_number_update:
  "map i_number (map (\<lambda>j. if i_number j = n then f j else j) xs) = map i_number xs"
  if "\<And>j. i_number (f j) = i_number j"
  using that by (induction xs) auto

lemma update_by_number_distinct:
  assumes "distinct (map i_number xs)" "i \<in> set xs"
  shows "map (\<lambda>j. if i_number j = i_number i then f j else j) xs
       = map (\<lambda>j. if j = i then f i else j) xs"
proof (rule map_cong[OF refl])
  fix j assume "j \<in> set xs"
  with assms have "(i_number j = i_number i) = (j = i)"
    by (auto simp: distinct_map inj_on_def)
  then show "(if i_number j = i_number i then f j else j) = (if j = i then f i else j)"
    by auto
qed

lemma closeResolved_ok:
  assumes "faults w = []" "i \<in> set (issues w)" "distinct (map i_number (issues w))"
  shows "fst (closeResolved e i r f n w) = Inr ()"
    and "issues (snd (closeResolved e i r f n w))
          = map (\<lambda>j. if j = i then resolvedIssue e r f n i else j) (issues w)"
    and "faults (snd (closeResolved e i r f n w)) = []"
    and "nextNumber (snd (closeResolved e i r f n w)) = nextNumber w"
proof -
  let ?w0 = "log INFO (ascii ''All occurrences resolved for '' @ r @ ascii '' in ''
                 @ f @ ascii '', closing issue #'' @ showNat (i_number i)) w"
  let ?n = "i_number i"
  have a0: "faults ?w0 = []" "i \<in> set (issues ?w0)" using assms by simp_all
  from modifyIssue_ok[OF a0, of "\<lambda>i. i\<lparr>i_state := Closed\<rparr>"] obtain r1 where
    c1: "issuesClose ?n ?w0 = (Inr r1, ?w0\<lparr>issues :=
           map (\<lambda>j. if i_number j = ?n then j\<lparr>i_state := Closed\<rparr> else j) (issues ?w0)\<rparr>)"
    by (auto simp: issuesClose_def)
  let ?w1 = "?w0\<lparr>issues :=
           map (\<lambda>j. if i_number j = ?n then j\<lparr>i_state := Closed\<rparr> else j) (issues ?w0)\<rparr>"
  have a1: "faults ?w1 = []" "i\<lparr>i_state := Closed\<rparr> \<in> set (issues ?w1)"
    using a0 by (auto simp: image_iff intro!: bexI[of _ i])
  from modifyIssue_ok[OF a1, of "\<lambda>i. i\<lparr>i_comments := i_comments i @ [closeComment e r f n]\<rparr>"]
  obtain r2 where
    c2: "createComment ?n (closeComment e r f n) ?w1 = (Inr r2, ?w1\<lparr>issues :=
           map (\<lambda>j. if i_number j = ?n then j\<lparr>i_comments := i_comments j @ [closeComment e r f n]\<rparr>
                    else j) (issues ?w1)\<rparr>)"
    by (auto simp: createComment_def)
  let ?w2 = "?w1\<lparr>issues :=
           map (\<lambda>j. if i_number j = ?n then j\<lparr>i_comments := i_comments j @ [closeComment e r f n]\<rparr>
                    else j) (issues ?w1)\<rparr>"
  have a2: "faults ?w2 = []"
    "i\<lparr>i_state := Closed, i_comments := i_comments i @ [closeComment e r f n]\<rparr> \<in> set (issues ?w2)"
    using a0 by (auto simp: image_iff intro!: bexI[of _ i])
  from modifyIssue_ok[OF a2, of "\<lambda>i. i\<lparr>i_labels := foldl setAdd (i_labels i) [Str (ascii ''resolved'')]\<rparr>"]
  obtain r3 where
    c3: "addLabels ?n [Str (ascii ''resolved'')] ?w2 = (Inr r3, ?w2\<lparr>issues :=
           map (\<lambda>j. if i_number j = ?n
                    then j\<lparr>i_labels := foldl setAdd (i_labels j) [Str (ascii ''resolved'')]\<rparr>
                    else j) (issues ?w2)\<rparr>)"
    by (auto simp: addLabels_def)
  have res: "closeResolved e i r f n w = (Inr (), ?w2\<lparr>issues :=
           map (\<lambda>j. if i_number j = ?n
                    then j\<lparr>i_labels := foldl setAdd (i_labels j) [Str (ascii ''resolved'')]\<rparr>
                    else j) (issues ?w2)\<rparr>)"
    using c1 c2 c3 by (simp add: closeResolved_def Let_def)
  show "fst (closeResolved e i r f n w) = Inr ()" by (simp add: res)
  show "faults (snd (closeResolved e i r f n w)) = []" using assms by (simp add: res)
  show "nextNumber (snd (closeResolved e i r f n w)) = nextNumber w" by (simp add: res)
  have "issues (snd (closeResolved e i r f n w))
      = map (\<lambda>j. if i_number j = ?n then resolvedIssue e r f n j else j) (issues w)"
    by (simp add: res resolvedIssue_def comp_def cong: if_cong)
  also have "\<dots> = map (\<lambda>j. if j = i then resolvedIssue e r f n i else j) (issues w)"
    by (rule update_by_number_distinct[OF assms(3,2)])
  finally show "issues (snd (closeResolved e i r f n w))
          = map (\<lambda>j. if j = i then resolvedIssue e r f n i else j) (issues w)" .
qed


lemma sweepOutcome_simps:
  "closes live i \<Longrightarrow> \<exists>r f n. sweepDecide live i = CloseIssue r f n
      \<and> sweepOutcome e live i = resolvedIssue e r f n i"
  "\<not> closes live i \<Longrightarrow> sweepOutcome e live i = i"
  by (auto simp: closes_def sweepOutcome_def split: sweepDecision.splits)

lemma sweepLoop_ok:
  assumes "faults w = []" "distinct (map i_number (issues w))" "set L \<subseteq> set (issues w)"
    "distinct L"
  shows "fst (sweepLoop e live L c w) = Inr (c + length (filter (closes live) L))
     \<and> issues (snd (sweepLoop e live L c w))
         = map (\<lambda>j. if j \<in> set L then sweepOutcome e live j else j) (issues w)
     \<and> faults (snd (sweepLoop e live L c w)) = []
     \<and> nextNumber (snd (sweepLoop e live L c w)) = nextNumber w"
  using assms
proof (induction L arbitrary: c w)
  case Nil
  then show ?case by simp
next
  case (Cons i rest)
  have same: "map (\<lambda>j. if j \<in> set rest then sweepOutcome e live j else j) (issues v)
       = map (\<lambda>j. if j \<in> set (i # rest) then sweepOutcome e live j else j) (issues w)"
    if "issues v = issues w" "\<not> closes live i" for v
    using that sweepOutcome_simps(2)[OF that(2), of e] by (auto intro!: map_cong)
  show ?case
  proof (cases "closes live i")
    case False
    have pre: "faults (log l m w) = []" "distinct (map i_number (issues (log l m w)))"
      "set rest \<subseteq> set (issues (log l m w))" "distinct rest" for l m
      using Cons.prems by simp_all
    note IH = Cons.IH[OF pre]
    from False show ?thesis
      by (cases "sweepDecide live i") (simp_all add: closes_def IH same[OF _ False])
  next
    case True
    from sweepOutcome_simps(1)[OF True, of e] obtain r f n where
      d: "sweepDecide live i = CloseIssue r f n"
         "sweepOutcome e live i = resolvedIssue e r f n i" by blast
    have iin: "i \<in> set (issues w)" using Cons.prems by simp
    note cr = closeResolved_ok[OF Cons.prems(1) iin Cons.prems(2), of e r f n]
    obtain x w' where xw: "closeResolved e i r f n w = (x, w')"
      by (cases "closeResolved e i r f n w")
    with cr have x: "x = Inr ()"
      and w': "issues w' = map (\<lambda>j. if j = i then resolvedIssue e r f n i else j) (issues w)"
        "faults w' = []" "nextNumber w' = nextNumber w" by simp_all
    have num: "map i_number (issues w') = map i_number (issues w)"
      unfolding w' by (rule map_cong[OF refl, THEN trans[OF map_map]]) (simp add: resolvedIssue_def)
    have dn: "distinct (map i_number (issues w'))"
      using Cons.prems(2) unfolding num .
    have sub: "set rest \<subseteq> set (issues w')"
    proof
      fix x assume x: "x \<in> set rest"
      with Cons.prems(3,4) have "x \<in> set (issues w)" "x \<noteq> i" by auto
      then show "x \<in> set (issues w')" unfolding w'(1) by (auto simp: image_iff)
    qed
    have pre: "faults w' = []" "distinct (map i_number (issues w'))"
      "set rest \<subseteq> set (issues w')" "distinct rest"
      using Cons.prems(4) w'(2) dn sub by simp_all
    note IH = Cons.IH[OF pre, of "Suc c"]
    have notin: "resolvedIssue e r f n i \<notin> set rest"
    proof
      assume a: "resolvedIssue e r f n i \<in> set rest"
      then have "resolvedIssue e r f n i \<in> set (issues w)" using Cons.prems by auto
      moreover have "i_number (resolvedIssue e r f n i) = i_number i"
        by (simp add: resolvedIssue_def)
      ultimately have "resolvedIssue e r f n i = i"
        using iin Cons.prems(2) by (auto simp: distinct_map inj_on_def)
      with a Cons.prems(4) show False by simp
    qed
    have iss: "map (\<lambda>j. if j \<in> set rest then sweepOutcome e live j else j) (issues w')
         = map (\<lambda>j. if j \<in> set (i # rest) then sweepOutcome e live j else j) (issues w)"
      unfolding w' using notin d(2) Cons.prems(4) by (auto intro!: map_cong)
    show ?thesis
      using True d(1) xw x IH unfolding iss by (simp add: w'(2,3))
  qed
qed

lemma distinct_openListing:
  "distinct (map i_number (issues w)) \<Longrightarrow> distinct (openListing w)"
  by (auto simp: openListing_def distinct_map intro!: distinct_take)

lemma autoClose_ok:
  assumes "faults w = []" "distinct (map i_number (issues w))"
  shows "fst (autoCloseResolvedIssues e live w)
           = Inr (length (filter (closes live) (openListing w)))"
    and "issues (snd (autoCloseResolvedIssues e live w))
         = map (\<lambda>j. if j \<in> set (openListing w) then sweepOutcome e live j else j) (issues w)"
    and "faults (snd (autoCloseResolvedIssues e live w)) = []"
    and "nextNumber (snd (autoCloseResolvedIssues e live w)) = nextNumber w"
proof -
  let ?w1 = "log INFO (ascii ''Found '' @ showNat (length (openListing w))
                        @ ascii '' open CodeQL issue(s) to check'') w"
  have pre: "faults ?w1 = []" "distinct (map i_number (issues ?w1))"
    "set (openListing w) \<subseteq> set (issues ?w1)" "distinct (openListing w)"
    using assms by (auto simp: distinct_openListing dest: openListing_subset)
  note sl = sweepLoop_ok[OF pre, of e live 0]
  obtain x w' where xw: "sweepLoop e live (openListing w) 0 ?w1 = (x, w')"
    by (cases "sweepLoop e live (openListing w) 0 ?w1")
  with sl have r: "x = Inr (length (filter (closes live) (openListing w)))"
    "issues w' = map (\<lambda>j. if j \<in> set (openListing w) then sweepOutcome e live j else j) (issues w)"
    "faults w' = []" "nextNumber w' = nextNumber w" by simp_all
  have ac: "autoCloseResolvedIssues e live w = (x, w')"
    using assms(1) xw r(1) by (simp add: autoCloseResolvedIssues_def listForRepo_ok Let_def)
  show "fst (autoCloseResolvedIssues e live w)
           = Inr (length (filter (closes live) (openListing w)))"
    and "issues (snd (autoCloseResolvedIssues e live w))
         = map (\<lambda>j. if j \<in> set (openListing w) then sweepOutcome e live j else j) (issues w)"
    and "faults (snd (autoCloseResolvedIssues e live w)) = []"
    and "nextNumber (snd (autoCloseResolvedIssues e live w)) = nextNumber w"
    using ac r by simp_all
qed

lemma sweepDecide_Close_iff:
  "(sweepDecide live i = CloseIssue r f n) =
     (Str (ascii ''false-positive'') \<notin> set (i_labels i) \<and> ruleMatch (i_body i) = Some r
      \<and> fileMatch (i_body i) = Some f \<and> issueLinesOf (i_body i) \<noteq> []
      \<and> n = length (issueLinesOf (i_body i))
      \<and> (\<forall>l \<in> set (issueLinesOf (i_body i)). vulnKey r f l \<notin> set live))"
  by (auto simp: sweepDecide_def Let_def list_ex_iff split: option.splits)

lemma sweepOutcome_skips:
  "Str (ascii ''false-positive'') \<in> set (i_labels i) \<Longrightarrow> sweepOutcome e live i = i"
  "issueLinesOf (i_body i) = [] \<Longrightarrow> sweepOutcome e live i = i"
  "ruleMatch (i_body i) = None \<Longrightarrow> sweepOutcome e live i = i"
  "fileMatch (i_body i) = None \<Longrightarrow> sweepOutcome e live i = i"
  by (auto simp: sweepOutcome_def sweepDecide_def Let_def split: option.splits)

lemma sweepOutcome_live:
  "ruleMatch (i_body i) = Some r \<Longrightarrow> fileMatch (i_body i) = Some f \<Longrightarrow>
   l \<in> set (issueLinesOf (i_body i)) \<Longrightarrow> vulnKey r f l \<in> set live \<Longrightarrow>
   sweepOutcome e live i = i"
  by (auto simp: sweepOutcome_def sweepDecide_def Let_def list_ex_iff split: option.splits)

lemma sweepOutcome_resolved:
  "Str (ascii ''false-positive'') \<notin> set (i_labels i) \<Longrightarrow> ruleMatch (i_body i) = Some r \<Longrightarrow>
   fileMatch (i_body i) = Some f \<Longrightarrow> issueLinesOf (i_body i) \<noteq> [] \<Longrightarrow>
   \<forall>l \<in> set (issueLinesOf (i_body i)). vulnKey r f l \<notin> set live \<Longrightarrow>
   sweepOutcome e live i = resolvedIssue e r f (length (issueLinesOf (i_body i))) i"
  by (auto simp: sweepOutcome_def sweepDecide_def Let_def list_ex_iff split: option.splits)

lemma openListing_open: "i \<in> set (openListing w) \<Longrightarrow> i_state i = Open"
  by (auto simp: openListing_def dest: in_set_takeD)

lemma sweepOutcome_closed_iff:
  assumes "i_state i = Open"
  shows "(i_state (sweepOutcome e live i) = Closed) =
     (Str (ascii ''false-positive'') \<notin> set (i_labels i) \<and> issueLinesOf (i_body i) \<noteq> []
      \<and> (\<exists>r f. ruleMatch (i_body i) = Some r \<and> fileMatch (i_body i) = Some f
            \<and> (\<forall>l \<in> set (issueLinesOf (i_body i)). vulnKey r f l \<notin> set live)))"
proof -
  have "(i_state (sweepOutcome e live i) = Closed) = (\<exists>r f n. sweepDecide live i = CloseIssue r f n)"
    using assms
    by (cases "sweepDecide live i") (simp_all add: sweepOutcome_def resolvedIssue_def)
  then show ?thesis unfolding sweepDecide_Close_iff by auto
qed

lemma exIssue_fields [simp]:
  "i_number (exIssue n b l) = n" "i_state (exIssue n b l) = Open" "i_labels (exIssue n b l) = l"
  "i_body (exIssue n b l) = b"
  by (simp_all add: exIssue_def)

lemma exMarker_decision:
  "sweepDecide [] (exIssue n exMarkerBody [sentinelLabel])
     = CloseIssue (ascii ''R1'') (ascii ''a.ts'') 1"
  by (simp add: sweep_defs exMarkerBody_def sentinelLabel_def ascii_def Let_def)

lemma exMarker_live:
  "sweepDecide [ascii ''R1:a.ts:10''] (exIssue n exMarkerBody [sentinelLabel]) = KeepOpen"
  by (simp add: sweep_defs exMarkerBody_def sentinelLabel_def ascii_def Let_def)

lemma exCrowded_numbers:
  "\<exists>M. rev [1..<102] = 101 # M @ [1] \<and> length M = 99 \<and> 1 \<notin> set M \<and> 101 \<notin> set M
     \<and> distinct M"
proof -
  have a: "[1..<102] = 1 # [2..<102]" by (simp add: upt_conv_Cons del: upt_rec_numeral)
  have "[2..<Suc 101] = [2..<101] @ [101]" by (rule upt_Suc_append) simp
  then have b: "[2..<102] = [2..<101] @ [101]" by simp
  have "rev [1..<102] = 101 # rev [2..<101] @ [1]" unfolding a b by simp
  moreover have "length (rev [2..<101]) = 99" "1 \<notin> set (rev [2..<101])"
    "101 \<notin> set (rev [2..<101])" "distinct (rev [2..<101])"
    by (simp_all del: upt_rec_numeral)
  ultimately show ?thesis by blast
qed

lemma processFindings_loop:
  "r_skipped (fst (processFindings e fs w)) = r_skipped (ls_results (findingsLoop e fs w))"
  "r_created (fst (processFindings e fs w)) = r_created (ls_results (findingsLoop e fs w))"
  "r_updated (fst (processFindings e fs w)) = r_updated (ls_results (findingsLoop e fs w))"
  "r_errors (fst (processFindings e fs w)) = r_errors (ls_results (findingsLoop e fs w))"
  by (simp_all add: processFindings_def findingsLoop_def Let_def split: prod.splits sum.splits)

lemma processFindings_sweep:
  "issues (snd (processFindings e fs w)) =
     issues (snd (autoCloseResolvedIssues e (ls_currentVulnerabilities (findingsLoop e fs w))
        (sweepStart e fs w)))"
  "faults (snd (processFindings e fs w)) =
     faults (snd (autoCloseResolvedIssues e (ls_currentVulnerabilities (findingsLoop e fs w))
        (sweepStart e fs w)))"
  "nextNumber (snd (processFindings e fs w)) =
     nextNumber (snd (autoCloseResolvedIssues e (ls_currentVulnerabilities (findingsLoop e fs w))
        (sweepStart e fs w)))"
  "r_closed (fst (processFindings e fs w)) =
     (case fst (autoCloseResolvedIssues e (ls_currentVulnerabilities (findingsLoop e fs w))
        (sweepStart e fs w)) of
        Inr closedCount \<Rightarrow> closedCount
      | Inl err \<Rightarrow> r_closed (ls_results (findingsLoop e fs w)))"
  by (simp_all add: processFindings_def findingsLoop_def sweepStart_def Let_def
      split: prod.splits sum.splits)

section \<open>The decision of the sweep\<close>

text \<open>
  C2.  The sweep is to judge every open issue that carries the sentinel label; the comment
  at its listing call reads \<open>Get all open issues with codeql-finding label\<close>.  The call
  asks for one page of 100 issues and no further page is fetched.  In a tracker with 101
  open issues of the pipeline, none of which has a live key, the sweep closes the newest
  (the first of the listing) and never looks at the oldest: it stays open, although it
  carries the sentinel label, is not labelled \<open>false-positive\<close>, and the decision of the
  sweep for it is to close.
\<close>

theorem sweep_misses_issues_behind_first_page:
  "i_state (last (issues (snd (autoCloseResolvedIssues exEnv [] exCrowdedWorld)))) = Open
   \<and> last (issues exCrowdedWorld) = exIssue 1 exMarkerBody [sentinelLabel]
   \<and> sentinelLabel \<in> set (i_labels (last (issues exCrowdedWorld)))
   \<and> sweepDecide [] (last (issues exCrowdedWorld)) = CloseIssue (ascii ''R1'') (ascii ''a.ts'') 1
   \<and> i_state (hd (issues (snd (autoCloseResolvedIssues exEnv [] exCrowdedWorld)))) = Closed"
proof -
  let ?mk = "\<lambda>n. exIssue n exMarkerBody [sentinelLabel]"
  from exCrowded_numbers obtain M where M: "rev [1..<102] = 101 # M @ [1]" "length M = 99"
    "1 \<notin> set M" "101 \<notin> set M" "distinct M" by blast
  have iss: "issues exCrowdedWorld = ?mk 101 # map ?mk M @ [?mk 1]"
    unfolding exCrowdedWorld_def M(1) by simp
  have f: "faults exCrowdedWorld = []" by (simp add: exCrowdedWorld_def)
  have d: "distinct (map i_number (issues exCrowdedWorld))"
    unfolding iss using M by (simp add: comp_def)
  have ol: "openListing exCrowdedWorld = ?mk 101 # map ?mk M"
    unfolding openListing_def iss using M(2) by (simp add: filter_map comp_def)
  have notin: "?mk 1 \<notin> set (openListing exCrowdedWorld)"
    unfolding ol using M(3) by (auto simp: exIssue_def)
  have after: "issues (snd (autoCloseResolvedIssues exEnv [] exCrowdedWorld))
      = map (\<lambda>j. if j \<in> set (openListing exCrowdedWorld) then sweepOutcome exEnv [] j else j)
          (issues exCrowdedWorld)"
    by (rule autoClose_ok(2)[OF f d])
  have l: "last (issues (snd (autoCloseResolvedIssues exEnv [] exCrowdedWorld))) = ?mk 1"
    unfolding after unfolding iss using notin by simp
  have h: "hd (issues (snd (autoCloseResolvedIssues exEnv [] exCrowdedWorld)))
      = sweepOutcome exEnv [] (?mk 101)"
    unfolding after unfolding iss ol by simp
  show ?thesis
    unfolding l h by (simp add: iss exMarker_decision sweepOutcome_def resolvedIssue_def)
qed

text \<open>
  On the issues of the listing the sweep follows the rule: when no remote call fails and
  the tracker numbers its issues uniquely, an issue labelled \<open>false-positive\<close> is left as
  it is; an issue from whose body no line number can be read is left as it is; the issue
  is closed exactly when it is not labelled \<open>false-positive\<close>, its body yields a rule
  identifier, a file path and at least one line, and none of the keys made of them is in
  the live set; an issue one of whose keys is live is left as it is.
\<close>

lemma sweep_follows_rule_on_listing:
  "faults w = [] \<longrightarrow> distinct (map i_number (issues w)) \<longrightarrow>
     issues (snd (autoCloseResolvedIssues e live w))
       = map (\<lambda>j. if j \<in> set (openListing w) then sweepOutcome e live j else j) (issues w)
     \<and> (\<forall>i \<in> set (openListing w).
          (Str (ascii ''false-positive'') \<in> set (i_labels i) \<longrightarrow> sweepOutcome e live i = i)
          \<and> (issueLinesOf (i_body i) = [] \<longrightarrow> sweepOutcome e live i = i)
          \<and> (i_state (sweepOutcome e live i) = Closed) =
              (Str (ascii ''false-positive'') \<notin> set (i_labels i) \<and> issueLinesOf (i_body i) \<noteq> []
               \<and> (\<exists>r f. ruleMatch (i_body i) = Some r \<and> fileMatch (i_body i) = Some f
                     \<and> (\<forall>l \<in> set (issueLinesOf (i_body i)). vulnKey r f l \<notin> set live)))
          \<and> (\<forall>r f l. ruleMatch (i_body i) = Some r \<longrightarrow> fileMatch (i_body i) = Some f \<longrightarrow>
                l \<in> set (issueLinesOf (i_body i)) \<longrightarrow> vulnKey r f l \<in> set live \<longrightarrow>
                sweepOutcome e live i = i))"
  using autoClose_ok(2)[of w e live] sweepOutcome_skips(1,2)[of _ e live]
    sweepOutcome_closed_iff[OF openListing_open, of _ w e live] sweepOutcome_live[of _ _ _ _ live e]
  by simp
section \<open>The live keys of a run\<close>

text \<open>
  C3.  The live keys are meant to cover every grouped finding of the run, filtered or not.
  The loop adds the keys of a group only after its issue was created or updated, so a group
  rejected by the filter contributes none.  Here the report still holds the finding of rule
  \<open>R1\<close> in \<open>a.ts\<close> at line 10, of severity medium under the threshold high, and the
  tracker holds the open issue for it: the run skips the group and the sweep closes the
  issue.
\<close>

theorem filtered_finding_loses_its_issue:
  "map (\<lambda>f. (f_ruleId f, f_filePath f, f_startLine f))
      [exFinding (ascii ''R1'') (ascii ''a.ts'') 10 (ascii ''medium'')]
     = [(ascii ''R1'', ascii ''a.ts'', 10)]
   \<and> map i_state (issues exTrackedWorld) = [Open]
   \<and> map i_state (issues (snd (processFindings exEnv
        [exFinding (ascii ''R1'') (ascii ''a.ts'') 10 (ascii ''medium'')] exTrackedWorld))) = [Closed]
   \<and> r_closed (fst (processFindings exEnv
        [exFinding (ascii ''R1'') (ascii ''a.ts'') 10 (ascii ''medium'')] exTrackedWorld)) = 1
   \<and> r_skipped (fst (processFindings exEnv
        [exFinding (ascii ''R1'') (ascii ''a.ts'') 10 (ascii ''medium'')] exTrackedWorld)) = 1"
proof -
  let ?fs = "[exFinding (ascii ''R1'') (ascii ''a.ts'') 10 (ascii ''medium'')]"
  let ?g = "exGrouped (ascii ''R1'') (ascii ''a.ts'') 10 (ascii ''medium'')"
  define st0 where "st0 = \<lparr> ls_results = initialResults (length ?fs), ls_processedCount = 0,
         ls_currentVulnerabilities = [], ls_promptCache = Map.empty,
         ls_world = log SUCCESS (ascii ''Grouped '' @ showNat (length ?fs)
                 @ ascii '' finding(s) into '' @ showNat (length (groupFindingsByRuleAndFile ?fs))
                 @ ascii '' issue(s)'')
                 (log INFO (ascii ''Grouping findings by rule and file...'') exTrackedWorld) \<rparr>"
  have groups: "groupFindingsByRuleAndFile ?fs = [?g]"
    by (simp add: exGrouped_def group_defs exFinding_def ascii_def Let_def)
  have cap: "maxIssuesPerRun (cfg exEnv) = Some 10" by (simp add: ex_defs)
  have n: "\<not> actionable exEnv ?g"
    by (simp add: filter_defs ex_defs ex2_defs newGroup_def ascii_def)
  have loop: "findingsLoop exEnv ?fs exTrackedWorld = processGroup exEnv ?g st0"
    unfolding findingsLoop_def Let_def st0_def
    by (simp add: capReached_def cap groups)
  note rj = processGroup_reject[OF n, of st0]
  have live: "ls_currentVulnerabilities (findingsLoop exEnv ?fs exTrackedWorld) = []"
    unfolding loop rj by (simp add: st0_def)
  have sk: "r_skipped (ls_results (findingsLoop exEnv ?fs exTrackedWorld)) = 1"
    unfolding loop rj by (simp add: st0_def initialResults_def)
  have w: "issues (sweepStart exEnv ?fs exTrackedWorld) = issues exTrackedWorld"
    "faults (sweepStart exEnv ?fs exTrackedWorld) = []"
    unfolding sweepStart_def loop using rj by (simp_all add: st0_def exTrackedWorld_def)
  have d: "distinct (map i_number (issues (sweepStart exEnv ?fs exTrackedWorld)))"
    unfolding w by (simp add: exTrackedWorld_def)
  have ol: "openListing (sweepStart exEnv ?fs exTrackedWorld)
      = [exIssue 1 exMarkerBody [sentinelLabel]]"
    unfolding openListing_def w by (simp add: exTrackedWorld_def)
  note ac = autoClose_ok[OF w(2) d, of exEnv "[]"]
  show ?thesis
    unfolding processFindings_sweep processFindings_loop live sk ac ol w
    by (simp add: exTrackedWorld_def exFinding_def sweepOutcome_def exMarker_decision
        resolvedIssue_def closes_def)
qed

section \<open>The filter stage and the cap\<close>

lemma severityRank_index: "indexOf (map Str severityLevels) v = severityRank v"
  by (auto simp: severityLevels_def severityRank_def Let_def ascii_def)

lemma actionable_passes: "actionable e g = passesFilter e g"
  by (simp add: actionable_def passesFilter_def meetsSeverityThreshold_def Let_def
      severityRank_index shouldExcludePath_def shouldExcludeLoop_iff)





text \<open>The run of the three example findings under a cap of one issue.\<close>

lemma exCap_groups:
  "groupFindingsByRuleAndFile exCapFindings =
     [exGrouped (ascii ''R1'') (ascii ''a.ts'') 10 (ascii ''medium''),
      exGrouped (ascii ''R1'') (ascii ''b.ts'') 10 (ascii ''critical''),
      exGrouped (ascii ''R1'') (ascii ''c.ts'') 10 (ascii ''critical'')]"
  by (simp add: exCapFindings_def exGrouped_def group_defs exFinding_def ascii_def Let_def)

lemma exGrouped_fields [simp]:
  "g_ruleId (exGrouped r f l s) = r" "g_filePath (exGrouped r f l s) = f"
  "g_severity (exGrouped r f l s) = Str s"
  by (simp_all add: exGrouped_def newGroup_def exFinding_def)

lemma rank_values:
  "severityRank (Str (ascii ''low'')) = 0" "severityRank (Str (ascii ''medium'')) = 1"
  "severityRank (Str (ascii ''high'')) = 2" "severityRank (Str (ascii ''critical'')) = 3"
  by (simp_all add: severityRank_def ascii_def)

lemma exEnv_filter:
  "severityThreshold (cfg exEnv) = ascii ''high''" "excludedPaths (cfg exEnv) = []"
  "severityThreshold (cfg exEnvCap1) = ascii ''high''" "excludedPaths (cfg exEnvCap1) = []"
  "maxIssuesPerRun (cfg exEnv) = Some 10" "maxIssuesPerRun (cfg exEnvCap1) = Some 1"
  by (simp_all add: ex_defs ex2_defs)

lemma exCap_passes:
  "\<not> passesFilter exEnvCap1 (exGrouped (ascii ''R1'') (ascii ''a.ts'') 10 (ascii ''medium''))"
  "passesFilter exEnvCap1 (exGrouped (ascii ''R1'') (ascii ''b.ts'') 10 (ascii ''critical''))"
  "passesFilter exEnvCap1 (exGrouped (ascii ''R1'') (ascii ''c.ts'') 10 (ascii ''critical''))"
  "\<not> passesFilter exEnv (exGrouped (ascii ''R1'') (ascii ''a.ts'') 10 (ascii ''medium''))"
  "passesFilter exEnv (exGrouped (ascii ''R1'') (ascii ''b.ts'') 10 (ascii ''critical''))"
  "passesFilter exEnv (exGrouped (ascii ''R1'') (ascii ''c.ts'') 10 (ascii ''critical''))"
  by (simp_all add: passesFilter_def rank_values exEnv_filter exInfo_R1)

lemma openListing_empty: "issues w = [] \<Longrightarrow> openListing w = []"
  by (simp add: openListing_def)

lemma exCap_loop:
  "r_created (ls_results (findingsLoop exEnvCap1 exCapFindings exWorld)) = 1
   \<and> r_updated (ls_results (findingsLoop exEnvCap1 exCapFindings exWorld)) = 0
   \<and> r_skipped (ls_results (findingsLoop exEnvCap1 exCapFindings exWorld)) = 3
   \<and> r_errors (ls_results (findingsLoop exEnvCap1 exCapFindings exWorld)) = []
   \<and> faults (ls_world (findingsLoop exEnvCap1 exCapFindings exWorld)) = []
   \<and> map i_title (issues (ls_world (findingsLoop exEnvCap1 exCapFindings exWorld)))
       = [createIssueTitle (exGrouped (ascii ''R1'') (ascii ''b.ts'') 10 (ascii ''critical''))]
   \<and> map i_number (issues (ls_world (findingsLoop exEnvCap1 exCapFindings exWorld))) = [1]"
proof -
  let ?gM = "exGrouped (ascii ''R1'') (ascii ''a.ts'') 10 (ascii ''medium'')"
  let ?gA = "exGrouped (ascii ''R1'') (ascii ''b.ts'') 10 (ascii ''critical'')"
  let ?gB = "exGrouped (ascii ''R1'') (ascii ''c.ts'') 10 (ascii ''critical'')"
  let ?e = exEnvCap1
  define st0 where "st0 = \<lparr> ls_results = initialResults (length exCapFindings), ls_processedCount = 0,
         ls_currentVulnerabilities = [], ls_promptCache = Map.empty,
         ls_world = log SUCCESS (ascii ''Grouped '' @ showNat (length exCapFindings)
                 @ ascii '' finding(s) into ''
                 @ showNat (length (groupFindingsByRuleAndFile exCapFindings))
                 @ ascii '' issue(s)'')
                 (log INFO (ascii ''Grouping findings by rule and file...'') exWorld) \<rparr>"
  define st1 where "st1 = processGroup ?e ?gM st0"
  define st2 where "st2 = processGroup ?e ?gA st1"
  have cap: "maxIssuesPerRun (cfg ?e) = Some 1" by (simp add: ex_defs ex2_defs)
  have nM: "\<not> actionable ?e ?gM" and aA: "actionable ?e ?gA"
    by (simp_all add: actionable_passes exCap_passes)
  have iA: "mapToOWASP (mp ?e) (g_ruleId ?gA) = Some exInfo"
    "g_severity ?gA = Str (ascii ''critical'')"
    by (simp_all add: exInfo_R1)
  have s0: "ls_processedCount st0 = 0" "r_skipped (ls_results st0) = 0"
    "r_created (ls_results st0) = 0" "r_updated (ls_results st0) = 0"
    "faults (ls_world st0) = []" "issues (ls_world st0) = []"
    "r_errors (ls_results st0) = []" "ls_promptCache st0 = Map.empty"
    "nextNumber (ls_world st0) = 1"
    by (simp_all add: st0_def initialResults_def exWorld_def)
  have s1: "ls_processedCount st1 = 0" "r_skipped (ls_results st1) = 1"
    "r_created (ls_results st1) = 0" "r_updated (ls_results st1) = 0"
    "faults (ls_world st1) = []" "issues (ls_world st1) = []"
    "r_errors (ls_results st1) = []" "ls_promptCache st1 = Map.empty"
    "nextNumber (ls_world st1) = 1"
    unfolding st1_def using processGroup_reject[OF nM, of st0] s0 by simp_all
  have none: "find (matchesFinding ?gA) (openListing (ls_world st1)) = None"
    using s1 by (simp add: openListing_empty)
  note acc = processGroup_new_plain[OF aA iA(1) exEnv_plain(3,4,5,6) iA(2) exEnv_plain(7,9)
      s1(8) s1(5) none]
  have s2: "ls_processedCount st2 = 1" "r_skipped (ls_results st2) = 1"
    "r_created (ls_results st2) = 1" "r_updated (ls_results st2) = 0"
    "r_errors (ls_results st2) = []" "faults (ls_world st2) = []"
    unfolding st2_def using acc(1-9) s1 by simp_all
  have s2i: "map i_title (issues (ls_world st2)) = [createIssueTitle ?gA]"
    "map i_number (issues (ls_world st2)) = [1]"
    unfolding st2_def using acc(10) s1 by auto
  have l0: "processLoop ?e (length (groupFindingsByRuleAndFile exCapFindings))
        (groupFindingsByRuleAndFile exCapFindings) st0 =
      st2\<lparr>ls_results := (ls_results st2)\<lparr>r_skipped := r_skipped (ls_results st2)
                     + (3 - ls_processedCount st2)\<rparr>,
          ls_world := log WARN (ascii ''Reached max issues per run ('' @ capText ?e
                 @ ascii ''), stopping'') (ls_world st2)\<rparr>"
    unfolding exCap_groups
    using s0 s1 s2 cap by (simp add: capReached_def st1_def[symmetric] st2_def[symmetric])
  have fl: "findingsLoop ?e exCapFindings exWorld
      = processLoop ?e (length (groupFindingsByRuleAndFile exCapFindings))
        (groupFindingsByRuleAndFile exCapFindings) st0"
    unfolding findingsLoop_def Let_def st0_def by (rule refl)
  show ?thesis
    unfolding fl l0 using s2 s2i by simp
qed

lemma sweepOutcome_title [simp]:
  "i_title (sweepOutcome e live i) = i_title i" "i_number (sweepOutcome e live i) = i_number i"
  by (simp_all add: sweepOutcome_def resolvedIssue_def split: sweepDecision.splits)





text \<open>
  C7.  With a cap of one issue per run and three grouped findings, the first below the
  threshold and the next two actionable, the run creates one issue and then stops at the
  cap.  Two groups were not processed (one rejected, one beyond the cap), but the summary
  reports three skipped: on reaching the cap the loop adds the number of groups minus the
  processed count, which counts the rejected group a second time.
\<close>

theorem cap_counts_rejected_group_twice:
  "length (groupFindingsByRuleAndFile exCapFindings) = 3
   \<and> r_created (fst (processFindings exEnvCap1 exCapFindings exWorld)) = 1
   \<and> r_updated (fst (processFindings exEnvCap1 exCapFindings exWorld)) = 0
   \<and> r_skipped (fst (processFindings exEnvCap1 exCapFindings exWorld)) = 3"
  unfolding processFindings_loop using exCap_loop by (simp add: exCap_groups)

section \<open>Failure of the deduplication lookup\<close>

lemma findExisting_failed:
  "faults v = Some err # None # fs \<Longrightarrow>
     findExistingIssue g v = (None, (log ERROR (ascii ''Failed to search for existing issue: '' @ err)
        (log INFO (ascii ''Searching for existing issue: '' @ g_ruleId g @ ascii '' in ''
                    @ g_filePath g) v))\<lparr>faults := None # fs\<rparr>)"
  by (simp add: findExistingIssue_def listForRepo_def remoteCall_def Let_def log_def)

lemma createOrUpdate_failed_lookup:
  "faults v = Some err # None # fs \<Longrightarrow>
     fst (createOrUpdateIssue e g b l v) =
          Inr (\<lparr> i_number = nextNumber v, i_title = createIssueTitle g, i_body = b,
                 i_labels = l, i_assignees = autoAssign (cfg e), i_state = Open,
                 i_comments = [] \<rparr>, Created)
     \<and> issues (snd (createOrUpdateIssue e g b l v)) =
          \<lparr> i_number = nextNumber v, i_title = createIssueTitle g, i_body = b,
            i_labels = l, i_assignees = autoAssign (cfg e), i_state = Open,
            i_comments = [] \<rparr> # issues v"
  by (simp add: createOrUpdateIssue_def findExisting_failed issuesCreate_def remoteCall_def
      Let_def log_def)

lemma stage_failed_lookup:
  assumes "faults (ls_world st) = Some err # None # fs"
    "gatherPrompts e g info (ls_promptCache st) = ((p, mf), ls, cache)"
    "createIssueBody e g p = Inr body" "generateLabels e g info mf = Inr labels"
  shows "r_errors (ls_results (createUpdateStage e g info r st)) = r_errors r"
    and "r_created (ls_results (createUpdateStage e g info r st)) = r_created r + 1"
    and "issues (ls_world (createUpdateStage e g info r st)) =
           \<lparr> i_number = nextNumber (ls_world st), i_title = createIssueTitle g,
             i_body = body, i_labels = labels,
             i_assignees = autoAssign (cfg e), i_state = Open, i_comments = [] \<rparr>
           # issues (ls_world st)"
proof -
  let ?w1 = "logAll ls (log INFO (ascii ''Processing grouped finding: '' @ g_ruleId g
                            @ ascii '' ('' @ textOf (oi_key info) @ ascii '') - ''
                            @ showNat (length (g_occurrences g)) @ ascii '' occurrence(s)'')
                            (ls_world st))"
  let ?w2 = "logAll (createIssueBodyLogs e g p) ?w1"
  have fw: "faults ?w2 = Some err # None # fs" using assms(1) by simp
  obtain x w' where x: "createOrUpdateIssue e g body labels ?w2 = (x, w')"
    by (cases "createOrUpdateIssue e g body labels ?w2")
  with createOrUpdate_failed_lookup[OF fw, of e g body labels]
  have r: "x = Inr (\<lparr> i_number = nextNumber (ls_world st), i_title = createIssueTitle g,
             i_body = body, i_labels = labels,
             i_assignees = autoAssign (cfg e), i_state = Open, i_comments = [] \<rparr>, Created)"
    "issues w' = \<lparr> i_number = nextNumber (ls_world st), i_title = createIssueTitle g,
             i_body = body, i_labels = labels,
             i_assignees = autoAssign (cfg e), i_state = Open, i_comments = [] \<rparr>
           # issues (ls_world st)" by simp_all
  have st': "createUpdateStage e g info r st =
      st\<lparr>ls_results := (r\<lparr>r_by_owasp := bump (r_by_owasp r) (textOf (oi_key info))\<rparr>)
               \<lparr>r_created := r_created r + 1\<rparr>,
         ls_processedCount := ls_processedCount st + 1,
         ls_currentVulnerabilities :=
            foldl setAdd (ls_currentVulnerabilities st) (occurrenceKeys g),
         ls_promptCache := cache,
         ls_world := w'\<rparr>"
    using assms(2,3,4) x r(1) by (simp add: createUpdateStage_def Let_def)
  show "r_errors (ls_results (createUpdateStage e g info r st)) = r_errors r"
    and "r_created (ls_results (createUpdateStage e g info r st)) = r_created r + 1"
    and "issues (ls_world (createUpdateStage e g info r st)) =
           \<lparr> i_number = nextNumber (ls_world st), i_title = createIssueTitle g,
             i_body = body, i_labels = labels,
             i_assignees = autoAssign (cfg e), i_state = Open, i_comments = [] \<rparr>
           # issues (ls_world st)"
    using st' r(2) by simp_all
qed

text \<open>
  C10.  When the listing call of the deduplication lookup fails, \<open>findExistingIssue\<close>
  logs the failure as an error and returns no issue; \<open>createOrUpdateIssue\<close> then creates
  a new open issue in front of the ones the tracker already holds, whatever they are, so
  an open issue with the same markers may now exist twice.  In the loop the group counts
  as created and no error is recorded (for a group whose body and labels render without an
  error of their own).
\<close>

theorem failed_lookup_takes_create_path:
  "faults w = Some err # None # fs \<longrightarrow>
     fst (findExistingIssue g w) = None
     \<and> logs (snd (findExistingIssue g w)) = logs w @
          [(INFO, sanitizeLogMessage (ascii ''Searching for existing issue: '' @ g_ruleId g
                    @ ascii '' in '' @ g_filePath g)),
           (ERROR, sanitizeLogMessage (ascii ''Failed to search for existing issue: '' @ err))]
     \<and> fst (createOrUpdateIssue e g issueBody labels w) =
          Inr (\<lparr> i_number = nextNumber w, i_title = createIssueTitle g, i_body = issueBody,
                 i_labels = labels, i_assignees = autoAssign (cfg e), i_state = Open,
                 i_comments = [] \<rparr>, Created)
     \<and> issues (snd (createOrUpdateIssue e g issueBody labels w)) =
          \<lparr> i_number = nextNumber w, i_title = createIssueTitle g, i_body = issueBody,
            i_labels = labels, i_assignees = autoAssign (cfg e), i_state = Open,
            i_comments = [] \<rparr> # issues w
     \<and> (actionable e g \<longrightarrow> ls_world st = w \<longrightarrow>
          mapToOWASP (mp e) (g_ruleId g) = Some info \<longrightarrow>
          gatherPrompts e g info (ls_promptCache st) = ((p, mf), ls, cache) \<longrightarrow>
          createIssueBody e g p = Inr body \<longrightarrow> generateLabels e g info mf = Inr labels' \<longrightarrow>
          r_errors (ls_results (processGroup e g st)) = r_errors (ls_results st)
          \<and> r_created (ls_results (processGroup e g st)) = r_created (ls_results st) + 1
          \<and> issues (ls_world (processGroup e g st)) =
               \<lparr> i_number = nextNumber w, i_title = createIssueTitle g, i_body = body,
                 i_labels = labels', i_assignees = autoAssign (cfg e), i_state = Open,
                 i_comments = [] \<rparr> # issues w)"
proof (intro impI conjI)
  assume f: "faults w = Some err # None # fs"
  show "fst (findExistingIssue g w) = None"
    by (simp add: findExisting_failed[OF f])
  show "logs (snd (findExistingIssue g w)) = logs w @
          [(INFO, sanitizeLogMessage (ascii ''Searching for existing issue: '' @ g_ruleId g
                    @ ascii '' in '' @ g_filePath g)),
           (ERROR, sanitizeLogMessage (ascii ''Failed to search for existing issue: '' @ err))]"
    by (simp add: findExisting_failed[OF f])
  show "fst (createOrUpdateIssue e g issueBody labels w) =
          Inr (\<lparr> i_number = nextNumber w, i_title = createIssueTitle g, i_body = issueBody,
                 i_labels = labels, i_assignees = autoAssign (cfg e), i_state = Open,
                 i_comments = [] \<rparr>, Created)"
    using createOrUpdate_failed_lookup[OF f] by simp
  show "issues (snd (createOrUpdateIssue e g issueBody labels w)) =
          \<lparr> i_number = nextNumber w, i_title = createIssueTitle g, i_body = issueBody,
            i_labels = labels, i_assignees = autoAssign (cfg e), i_state = Open,
            i_comments = [] \<rparr> # issues w"
    using createOrUpdate_failed_lookup[OF f] by simp
next
  assume f: "faults w = Some err # None # fs" and a: "actionable e g" and w: "ls_world st = w"
    and info: "mapToOWASP (mp e) (g_ruleId g) = Some info"
    and ga: "gatherPrompts e g info (ls_promptCache st) = ((p, mf), ls, cache)"
    and bo: "createIssueBody e g p = Inr body" and la: "generateLabels e g info mf = Inr labels'"
  have fs: "faults (ls_world st) = Some err # None # fs" using f w by simp
  note pg = processGroup_stage[OF a info, of st]
  note sf = stage_failed_lookup[OF fs ga bo la]
  show "r_errors (ls_results (processGroup e g st)) = r_errors (ls_results st)"
    and "r_created (ls_results (processGroup e g st)) = r_created (ls_results st) + 1"
    and "issues (ls_world (processGroup e g st)) =
               \<lparr> i_number = nextNumber w, i_title = createIssueTitle g, i_body = body,
                 i_labels = labels', i_assignees = autoAssign (cfg e), i_state = Open,
                 i_comments = [] \<rparr> # issues w"
    unfolding pg using sf w by simp_all
qed

theorem failed_lookup_takes_create_path_witness:
  "map i_number (filter (\<lambda>i. i_state i = Open
        \<and> matchesFinding (exGrouped (ascii ''R1'') (ascii ''a.ts'') 10 (ascii ''critical'')) i)
      (issues (snd (createOrUpdateIssue exEnv
         (exGrouped (ascii ''R1'') (ascii ''a.ts'') 10 (ascii ''critical''))
         exMarkerBody [sentinelLabel] exFailingLookupWorld)))) = [2, 1]"
  using failed_lookup_takes_create_path[of exFailingLookupWorld "ascii ''timeout''" "[]"
      "exGrouped (ascii ''R1'') (ascii ''a.ts'') 10 (ascii ''critical'')" exEnv exMarkerBody
      "[sentinelLabel]" "exState exFailingLookupWorld"]
  by (simp add: ex_defs ex2_defs matchesFinding_def ruleMarker_def fileMarker_def newGroup_def
      ascii_def Let_def)

section \<open>Malformed reports\<close>









section \<open>Properties of the body parsers\<close>

lemma takeWhile_stop: "\<forall>x \<in> set v. P x \<Longrightarrow> \<not> P c \<Longrightarrow> takeWhile P (v @ c # r) = v"
  by (induction v) auto

lemma dropWhile_stop: "\<forall>x \<in> set v. P x \<Longrightarrow> \<not> P c \<Longrightarrow> dropWhile P (v @ c # r) = c # r"
  by (induction v) auto

lemma isPrefixOf_append [simp]: "isPrefixOf p (p @ t)"
  by (simp add: isPrefixOf_iff)

lemma backtickedAt_hit:
  assumes "v \<noteq> []" "96 \<notin> set v"
  shows "backtickedAt lit (lit @ v @ 96 # r) = Some v"
proof -
  have a: "\<forall>x \<in> set v. x \<noteq> 96" using assms(2) by auto
  have "takeWhile (\<lambda>c. c \<noteq> 96) (v @ 96 # r) = v"
    by (rule takeWhile_stop[OF a]) simp
  moreover have "dropWhile (\<lambda>c. c \<noteq> 96) (v @ 96 # r) = 96 # r"
    by (rule dropWhile_stop[OF a]) simp
  ultimately show ?thesis using assms(1) by (simp add: backtickedAt_def Let_def)
qed

lemma backtickedAt_miss: "\<not> isPrefixOf lit s \<Longrightarrow> backtickedAt lit s = None"
  by (simp add: backtickedAt_def)

lemma searchFirst_hit: "matchAt s = Some r \<Longrightarrow> searchFirst matchAt s = Some r"
  by (cases s) simp_all

lemma searchFirst_skip:
  "(\<forall>q < length A. matchAt (drop q (A @ s)) = None) \<Longrightarrow>
   searchFirst matchAt (A @ s) = searchFirst matchAt s"
proof (induction A)
  case Nil
  then show ?case by simp
next
  case (Cons a A)
  from Cons.prems have h: "matchAt (a # A @ s) = None" by force
  have "\<forall>q < length A. matchAt (drop q (A @ s)) = None"
  proof (intro allI impI)
    fix q assume "q < length A"
    then have "Suc q < length (a # A)" by simp
    with Cons.prems have "matchAt (drop (Suc q) ((a # A) @ s)) = None" by blast
    then show "matchAt (drop q (A @ s)) = None" by simp
  qed
  from Cons.IH[OF this] h show ?case by simp
qed

text \<open>
  A literal that ends with its only backtick cannot start in front of an occurrence of
  itself and reach into it.
\<close>

lemma no_straddle:
  assumes "lit = m @ [d]" "d \<notin> set m" "\<not> js_includes A lit" "q < length A"
  shows "\<not> isPrefixOf lit (drop q (A @ lit @ X))"
proof
  assume "isPrefixOf lit (drop q (A @ lit @ X))"
  then obtain t where t: "drop q (A @ lit @ X) = lit @ t" by (auto simp: isPrefixOf_iff)
  have nth: "(A @ lit @ X) ! (q + i) = lit ! i" if "i < length lit" for i
  proof -
    have "drop q (A @ lit @ X) ! i = (A @ lit @ X) ! (q + i)"
      by (rule nth_drop) (use assms(4) in simp)
    then have "(A @ lit @ X) ! (q + i) = drop q (A @ lit @ X) ! i" by (rule sym)
    also have "\<dots> = lit ! i" unfolding t using that by (simp add: nth_append)
    finally show ?thesis .
  qed
  show False
  proof (cases "q + length m < length A")
    case True
    then have le: "q + length lit \<le> length A" using assms(1) by simp
    have "drop q A @ (lit @ X) = lit @ t" using t assms(4) by simp
    moreover have "length lit \<le> length (drop q A)" using le by simp
    ultimately have "take (length lit) (drop q A) = lit"
      by (metis append_eq_append_conv_if append_eq_conv_conj)
    then have "A = take q A @ lit @ drop (length lit) (drop q A)"
      by (metis append_take_drop_id)
    then have "js_includes A lit" unfolding js_includes_iff by blast
    with assms(3) show False by simp
  next
    case False
    define j where "j = q + length m - length A"
    have j: "j < length m" using assms(4) False by (simp add: j_def)
    have "(A @ lit @ X) ! (q + length m) = lit ! length m"
      by (rule nth) (simp add: assms(1))
    then have "(A @ lit @ X) ! (q + length m) = d" by (simp add: assms(1))
    moreover have "(A @ lit @ X) ! (q + length m) = m ! j"
      using False j by (simp add: nth_append j_def assms(1))
    ultimately have "d \<in> set m" using j by (metis nth_mem)
    with assms(2) show False by simp
  qed
qed

lemma search_row:
  assumes "lit = m @ [96]" "96 \<notin> set m" "\<not> js_includes A lit" "v \<noteq> []" "96 \<notin> set v"
  shows "searchFirst (backtickedAt lit) (A @ lit @ v @ 96 # r) = Some v"
proof -
  have "\<forall>q < length A. backtickedAt lit (drop q (A @ lit @ v @ 96 # r)) = None"
    using no_straddle[OF assms(1,2,3)] by (simp add: backtickedAt_miss)
  from searchFirst_skip[OF this]
  show ?thesis by (simp add: searchFirst_hit backtickedAt_hit[OF assms(4,5)])
qed

lemma showNat_digits: "showNat n \<noteq> [] \<and> (\<forall>d \<in> set (showNat n). isDigit d)"
proof (induction n rule: showNat.induct)
  case (1 n)
  show ?case
  proof (cases "n < 10")
    case True
    then show ?thesis by (subst (1 2) showNat.simps) (simp add: isDigit_def)
  next
    case False
    with 1 have "\<forall>d \<in> set (showNat (n div 10)). isDigit d" by simp
    moreover have "isDigit (48 + n mod 10)" by (simp add: isDigit_def)
    ultimately show ?thesis using False by (subst (1 2) showNat.simps) simp
  qed
qed

lemma linesAt_label:
  assumes "\<not> isDigit c"
  shows "\<exists>k. linesAt (ascii ''Lines '' @ showNat n @ c # r) = Some (showNat n, k)"
proof -
  obtain d ds where ds: "showNat n = d # ds" using showNat_digits[of n] by (cases "showNat n") auto
  have dig: "\<forall>x \<in> set (showNat n). isDigit x" using showNat_digits by blast
  then have nws: "\<not> isWhiteSpace d" using ds by (auto simp: isDigit_def isWhiteSpace_def)
  have ws32: "isWhiteSpace 32" by (simp add: isWhiteSpace_def)
  have tws: "takeWhile isWhiteSpace (32 # showNat n @ c # r) = [32]"
    and dws: "dropWhile isWhiteSpace (32 # showNat n @ c # r) = showNat n @ c # r"
    using nws ws32 by (simp_all add: ds)
  have tw: "takeWhile isDigit (showNat n @ c # r) = showNat n"
    by (rule takeWhile_stop[OF dig assms])
  have dw: "dropWhile isDigit (showNat n @ c # r) = c # r"
    by (rule dropWhile_stop[OF dig assms])
  have ne: "showNat n \<noteq> []" using ds by simp
  have "ascii ''Lines '' @ showNat n @ c # r = 76 # 105 # 110 # 101 # 115 # 32 # showNat n @ c # r"
    by (simp add: ascii_def)
  then show ?thesis
    using tws dws tw dw ne by (simp add: linesAt_def unitIs_def Let_def)
qed

lemma not_L:
  "unitIs 105 x \<Longrightarrow> \<not> unitIs 108 x" "unitIs 110 x \<Longrightarrow> \<not> unitIs 108 x"
  "unitIs 101 x \<Longrightarrow> \<not> unitIs 108 x" "unitIs 115 x \<Longrightarrow> \<not> unitIs 108 x"
  "isWhiteSpace x \<Longrightarrow> \<not> unitIs 108 x" "isDigit x \<Longrightarrow> \<not> unitIs 108 x"
  "\<not> unitIs 108 45"
  by (auto simp: unitIs_def isWhiteSpace_def isDigit_def)

lemma takeWhile_not_L:
  "(\<And>x. P x \<Longrightarrow> \<not> unitIs 108 x) \<Longrightarrow> \<forall>x \<in> set (takeWhile P xs). \<not> unitIs 108 x"
  by (auto dest: set_takeWhileD)

text \<open>
  A match of the occurrence pattern consists of its first code unit and of code units that
  are no \<open>l\<close> or \<open>L\<close>, so that no match reaches into the start of another.
\<close>

lemma linesAt_span:
  assumes "linesAt t = Some (cap, n)"
  shows "\<exists>c M rest. t = c # M @ rest \<and> n = Suc (length M) \<and> (\<forall>x \<in> set M. \<not> unitIs 108 x)"
proof -
  from assms obtain c1 c2 c3 c4 r where t: "t = c1 # c2 # c3 # c4 # r"
    by (auto simp: linesAt_def split: list.splits)
  define hasS where "hasS = (case r of [] \<Rightarrow> False | c5 # r' \<Rightarrow> unitIs 115 c5)"
  define sPart where "sPart = (if hasS then [hd r] else [])"
  define r1 where "r1 = (if hasS then tl r else r)"
  define ws where "ws = takeWhile isWhiteSpace r1"
  define r2 where "r2 = dropWhile isWhiteSpace r1"
  define ds where "ds = takeWhile isDigit r2"
  define r3 where "r3 = dropWhile isDigit r2"
  define rng where "rng = (case r3 of [] \<Rightarrow> 0
      | d # r4 \<Rightarrow> if d = 45 \<and> takeWhile isDigit r4 \<noteq> []
                 then Suc (length (takeWhile isDigit r4)) else 0)"
  define rangePart where "rangePart = (case r3 of [] \<Rightarrow> []
      | d # r4 \<Rightarrow> if d = 45 \<and> takeWhile isDigit r4 \<noteq> [] then d # takeWhile isDigit r4 else [])"
  define rest where "rest = drop (length rangePart) r3"
  from assms t have c: "unitIs 105 c2" "unitIs 110 c3" "unitIs 101 c4"
    by (simp_all add: linesAt_def Let_def split: if_splits)
  from assms t c have n0: "n = 4 + (if hasS then 1 else 0) + length ws + length ds + rng"
    by (simp add: linesAt_def Let_def hasS_def r1_def ws_def r2_def ds_def r3_def rng_def
        split: if_splits)
  have ls: "length sPart = (if hasS then 1 else 0)" by (simp add: sPart_def)
  have lr: "length rangePart = rng" by (cases r3) (simp_all add: rangePart_def rng_def)
  from n0 ls lr have n: "n = 4 + length sPart + length ws + length ds + length rangePart"
    by simp
  have r: "r = sPart @ r1"
    by (cases r) (auto simp: sPart_def r1_def hasS_def)
  have r1: "r1 = ws @ r2" by (simp add: ws_def r2_def)
  have r2: "r2 = ds @ r3" by (simp add: ds_def r3_def)
  have r3: "r3 = rangePart @ rest"
    by (cases r3) (auto simp: rangePart_def rest_def dropWhile_eq_drop[symmetric])
  have sP: "\<forall>x \<in> set sPart. \<not> unitIs 108 x"
    by (cases r) (auto simp: sPart_def hasS_def not_L)
  have wsP: "\<forall>x \<in> set ws. \<not> unitIs 108 x"
    unfolding ws_def by (rule takeWhile_not_L) (rule not_L)
  have dsP: "\<forall>x \<in> set ds. \<not> unitIs 108 x"
    unfolding ds_def by (rule takeWhile_not_L) (rule not_L)
  have rgP: "\<forall>x \<in> set rangePart. \<not> unitIs 108 x"
    using takeWhile_not_L[of isDigit, OF not_L(6)]
    by (cases r3) (auto simp: rangePart_def not_L)
  let ?M = "[c2, c3, c4] @ sPart @ ws @ ds @ rangePart"
  have "t = c1 # ?M @ rest" unfolding t by (simp add: r r1 r2 r3[symmetric])
  moreover have "n = Suc (length ?M)" using n by simp
  moreover have "\<forall>x \<in> set ?M. \<not> unitIs 108 x"
    using c sP wsP dsP rgP by (auto simp: not_L)
  ultimately show ?thesis by blast
qed

lemma scanLines_reaches:
  assumes "linesAt (c # s) = Some (cap, n)" "unitIs 108 c" "k \<le> length A"
  shows "cap \<in> set (scanLines k (A @ c # s))"
  using assms(3)
proof (induction A arbitrary: k)
  case Nil
  then show ?case using assms(1) by simp
next
  case (Cons a A)
  show ?case
  proof (cases "k > 0")
    case True
    with Cons.prems have "k - 1 \<le> length A" by simp
    from Cons.IH[OF this] True show ?thesis by simp
  next
    case False
    then have k: "k = 0" by simp
    show ?thesis
    proof (cases "linesAt (a # A @ c # s)")
      case None
      with Cons.IH[of 0] k show ?thesis by simp
    next
      case (Some m)
      obtain cap' n' where m: "m = (cap', n')" by (cases m)
      from linesAt_span[OF Some[unfolded m]] obtain c0 M rest where
        M: "a # A @ c # s = c0 # M @ rest" "n' = Suc (length M)" "\<forall>x \<in> set M. \<not> unitIs 108 x"
        by blast
      have "length M \<le> length A"
      proof (rule ccontr)
        assume "\<not> length M \<le> length A"
        then have l: "length A < length M" by simp
        from M(1) have "A @ c # s = M @ rest" by simp
        then have "(A @ c # s) ! length A = (M @ rest) ! length A" by simp
        then have "c = M ! length A" using l by (simp add: nth_append)
        then have "c \<in> set M" using l by simp
        with M(3) assms(2) show False by blast
      qed
      then have "n' - 1 \<le> length A" using M(2) by simp
      from Cons.IH[OF this] Some m k show ?thesis by simp
    qed
  qed
qed

lemma set_foldl_setAdd: "set (foldl setAdd acc xs) = set acc \<union> set xs"
  by (induction xs arbitrary: acc) (auto simp: setAdd_def)

lemma issueLinesOf_member:
  assumes "cap \<in> set (scanLines 0 body)"
  shows "cap \<in> set (issueLinesOf body)"
proof -
  from assms have m: "cap \<in> set (foldl setAdd [] (scanLines 0 body))"
    by (simp add: set_foldl_setAdd)
  then have "foldl setAdd [] (scanLines 0 body) \<noteq> []" by auto
  with m show ?thesis by (simp add: issueLinesOf_def Let_def)
qed

text \<open>The line of a location label is among the lines the sweep reads from a body.\<close>

lemma label_line_found:
  assumes "\<not> isDigit c"
  shows "showNat n \<in> set (issueLinesOf (A @ ascii ''Lines '' @ showNat n @ c # r))"
proof -
  from linesAt_label[OF assms, of n r] obtain k where
    k: "linesAt (ascii ''Lines '' @ showNat n @ c # r) = Some (showNat n, k)" by blast
  have sh: "ascii ''Lines '' @ showNat n @ c # r = 76 # (ascii ''ines '' @ showNat n @ c # r)"
    by (simp add: ascii_def)
  have "showNat n \<in> set (scanLines 0 (A @ 76 # (ascii ''ines '' @ showNat n @ c # r)))"
    by (rule scanLines_reaches[OF k[unfolded sh]]) (simp_all add: unitIs_def)
  then show ?thesis unfolding sh by (rule issueLinesOf_member)
qed

text \<open>A text without a backtick holds no backticked value, and one without a digit no line.\<close>

lemma isPrefixOf_set: "isPrefixOf p s \<Longrightarrow> set p \<subseteq> set s"
  by (auto simp: isPrefixOf_iff)

lemma searchFirst_no_backtick:
  "96 \<notin> set s \<Longrightarrow> searchFirst (backtickedAt (m @ [96])) s = None"
proof (induction s)
  case Nil
  then show ?case by (simp add: backtickedAt_def isPrefixOf_iff)
next
  case (Cons c cs)
  have "\<not> isPrefixOf (m @ [96]) (c # cs)"
    using Cons.prems isPrefixOf_set[of "m @ [96]" "c # cs"] by auto
  then have "backtickedAt (m @ [96]) (c # cs) = None" by (rule backtickedAt_miss)
  with Cons show ?case by simp
qed

lemma linesAt_digit:
  assumes "linesAt s = Some (cap, n)"
  shows "\<exists>d \<in> set s. isDigit d"
proof -
  from assms obtain c1 c2 c3 c4 r where s: "s = c1 # c2 # c3 # c4 # r"
    by (auto simp: linesAt_def split: list.splits)
  define r1 where "r1 = (if (case r of [] \<Rightarrow> False | c5 # r' \<Rightarrow> unitIs 115 c5) then tl r else r)"
  define ds where "ds = takeWhile isDigit (dropWhile isWhiteSpace r1)"
  from assms s have "ds \<noteq> []"
    by (simp add: linesAt_def Let_def r1_def ds_def split: if_splits)
  then obtain d where d: "d \<in> set ds" by (cases ds) auto
  then have "isDigit d" unfolding ds_def by (auto dest: set_takeWhileD)
  moreover have "d \<in> set r1" using d unfolding ds_def
    by (auto dest!: set_takeWhileD set_dropWhileD)
  then have "d \<in> set r" unfolding r1_def by (cases r) (auto split: if_splits)
  ultimately show ?thesis unfolding s by auto
qed

lemma scanLines_no_digit: "\<forall>d \<in> set s. \<not> isDigit d \<Longrightarrow> scanLines k s = []"
proof (induction s arbitrary: k)
  case Nil
  then show ?case by simp
next
  case (Cons c cs)
  have "linesAt (c # cs) = None"
  proof (cases "linesAt (c # cs)")
    case (Some m)
    then obtain cap n where "linesAt (c # cs) = Some (cap, n)" by (cases m) auto
    from linesAt_digit[OF this] Cons.prems show ?thesis by blast
  qed simp
  with Cons show ?case by simp
qed

lemma oldFormatAt_no_digit: "\<forall>d \<in> set s. \<not> isDigit d \<Longrightarrow> oldFormatAt s = None"
proof -
  assume h: "\<forall>d \<in> set s. \<not> isDigit d"
  have "takeWhile isDigit (drop (length (ascii ''**Lines** | '')) s) = []"
  proof (cases "drop (length (ascii ''**Lines** | '')) s")
    case (Cons x xs)
    then have "x \<in> set s" by (metis in_set_dropD list.set_intros(1))
    with h Cons show ?thesis by simp
  qed simp
  then show ?thesis by (simp add: oldFormatAt_def Let_def)
qed

lemma searchFirst_old_no_digit: "\<forall>d \<in> set s. \<not> isDigit d \<Longrightarrow> searchFirst oldFormatAt s = None"
proof (induction s)
  case Nil
  then show ?case by (simp add: oldFormatAt_no_digit)
next
  case (Cons c cs)
  from Cons.prems have "oldFormatAt (c # cs) = None" by (rule oldFormatAt_no_digit)
  with Cons show ?case by simp
qed

lemma issueLinesOf_no_digit: "\<forall>d \<in> set s. \<not> isDigit d \<Longrightarrow> issueLinesOf s = []"
  by (simp add: issueLinesOf_def scanLines_no_digit searchFirst_old_no_digit)

section \<open>Properties of the rendered body\<close>

lemma length_truncationNotice: "length truncationNotice = 130"
  by (simp add: truncationNotice_def ascii_def)

lemma length_truncateBody: "length (truncateBody body) \<le> 65130"
  by (simp add: truncateBody_def MAX_BODY_LENGTH_def length_truncationNotice)

lemma truncateBody_keeps_prefix:
  "length s \<le> 65000 \<Longrightarrow> \<exists>t'. truncateBody (s @ t) = s @ t'"
  by (simp add: truncateBody_def MAX_BODY_LENGTH_def)

lemma createIssueBody_returns:
  "g_severity g = Str sev \<Longrightarrow> \<not> list_ex (\<lambda>pr. fst pr = None) (p_owaspPrompts p) \<Longrightarrow>
   createIssueBody e g p = Inr (truncateBody (assembleBody e g p))"
  by (simp add: createIssueBody_def)

text \<open>The rows of the header: the label, the value in backticks, and what follows.\<close>

lemma bodyHeader_ruleRow:
  "\<exists>r. bodyHeader e g p = beforeRuleRow e g @ ruleLabel @ g_ruleId g @ 96 # r"
  by (simp add: bodyHeader_def beforeRuleRow_def ruleLabel_def ascii_def)

lemma bodyHeader_fileRow:
  "\<exists>r. bodyHeader e g p = beforeFileRow e g p @ fileLabel @ g_filePath g @ 96 # r"
  by (simp add: bodyHeader_def beforeFileRow_def beforeRuleRow_def ruleLabel_def fileLabel_def
      ascii_def)

lemma truncated_ruleRow:
  assumes "length (bodyHeader e g p) \<le> 65000"
  shows "\<exists>r. truncateBody (assembleBody e g p)
           = beforeRuleRow e g @ ruleLabel @ g_ruleId g @ 96 # r"
proof -
  obtain r where r: "bodyHeader e g p = beforeRuleRow e g @ ruleLabel @ g_ruleId g @ 96 # r"
    using bodyHeader_ruleRow by blast
  obtain t where "assembleBody e g p = bodyHeader e g p @ t" by (simp add: assembleBody_def)
  with truncateBody_keeps_prefix[OF assms] obtain t' where
    "truncateBody (assembleBody e g p) = bodyHeader e g p @ t'" by metis
  then show ?thesis unfolding r by simp
qed

lemma truncated_fileRow:
  assumes "length (bodyHeader e g p) \<le> 65000"
  shows "\<exists>r. truncateBody (assembleBody e g p)
           = beforeFileRow e g p @ fileLabel @ g_filePath g @ 96 # r"
proof -
  obtain r where r: "bodyHeader e g p = beforeFileRow e g p @ fileLabel @ g_filePath g @ 96 # r"
    using bodyHeader_fileRow by blast
  obtain t where "assembleBody e g p = bodyHeader e g p @ t" by (simp add: assembleBody_def)
  with truncateBody_keeps_prefix[OF assms] obtain t' where
    "truncateBody (assembleBody e g p) = bodyHeader e g p @ t'" by metis
  then show ?thesis unfolding r by simp
qed

lemma truncated_matches:
  assumes "length (bodyHeader e g p) \<le> 65000" "i_body i = truncateBody (assembleBody e g p)"
  shows "matchesFinding g i"
proof -
  obtain r where r: "i_body i = beforeRuleRow e g @ ruleLabel @ g_ruleId g @ 96 # r"
    using truncated_ruleRow[OF assms(1)] assms(2) by auto
  obtain r' where r': "i_body i = beforeFileRow e g p @ fileLabel @ g_filePath g @ 96 # r'"
    using truncated_fileRow[OF assms(1)] assms(2) by auto
  have "i_body i = (beforeRuleRow e g @ ascii ''**CodeQL Rule** | '') @ ruleMarker g @ r"
    unfolding r by (simp add: ruleLabel_def ruleMarker_def)
  then have a: "js_includes (i_body i) (ruleMarker g)" unfolding js_includes_iff by blast
  have "i_body i = (beforeFileRow e g p @ ascii ''**File** | '') @ fileMarker g @ r'"
    unfolding r' by (simp add: fileLabel_def fileMarker_def)
  then have b: "js_includes (i_body i) (fileMarker g)" unfolding js_includes_iff by blast
  from a b show ?thesis by (simp add: matchesFinding_def)
qed

text \<open>
  The sweep reads a value up to its first backtick: the rule identifier or the path in
  full when it has none.
\<close>

lemma truncated_ruleMatch:
  assumes "length (bodyHeader e g p) \<le> 65000" "g_ruleId g = v @ w" "v \<noteq> []" "96 \<notin> set v"
    "w = [] \<or> hd w = 96" "\<not> js_includes (beforeRuleRow e g) ruleLabel"
  shows "ruleMatch (truncateBody (assembleBody e g p)) = Some v"
proof -
  obtain r where r: "truncateBody (assembleBody e g p)
      = beforeRuleRow e g @ ruleLabel @ g_ruleId g @ 96 # r"
    using truncated_ruleRow[OF assms(1)] by blast
  obtain r' where r': "g_ruleId g @ 96 # r = v @ 96 # r'"
    using assms(2,5) by (cases w) auto
  have l: "ruleLabel = ascii ''**CodeQL Rule** | '' @ [96]" by (simp add: ruleLabel_def)
  have n: "96 \<notin> set (ascii ''**CodeQL Rule** | '')" by (simp add: ascii_def)
  show ?thesis
    unfolding r r' ruleMatch_def l[symmetric]
    by (rule search_row[OF l n assms(6) assms(3) assms(4)])
qed

lemma truncated_fileMatch:
  assumes "length (bodyHeader e g p) \<le> 65000" "g_filePath g = v @ w" "v \<noteq> []" "96 \<notin> set v"
    "w = [] \<or> hd w = 96" "\<not> js_includes (beforeFileRow e g p) fileLabel"
  shows "fileMatch (truncateBody (assembleBody e g p)) = Some v"
proof -
  obtain r where r: "truncateBody (assembleBody e g p)
      = beforeFileRow e g p @ fileLabel @ g_filePath g @ 96 # r"
    using truncated_fileRow[OF assms(1)] by blast
  obtain r' where r': "g_filePath g @ 96 # r = v @ 96 # r'"
    using assms(2,5) by (cases w) auto
  have l: "fileLabel = ascii ''**File** | '' @ [96]" by (simp add: fileLabel_def)
  have n: "96 \<notin> set (ascii ''**File** | '')" by (simp add: ascii_def)
  show ?thesis
    unfolding r r' fileMatch_def l[symmetric]
    by (rule search_row[OF l n assms(6) assms(3) assms(4)])
qed

text \<open>The location label of an occurrence ends its start line with a hyphen or a line feed.\<close>

lemma occurrenceSection_label:
  "\<exists>A c r. \<not> isDigit c \<and> occurrenceSection e g index oc
      = A @ ascii ''Lines '' @ showNat (o_startLine oc) @ c # r"
proof -
  define pre where "pre = (if length (g_occurrences g) > 1
      then [10] @ ascii ''#### Location '' @ showNat (index + 1) @ ascii '': ''
      else [10] @ ascii ''#### '')"
  define post where "post = [10, 96, 96, 96] @ languageOf e (g_filePath g) @ [10]
      @ snippetOrDefault oc @ [10, 96, 96, 96, 10, 10] @ ascii ''**Issue**: '' @ o_message oc
      @ [10, 10]"
  show ?thesis
  proof (cases "o_endLine oc \<noteq> o_startLine oc")
    case True
    have "occurrenceSection e g index oc = pre @ ascii ''Lines '' @ showNat (o_startLine oc)
        @ 45 # (showNat (o_endLine oc) @ 10 # post)"
      using True
      by (simp add: occurrenceSection_def locationLabel_def lineRange_def pre_def post_def
          ascii_def)
    moreover have "\<not> isDigit 45" by (simp add: isDigit_def)
    ultimately show ?thesis by blast
  next
    case False
    have "occurrenceSection e g index oc = pre @ ascii ''Lines '' @ showNat (o_startLine oc)
        @ 10 # post"
      using False
      by (simp add: occurrenceSection_def locationLabel_def lineRange_def pre_def post_def
          ascii_def)
    moreover have "\<not> isDigit 10" by (simp add: isDigit_def)
    ultimately show ?thesis by blast
  qed
qed

lemma occurrenceSections_label:
  "oc \<in> set ocs \<Longrightarrow>
   \<exists>A c r. \<not> isDigit c \<and> occurrenceSections e g index ocs
      = A @ ascii ''Lines '' @ showNat (o_startLine oc) @ c # r"
proof (induction ocs arbitrary: index)
  case Nil
  then show ?case by simp
next
  case (Cons a ocs)
  show ?case
  proof (cases "oc = a")
    case True
    obtain A c r where "\<not> isDigit c" "occurrenceSection e g index oc
        = A @ ascii ''Lines '' @ showNat (o_startLine oc) @ c # r"
      using occurrenceSection_label by blast
    then have "\<not> isDigit c \<and> occurrenceSections e g index (a # ocs)
        = A @ ascii ''Lines '' @ showNat (o_startLine oc) @ c # (r @ occurrenceSections e g (Suc index) ocs)"
      using True by simp
    then show ?thesis by blast
  next
    case False
    with Cons.prems have "oc \<in> set ocs" by simp
    from Cons.IH[OF this, of "Suc index"] obtain A c r where "\<not> isDigit c"
      "occurrenceSections e g (Suc index) ocs
        = A @ ascii ''Lines '' @ showNat (o_startLine oc) @ c # r" by blast
    then have "\<not> isDigit c \<and> occurrenceSections e g index (a # ocs)
        = (occurrenceSection e g index a @ A) @ ascii ''Lines '' @ showNat (o_startLine oc) @ c # r"
      by simp
    then show ?thesis by blast
  qed
qed

lemma truncated_lines:
  assumes "length (bodyHeader e g p @ occurrenceSections e g 0 (g_occurrences g)) \<le> 65000"
    "oc \<in> set (g_occurrences g)"
  shows "showNat (o_startLine oc) \<in> set (issueLinesOf (truncateBody (assembleBody e g p)))"
proof -
  obtain A c r where c: "\<not> isDigit c" and s: "occurrenceSections e g 0 (g_occurrences g)
      = A @ ascii ''Lines '' @ showNat (o_startLine oc) @ c # r"
    using occurrenceSections_label[OF assms(2)] by blast
  obtain t where "assembleBody e g p
      = (bodyHeader e g p @ occurrenceSections e g 0 (g_occurrences g)) @ t"
    by (simp add: assembleBody_def)
  with truncateBody_keeps_prefix[OF assms(1)] obtain t' where
    "truncateBody (assembleBody e g p)
      = (bodyHeader e g p @ occurrenceSections e g 0 (g_occurrences g)) @ t'" by metis
  then have eq: "truncateBody (assembleBody e g p)
      = (bodyHeader e g p @ A) @ ascii ''Lines '' @ showNat (o_startLine oc) @ c # (r @ t')"
    unfolding s by simp
  show ?thesis unfolding eq by (rule label_line_found[OF c])
qed

lemma assembleBody_starts:
  "\<exists>X. assembleBody e g p =
     (ascii ''## '' @ [55357, 56628] @ ascii '' Security Vulnerability: '') @ g_ruleName g @ X"
  by (simp add: assembleBody_def bodyHeader_def)

text \<open>The body of the group with the long rule name, and of the group with the long help.\<close>

lemma exLongName_body:
  "truncateBody (assembleBody exEnv exLongNameGroup exPrompts)
   = ascii ''## '' @ [55357, 56628] @ ascii '' Security Vulnerability: ''
     @ replicate 64970 65 @ truncationNotice"
proof -
  define pre where "pre = ascii ''## '' @ [55357, 56628] @ ascii '' Security Vulnerability: ''"
  from assembleBody_starts[of exEnv exLongNameGroup exPrompts] obtain X where
    X: "assembleBody exEnv exLongNameGroup exPrompts = pre @ replicate 65000 65 @ X"
    by (auto simp: exLongNameGroup_def pre_def)
  have lp: "length pre = 30" by (simp add: pre_def ascii_def)
  have tk: "take 65000 (pre @ replicate 65000 65 @ X) = pre @ replicate (65000 - length pre) 65"
    by (rule take_prefix_replicate) (simp_all add: lp)
  have "truncateBody (assembleBody exEnv exLongNameGroup exPrompts) =
      pre @ replicate (65000 - length pre) 65 @ truncationNotice"
    unfolding truncateBody_def X MAX_BODY_LENGTH_def tk
    by (simp add: lp)
  with lp have "truncateBody (assembleBody exEnv exLongNameGroup exPrompts) =
      pre @ replicate 64970 65 @ truncationNotice" by simp
  then show ?thesis by (simp add: pre_def)
qed

lemma exLongName_units:
  "96 \<notin> set (truncateBody (assembleBody exEnv exLongNameGroup exPrompts))"
  "\<forall>d \<in> set (truncateBody (assembleBody exEnv exLongNameGroup exPrompts)). \<not> isDigit d"
  unfolding exLongName_body
  by (simp_all add: ascii_def truncationNotice_def isDigit_def)

text \<open>
  C8 as stated fails: with a rule name of 65000 code units the cut falls inside the first
  line of the body.  The rendered body is the first 65000 code units with the notice, and
  nothing of the markers is left in it: the deduplication lookup does not match it, and
  the sweep reads no rule identifier, no path and no line from it.
\<close>

theorem truncation_can_cut_the_rule_marker:
  "createIssueBody exEnv exLongNameGroup exPrompts
     = Inr (take 65000 (assembleBody exEnv exLongNameGroup exPrompts) @ truncationNotice)
   \<and> \<not> js_includes (take 65000 (assembleBody exEnv exLongNameGroup exPrompts) @ truncationNotice)
         (ruleMarker exLongNameGroup)
   \<and> \<not> matchesFinding exLongNameGroup
         (exIssue 1 (take 65000 (assembleBody exEnv exLongNameGroup exPrompts) @ truncationNotice)
            [sentinelLabel])
   \<and> ruleMatch (take 65000 (assembleBody exEnv exLongNameGroup exPrompts) @ truncationNotice) = None
   \<and> fileMatch (take 65000 (assembleBody exEnv exLongNameGroup exPrompts) @ truncationNotice) = None
   \<and> issueLinesOf (take 65000 (assembleBody exEnv exLongNameGroup exPrompts) @ truncationNotice)
       = []"
proof -
  let ?B = "truncateBody (assembleBody exEnv exLongNameGroup exPrompts)"
  have long: "length (assembleBody exEnv exLongNameGroup exPrompts) > 65000"
    using assembleBody_starts[of exEnv exLongNameGroup exPrompts]
    by (auto simp: exLongNameGroup_def)
  then have B: "take 65000 (assembleBody exEnv exLongNameGroup exPrompts) @ truncationNotice = ?B"
    by (simp add: truncateBody_def MAX_BODY_LENGTH_def)
  have sev: "g_severity exLongNameGroup = Str (ascii ''critical'')"
    by (simp add: exLongNameGroup_def)
  have "createIssueBody exEnv exLongNameGroup exPrompts = Inr ?B"
    by (rule createIssueBody_returns[OF sev]) (simp add: exPrompts_def)
  moreover have inc: "\<not> js_includes ?B (ruleMarker exLongNameGroup)"
  proof
    assume "js_includes ?B (ruleMarker exLongNameGroup)"
    from js_includes_set[OF this] have "96 \<in> set ?B" by (simp add: ruleMarker_def)
    with exLongName_units(1) show False by simp
  qed
  moreover have "\<not> matchesFinding exLongNameGroup (exIssue 1 ?B [sentinelLabel])"
    using inc by (simp add: matchesFinding_def exIssue_def)
  moreover have "ruleMatch ?B = None"
    unfolding ruleMatch_def by (rule searchFirst_no_backtick[OF exLongName_units(1)])
  moreover have "fileMatch ?B = None"
    unfolding fileMatch_def by (rule searchFirst_no_backtick[OF exLongName_units(1)])
  moreover have "issueLinesOf ?B = []"
    by (rule issueLinesOf_no_digit[OF exLongName_units(2)])
  ultimately show ?thesis unfolding B by simp
qed

text \<open>The renderer returns a body exactly when the severity is a string and every category
  prompt has a file name.\<close>

lemma createIssueBody_returns_iff:
  "(\<exists>B. createIssueBody e g p = Inr B)
   = ((\<exists>sev. g_severity g = Str sev) \<and> \<not> list_ex (\<lambda>pr. fst pr = None) (p_owaspPrompts p))"
  by (cases "g_severity g") (simp_all add: createIssueBody_def)

text \<open>
  A path with a backtick is rendered in full, and the sweep reads it up to the backtick.
\<close>

lemma path_is_read_to_its_first_backtick:
  assumes "length (bodyHeader e g p) \<le> 65000" "g_filePath g = v @ 96 # w" "v \<noteq> []"
    "96 \<notin> set v" "\<not> js_includes (beforeFileRow e g p) fileLabel"
  shows "fileMatch (truncateBody (assembleBody e g p)) = Some v"
  by (rule truncated_fileMatch[OF assms(1,2,3,4) _ assms(5)]) simp

lemma exLongHelp_fields:
  "g_severity exLongHelpGroup = Str (ascii ''critical'')"
  "g_ruleId exLongHelpGroup = ascii ''R1''" "g_filePath exLongHelpGroup = ascii ''a.ts''"
  "g_occurrences exLongHelpGroup
     = [occurrenceOf (exFinding (ascii ''R1'') (ascii ''a.ts'') 10 (ascii ''critical''))]"
  "o_startLine (occurrenceOf (exFinding (ascii ''R1'') (ascii ''a.ts'') 10 (ascii ''critical''))) = 10"
  "\<not> list_ex (\<lambda>pr. fst pr = None) (p_owaspPrompts exPrompts)"
  by (simp_all add: exLongHelpGroup_def exGrouped_def newGroup_def exPrompts_def
      occurrenceOf_def exFinding_def)

lemma exLongHelp_long: "65000 < length (assembleBody exEnv exLongHelpGroup exPrompts)"
proof -
  have "length (ruleHelpSection exLongHelpGroup)
      \<le> length (assembleBody exEnv exLongHelpGroup exPrompts)"
    by (simp add: assembleBody_def)
  moreover have "70000 \<le> length (ruleHelpSection exLongHelpGroup)"
    by (simp add: ruleHelpSection_def exLongHelpGroup_def)
  ultimately show ?thesis by simp
qed

lemma exLongHelp_head:
  "length (bodyHeader exEnv exLongHelpGroup exPrompts
     @ occurrenceSections exEnv exLongHelpGroup 0 (g_occurrences exLongHelpGroup)) \<le> 65000"
  by (simp add: exLongHelp_fields exLongHelpGroup_def ex_defs ex2_defs newGroup_def
      occurrenceOf_def render_defs ascii_def)

lemma exLongHelp_rows:
  "\<not> js_includes (beforeRuleRow exEnv exLongHelpGroup) ruleLabel"
  "\<not> js_includes (beforeFileRow exEnv exLongHelpGroup exPrompts) fileLabel"
proof -
  have "96 \<notin> set (beforeRuleRow exEnv exLongHelpGroup)"
    by (simp add: beforeRuleRow_def exLongHelpGroup_def ex_defs ex2_defs newGroup_def
      occurrenceOf_def render_defs ascii_def)
  moreover have "96 \<in> set ruleLabel" by (simp add: ruleLabel_def)
  ultimately show "\<not> js_includes (beforeRuleRow exEnv exLongHelpGroup) ruleLabel"
    using js_includes_set by blast
  have "70 \<notin> set (beforeFileRow exEnv exLongHelpGroup exPrompts)"
    by (simp add: beforeFileRow_def beforeRuleRow_def ruleLabel_def exLongHelpGroup_def ex_defs
      ex2_defs newGroup_def occurrenceOf_def render_defs ascii_def)
  moreover have "70 \<in> set fileLabel" by (simp add: fileLabel_def ascii_def)
  ultimately show "\<not> js_includes (beforeFileRow exEnv exLongHelpGroup exPrompts) fileLabel"
    using js_includes_set by blast
qed

text \<open>
  C8, amended.  The renderer returns a body when the severity of the group is a string and
  every category prompt has a file name (it throws otherwise).  The body has at most 65000
  code units plus the 130 of the notice: a body assembled longer than 65000 code units is
  cut to its first 65000 and the fixed notice is appended, a shorter one is left as it is.
  The cut does not look at markers; they survive it when they stand in front of it.  When
  the header (up to the heading of the code locations) has at most 65000 code units, the
  deduplication lookup matches the body, the sweep reads the rule identifier from it when
  the identifier is not empty, has no backtick and the header in front of the rule row
  does not contain the label of that row, and it reads the file path under the same
  conditions on the path and the file row.  When the header and the occurrence sections
  together have at most 65000 code units, the sweep reads the start line of every
  occurrence whose line number is below \<open>10^21\<close> (which the program writes in decimal
  digits).
\<close>

theorem truncation_keeps_leading_markers:
  assumes "g_severity g = Str sev"
    and "\<not> list_ex (\<lambda>pr. fst pr = None) (p_owaspPrompts p)"
  shows "\<exists>B. createIssueBody e g p = Inr B
     \<and> length B \<le> 65130
     \<and> (length (assembleBody e g p) > 65000 \<longrightarrow>
          B = take 65000 (assembleBody e g p) @ truncationNotice)
     \<and> (length (assembleBody e g p) \<le> 65000 \<longrightarrow> B = assembleBody e g p)
     \<and> (length (bodyHeader e g p) \<le> 65000 \<longrightarrow>
          matchesFinding g (i\<lparr>i_body := B\<rparr>)
          \<and> (g_ruleId g \<noteq> [] \<and> 96 \<notin> set (g_ruleId g)
               \<and> \<not> js_includes (beforeRuleRow e g) ruleLabel \<longrightarrow>
             ruleMatch B = Some (g_ruleId g))
          \<and> (g_filePath g \<noteq> [] \<and> 96 \<notin> set (g_filePath g)
               \<and> \<not> js_includes (beforeFileRow e g p) fileLabel \<longrightarrow>
             fileMatch B = Some (g_filePath g)))
     \<and> (length (bodyHeader e g p @ occurrenceSections e g 0 (g_occurrences g)) \<le> 65000 \<longrightarrow>
          (\<forall>oc \<in> set (g_occurrences g). o_startLine oc < 10 ^ 21 \<longrightarrow>
             showNat (o_startLine oc) \<in> set (issueLinesOf B)))"
proof -
  let ?B = "truncateBody (assembleBody e g p)"
  have "createIssueBody e g p = Inr ?B" by (rule createIssueBody_returns[OF assms])
  moreover have "length ?B \<le> 65130" by (rule length_truncateBody)
  moreover have "length (assembleBody e g p) > 65000 \<longrightarrow>
      ?B = take 65000 (assembleBody e g p) @ truncationNotice"
    by (simp add: truncateBody_def MAX_BODY_LENGTH_def)
  moreover have "length (assembleBody e g p) \<le> 65000 \<longrightarrow> ?B = assembleBody e g p"
    by (simp add: truncateBody_def MAX_BODY_LENGTH_def)
  moreover have "length (bodyHeader e g p) \<le> 65000 \<longrightarrow>
          matchesFinding g (i\<lparr>i_body := ?B\<rparr>)
          \<and> (g_ruleId g \<noteq> [] \<and> 96 \<notin> set (g_ruleId g)
               \<and> \<not> js_includes (beforeRuleRow e g) ruleLabel \<longrightarrow>
             ruleMatch ?B = Some (g_ruleId g))
          \<and> (g_filePath g \<noteq> [] \<and> 96 \<notin> set (g_filePath g)
               \<and> \<not> js_includes (beforeFileRow e g p) fileLabel \<longrightarrow>
             fileMatch ?B = Some (g_filePath g))"
  proof (intro impI conjI)
    assume h: "length (bodyHeader e g p) \<le> 65000"
    show "matchesFinding g (i\<lparr>i_body := ?B\<rparr>)"
      by (rule truncated_matches[OF h]) simp
    {
      assume a: "g_ruleId g \<noteq> [] \<and> 96 \<notin> set (g_ruleId g)
               \<and> \<not> js_includes (beforeRuleRow e g) ruleLabel"
      show "ruleMatch ?B = Some (g_ruleId g)"
        by (rule truncated_ruleMatch[OF h, where w = "[]"]) (use a in simp_all)
    }
    {
      assume a: "g_filePath g \<noteq> [] \<and> 96 \<notin> set (g_filePath g)
               \<and> \<not> js_includes (beforeFileRow e g p) fileLabel"
      show "fileMatch ?B = Some (g_filePath g)"
        by (rule truncated_fileMatch[OF h, where w = "[]"]) (use a in simp_all)
    }
  qed
  moreover have "length (bodyHeader e g p @ occurrenceSections e g 0 (g_occurrences g)) \<le> 65000
      \<longrightarrow> (\<forall>oc \<in> set (g_occurrences g). o_startLine oc < 10 ^ 21 \<longrightarrow>
             showNat (o_startLine oc) \<in> set (issueLinesOf ?B))"
    using truncated_lines by blast
  ultimately show ?thesis by blast
qed

theorem truncation_keeps_leading_markers_witness:
  "createIssueBody exEnv exLongHelpGroup exPrompts
     = Inr (take 65000 (assembleBody exEnv exLongHelpGroup exPrompts) @ truncationNotice)
   \<and> 65000 < length (assembleBody exEnv exLongHelpGroup exPrompts)
   \<and> matchesFinding exLongHelpGroup
       (exIssue 1 (take 65000 (assembleBody exEnv exLongHelpGroup exPrompts) @ truncationNotice)
          [sentinelLabel])
   \<and> ruleMatch (take 65000 (assembleBody exEnv exLongHelpGroup exPrompts) @ truncationNotice)
       = Some (ascii ''R1'')
   \<and> fileMatch (take 65000 (assembleBody exEnv exLongHelpGroup exPrompts) @ truncationNotice)
       = Some (ascii ''a.ts'')
   \<and> ascii ''10'' \<in> set (issueLinesOf
       (take 65000 (assembleBody exEnv exLongHelpGroup exPrompts) @ truncationNotice))"
proof -
  have ten: "showNat 10 = ascii ''10''" by (simp add: showNat.simps ascii_def)
  have r: "ascii ''R1'' \<noteq> [] \<and> 96 \<notin> set (ascii ''R1'')"
    and f: "ascii ''a.ts'' \<noteq> [] \<and> 96 \<notin> set (ascii ''a.ts'')"
    by (simp_all add: ascii_def)
  have i: "(exIssue n b' l)\<lparr>i_body := b\<rparr> = exIssue n b l" for n b b' l
    by (simp add: exIssue_def)
  show ?thesis
    using truncation_keeps_leading_markers[OF exLongHelp_fields(1,6), of exEnv
        "exIssue 1 [] [sentinelLabel]"]
      exLongHelp_long exLongHelp_head exLongHelp_rows r f
    by (auto simp: exLongHelp_fields i ten)
qed

section \<open>Repeated runs\<close>

lemma set_truncateBody: "set (truncateBody body) \<subseteq> set body \<union> set truncationNotice"
  by (auto simp: truncateBody_def dest: in_set_takeD)

lemma set_setAdd: "set (setAdd s k) = insert k (set s)"
  by (auto simp: setAdd_def)

lemma plain_exInfo: "plainPrompts exInfo = exPrompts"
  by (simp add: plainPrompts_def exInfo_def exCategory_def exPrompts_def)

lemma exCross_groups:
  "groupFindingsByRuleAndFile [exJobsFinding, exWebFinding] = [exJobsGroup, exWebGroup]"
  by (simp add: cross_defs group_defs exFinding_def ascii_def Let_def)

lemma exCross_fields:
  "g_ruleId exJobsGroup = ascii ''R1''" "g_ruleId exWebGroup = ascii ''R1''"
  "g_filePath exJobsGroup = ascii ''src/Jobs.ts''" "g_filePath exWebGroup = ascii ''src/web.ts''"
  "g_severity exJobsGroup = Str (ascii ''critical'')"
  "g_severity exWebGroup = Str (ascii ''critical'')"
  "g_occurrences exJobsGroup = [occurrenceOf exJobsFinding]"
  "g_occurrences exWebGroup = [occurrenceOf exWebFinding]"
  "o_startLine (occurrenceOf exWebFinding) = 20"
  "o_startLine (occurrenceOf exJobsFinding) = 10"
  by (simp_all add: cross_defs newGroup_def exFinding_def occurrenceOf_def)

lemma exCross_actionable: "actionable exEnv exJobsGroup" "actionable exEnv exWebGroup"
  by (simp_all add: actionable_passes passesFilter_def exCross_fields rank_values exEnv_filter
      exInfo_R1)

lemma exCross_info:
  "mapToOWASP (mp exEnv) (g_ruleId exJobsGroup) = Some exInfo"
  "mapToOWASP (mp exEnv) (g_ruleId exWebGroup) = Some exInfo"
  by (simp_all add: exCross_fields exInfo_R1)

lemma exCross_sizes:
  "length (bodyHeader exEnv exJobsGroup exPrompts
      @ occurrenceSections exEnv exJobsGroup 0 (g_occurrences exJobsGroup)) \<le> 65000"
  "length (bodyHeader exEnv exWebGroup exPrompts
      @ occurrenceSections exEnv exWebGroup 0 (g_occurrences exWebGroup)) \<le> 65000"
  by (simp_all add: ex_defs cross_defs newGroup_def occurrenceOf_def render_defs ascii_def)

lemma exWeb_rows:
  "\<not> js_includes (beforeRuleRow exEnv exWebGroup) ruleLabel"
  "\<not> js_includes (beforeFileRow exEnv exWebGroup exPrompts) fileLabel"
proof -
  have "96 \<notin> set (beforeRuleRow exEnv exWebGroup)"
    by (simp add: beforeRuleRow_def ex_defs cross_defs newGroup_def occurrenceOf_def
        render_defs ascii_def)
  moreover have "96 \<in> set ruleLabel" by (simp add: ruleLabel_def)
  ultimately show "\<not> js_includes (beforeRuleRow exEnv exWebGroup) ruleLabel"
    using js_includes_set by blast
  have "70 \<notin> set (beforeFileRow exEnv exWebGroup exPrompts)"
    by (simp add: beforeFileRow_def beforeRuleRow_def ruleLabel_def ex_defs cross_defs
        newGroup_def occurrenceOf_def render_defs ascii_def)
  moreover have "70 \<in> set fileLabel" by (simp add: fileLabel_def ascii_def)
  ultimately show "\<not> js_includes (beforeFileRow exEnv exWebGroup exPrompts) fileLabel"
    using js_includes_set by blast
qed

text \<open>What the sweep reads from the body rendered for the finding in \<open>src/web.ts\<close>.\<close>

lemma exWeb_reads:
  "ruleMatch (truncateBody (assembleBody exEnv exWebGroup exPrompts)) = Some (ascii ''R1'')"
  "fileMatch (truncateBody (assembleBody exEnv exWebGroup exPrompts))
     = Some (ascii ''src/web.ts'')"
  "showNat 20 \<in> set (issueLinesOf (truncateBody (assembleBody exEnv exWebGroup exPrompts)))"
proof -
  have h: "length (bodyHeader exEnv exWebGroup exPrompts) \<le> 65000"
    using exCross_sizes(2) by simp
  show "ruleMatch (truncateBody (assembleBody exEnv exWebGroup exPrompts)) = Some (ascii ''R1'')"
    by (rule truncated_ruleMatch[OF h, where w = "[]"])
      (simp_all add: exCross_fields exWeb_rows, simp_all add: ascii_def)
  show "fileMatch (truncateBody (assembleBody exEnv exWebGroup exPrompts))
     = Some (ascii ''src/web.ts'')"
    by (rule truncated_fileMatch[OF h, where w = "[]"])
      (simp_all add: exCross_fields exWeb_rows, simp_all add: ascii_def)
  have "showNat (o_startLine (occurrenceOf exWebFinding))
      \<in> set (issueLinesOf (truncateBody (assembleBody exEnv exWebGroup exPrompts)))"
    by (rule truncated_lines[OF exCross_sizes(2)]) (simp add: exCross_fields)
  then show "showNat 20
      \<in> set (issueLinesOf (truncateBody (assembleBody exEnv exWebGroup exPrompts)))"
    by (simp add: exCross_fields)
qed

lemma exWeb_body_has_no_J:
  "74 \<notin> set (truncateBody (assembleBody exEnv exWebGroup exPrompts))"
proof -
  have "74 \<notin> set (assembleBody exEnv exWebGroup exPrompts)"
    by (simp add: body_defs ex_defs cross_defs newGroup_def occurrenceOf_def
        render_defs ascii_def)
  moreover have "74 \<notin> set truncationNotice"
    by (simp add: truncationNotice_def ascii_def)
  ultimately show ?thesis using set_truncateBody by blast
qed

lemma exWeb_body_not_Jobs:
  assumes "i_body i = truncateBody (assembleBody exEnv exWebGroup exPrompts)"
  shows "\<not> matchesFinding exJobsGroup i"
proof
  assume "matchesFinding exJobsGroup i"
  then have "set (fileMarker exJobsGroup) \<subseteq> set (i_body i)"
    by (simp add: matchesFinding_def js_includes_set)
  moreover have "74 \<in> set (fileMarker exJobsGroup)"
    by (simp add: fileMarker_def exCross_fields ascii_def)
  ultimately show False using exWeb_body_has_no_J assms by auto
qed

lemma exJobs_snippet_quotes_web:
  "js_includes (occurrenceSections exEnv exJobsGroup 0 (g_occurrences exJobsGroup))
     (fileMarker exWebGroup)"
  by (simp add: ex_defs cross_defs newGroup_def occurrenceOf_def render_defs fileMarker_def
      ascii_def)

text \<open>
  The body rendered for the finding in \<open>src/Jobs.ts\<close> carries both markers of the finding
  in \<open>src/web.ts\<close>: the rule is the same, and the snippet quotes the path.
\<close>

lemma exJobs_body_matches_web:
  assumes "i_body i = truncateBody (assembleBody exEnv exJobsGroup exPrompts)"
  shows "matchesFinding exWebGroup i"
proof -
  have h: "length (bodyHeader exEnv exJobsGroup exPrompts) \<le> 65000"
    using exCross_sizes(1) by simp
  have "matchesFinding exJobsGroup i" by (rule truncated_matches[OF h assms])
  then have "js_includes (i_body i) (ruleMarker exJobsGroup)"
    by (simp add: matchesFinding_def)
  moreover have "ruleMarker exJobsGroup = ruleMarker exWebGroup"
    by (simp add: ruleMarker_def exCross_fields)
  moreover have "js_includes (i_body i) (fileMarker exWebGroup)"
  proof -
    obtain t where "assembleBody exEnv exJobsGroup exPrompts
        = (bodyHeader exEnv exJobsGroup exPrompts
           @ occurrenceSections exEnv exJobsGroup 0 (g_occurrences exJobsGroup)) @ t"
      by (simp add: assembleBody_def)
    with truncateBody_keeps_prefix[OF exCross_sizes(1)] obtain t' where
      "i_body i = (bodyHeader exEnv exJobsGroup exPrompts
           @ occurrenceSections exEnv exJobsGroup 0 (g_occurrences exJobsGroup)) @ t'"
      unfolding assms by metis
    then show ?thesis
      using js_includes_append_left[OF js_includes_append_right[OF exJobs_snippet_quotes_web]]
      by simp
  qed
  ultimately show ?thesis by (simp add: matchesFinding_def)
qed

text \<open>
  A run on the two findings, in a tracker without faults all of whose issues carry the
  body of the finding in \<open>src/web.ts\<close>: an issue is created for the finding in
  \<open>src/Jobs.ts\<close>, the finding in \<open>src/web.ts\<close> takes it for its own and overwrites its body,
  and the sweep leaves every issue as it is.
\<close>

lemma exCross_run:
  assumes f: "faults w = []"
    and b: "\<forall>i \<in> set (issues w).
              i_body i = truncateBody (assembleBody exEnv exWebGroup exPrompts)"
    and d: "distinct (map i_number (issues w))"
    and lt: "\<forall>i \<in> set (issues w). i_number i < nextNumber w"
  shows "r_created (fst (processFindings exEnv [exJobsFinding, exWebFinding] w)) = 1"
    and "r_updated (fst (processFindings exEnv [exJobsFinding, exWebFinding] w)) = 1"
    and "faults (snd (processFindings exEnv [exJobsFinding, exWebFinding] w)) = []"
    and "nextNumber (snd (processFindings exEnv [exJobsFinding, exWebFinding] w))
           = Suc (nextNumber w)"
    and "\<exists>labels. issues (snd (processFindings exEnv [exJobsFinding, exWebFinding] w))
           = \<lparr> i_number = nextNumber w, i_title = createIssueTitle exJobsGroup,
               i_body = truncateBody (assembleBody exEnv exWebGroup exPrompts),
               i_labels = labels, i_assignees = autoAssign (cfg exEnv), i_state = Open,
               i_comments = [updateComment exEnv] \<rparr> # issues w"
proof -
  let ?e = exEnv and ?fs = "[exJobsFinding, exWebFinding]"
  let ?gA = exJobsGroup and ?gB = exWebGroup
  let ?JB = "truncateBody (assembleBody exEnv exJobsGroup exPrompts)"
  let ?WB = "truncateBody (assembleBody exEnv exWebGroup exPrompts)"
  define st0 where "st0 = \<lparr> ls_results = initialResults (length ?fs), ls_processedCount = 0,
         ls_currentVulnerabilities = [], ls_promptCache = Map.empty,
         ls_world = log SUCCESS (ascii ''Grouped '' @ showNat (length ?fs)
                 @ ascii '' finding(s) into '' @ showNat (length [?gA, ?gB])
                 @ ascii '' issue(s)'')
                 (log INFO (ascii ''Grouping findings by rule and file...'') w) \<rparr>"
  define st1 where "st1 = processGroup ?e ?gA st0"
  define st2 where "st2 = processGroup ?e ?gB st1"
  have cap: "maxIssuesPerRun (cfg ?e) = Some 10" by (rule exEnv_filter)
  have s0: "ls_processedCount st0 = 0" "r_created (ls_results st0) = 0"
    "r_updated (ls_results st0) = 0" "faults (ls_world st0) = []"
    "issues (ls_world st0) = issues w" "nextNumber (ls_world st0) = nextNumber w"
    "ls_promptCache st0 = Map.empty" "ls_currentVulnerabilities st0 = []"
    using f by (simp_all add: st0_def initialResults_def)
  have none: "find (matchesFinding ?gA) (openListing (ls_world st0)) = None"
    unfolding find_None_iff using b s0(5) exWeb_body_not_Jobs
    by (auto dest!: openListing_subset)
  note a1 = processGroup_new_plain[OF exCross_actionable(1) exCross_info(1) exEnv_plain(1,2,5,6)
      exCross_fields(5) exEnv_plain(7,8) s0(7) s0(4) none, unfolded plain_exInfo]
  have s1: "ls_processedCount st1 = 1" "r_created (ls_results st1) = 1"
    "r_updated (ls_results st1) = 0" "faults (ls_world st1) = []"
    "nextNumber (ls_world st1) = Suc (nextNumber w)" "ls_promptCache st1 = Map.empty"
    "ls_currentVulnerabilities st1 = foldl setAdd [] (occurrenceKeys ?gA)"
    unfolding st1_def using a1(1,2,5,6,7,8,9) s0 by simp_all
  from a1(10) obtain lA where lA: "sentinelLabel \<in> set lA"
    and i1': "issues (ls_world st1) =
           \<lparr> i_number = nextNumber (ls_world st0), i_title = createIssueTitle ?gA,
             i_body = ?JB, i_labels = lA,
             i_assignees = autoAssign (cfg ?e), i_state = Open, i_comments = [] \<rparr>
           # issues (ls_world st0)"
    unfolding st1_def by blast
  define iA where "iA = \<lparr> i_number = nextNumber w, i_title = createIssueTitle ?gA,
             i_body = ?JB, i_labels = lA,
             i_assignees = autoAssign (cfg ?e), i_state = Open, i_comments = [] \<rparr>"
  have i1: "issues (ls_world st1) = iA # issues w"
    unfolding i1' iA_def s0 by (rule refl)
  have ol1: "openListing (ls_world st1) = iA # take 99 (filter (\<lambda>i. i_state i = Open
      \<and> sentinelLabel \<in> set (i_labels i)) (issues w))"
    unfolding openListing_def i1 using lA by (simp add: iA_def)
  have mB: "matchesFinding ?gB iA"
    by (rule exJobs_body_matches_web) (simp add: iA_def)
  have found: "find (matchesFinding ?gB) (openListing (ls_world st1)) = Some iA"
    unfolding ol1 using mB by simp
  note a2 = processGroup_found_plain[OF exCross_actionable(2) exCross_info(2)
      exEnv_plain(1,2,5,6) exCross_fields(6) exEnv_plain(7,8) s1(6) s1(4) found,
      unfolded plain_exInfo]
  have s2: "r_created (ls_results st2) = 1" "r_updated (ls_results st2) = 1"
    "faults (ls_world st2) = []" "nextNumber (ls_world st2) = Suc (nextNumber w)"
    "ls_currentVulnerabilities st2
       = foldl setAdd (foldl setAdd [] (occurrenceKeys ?gA)) (occurrenceKeys ?gB)"
    unfolding st2_def using a2(1,2,6,8,9) s1 by simp_all
  from a2(10) obtain lB where lB: "sentinelLabel \<in> set lB"
    and i2': "issues (ls_world st2) =
            map (\<lambda>j. if i_number j = i_number iA
                 then j\<lparr>i_body := ?WB, i_labels := lB,
                        i_comments := i_comments j @ [updateComment ?e]\<rparr>
                 else j) (issues (ls_world st1))"
    unfolding st2_def by blast
  define iB where "iB = \<lparr> i_number = nextNumber w, i_title = createIssueTitle ?gA,
             i_body = ?WB, i_labels = lB,
             i_assignees = autoAssign (cfg ?e), i_state = Open,
             i_comments = [updateComment ?e] \<rparr>"
  have other: "i_number j \<noteq> i_number iA" if "j \<in> set (issues w)" for j
    using lt that by (auto simp: iA_def)
  have i2: "issues (ls_world st2) = iB # issues w"
    unfolding i2' i1 using other by (simp add: iB_def iA_def map_idI)
  have l0: "processLoop ?e (length [?gA, ?gB]) [?gA, ?gB] st0 = st2"
    using s0(1) s1(1) cap
    by (simp add: capReached_def st1_def[symmetric] st2_def[symmetric])
  have "findingsLoop ?e ?fs w = processLoop ?e (length [?gA, ?gB]) [?gA, ?gB] st0"
    unfolding findingsLoop_def Let_def exCross_groups st0_def by (rule refl)
  then have loop: "findingsLoop ?e ?fs w = st2"
    unfolding l0 .
  show "r_created (fst (processFindings ?e ?fs w)) = 1"
    and "r_updated (fst (processFindings ?e ?fs w)) = 1"
    unfolding processFindings_loop loop by (rule s2)+
  let ?ws = "sweepStart ?e ?fs w"
  have ws: "issues ?ws = iB # issues w" "faults ?ws = []" "nextNumber ?ws = Suc (nextNumber w)"
    unfolding sweepStart_def loop using i2 s2 by simp_all
  have nB: "i_number iB = nextNumber w" "i_body iB = ?WB" by (simp_all add: iB_def)
  have dws: "distinct (map i_number (issues ?ws))"
    unfolding ws using d lt nB by auto
  let ?live = "ls_currentVulnerabilities (findingsLoop ?e ?fs w)"
  have key: "vulnKey (ascii ''R1'') (ascii ''src/web.ts'') (showNat 20) \<in> set ?live"
    unfolding loop s2 by (simp add: set_setAdd occurrenceKeys_def exCross_fields)
  have keep: "sweepOutcome ?e ?live j = j" if "i_body j = ?WB" for j
    by (rule sweepOutcome_live[OF _ _ _ key]) (simp_all add: that exWeb_reads)
  note ac = autoClose_ok[OF ws(2) dws, of ?e ?live]
  have all: "\<forall>j \<in> set (issues ?ws). i_body j = ?WB"
    unfolding ws using b nB by simp
  have after: "issues (snd (processFindings ?e ?fs w)) = iB # issues w"
    unfolding processFindings_sweep ac(2) using all keep
    by (simp add: map_idI ws)
  show "faults (snd (processFindings ?e ?fs w)) = []"
    unfolding processFindings_sweep by (rule ac)
  show "nextNumber (snd (processFindings ?e ?fs w)) = Suc (nextNumber w)"
    unfolding processFindings_sweep ac ws by (rule refl)
  show "\<exists>labels. issues (snd (processFindings ?e ?fs w))
           = \<lparr> i_number = nextNumber w, i_title = createIssueTitle ?gA,
               i_body = ?WB, i_labels = labels, i_assignees = autoAssign (cfg ?e),
               i_state = Open, i_comments = [updateComment ?e] \<rparr> # issues w"
    unfolding after iB_def by blast
qed

text \<open>
  C1.  The pipeline is documented to deduplicate: it \<open>won't create duplicates for same
  finding\<close>, so a second run on an unchanged report is to update the issues of the first
  and create none.  The lookup takes an issue for the finding's own when its body contains
  the backticked rule identifier and the backticked path anywhere.  Here the report holds
  two findings of rule \<open>R1\<close>, in \<open>src/Jobs.ts\<close> and in \<open>src/web.ts\<close>, and the code snippet
  of the first quotes the path of the second in backticks; the tracker is empty and no
  call fails.  In every run the first finding has no issue and one is created for it; its
  body contains both markers of the second finding, which takes the issue for its own and
  overwrites the body.  The first run leaves one open issue.  The second run, on the
  unchanged report and the tracker the first run left, creates an issue again, and the
  tracker then holds two open issues, both with the body rendered for the finding in
  \<open>src/web.ts\<close> and none for the finding in \<open>src/Jobs.ts\<close>.
\<close>

theorem second_run_creates_again:
  "r_created (fst (processFindings exEnv [exJobsFinding, exWebFinding]
       (snd (processFindings exEnv [exJobsFinding, exWebFinding] exWorld)))) = 1
   \<and> length (issues (snd (processFindings exEnv [exJobsFinding, exWebFinding] exWorld))) = 1
   \<and> length (issues (snd (processFindings exEnv [exJobsFinding, exWebFinding]
       (snd (processFindings exEnv [exJobsFinding, exWebFinding] exWorld))))) = 2
   \<and> r_created (fst (processFindings exEnv [exJobsFinding, exWebFinding] exWorld)) = 1
   \<and> r_updated (fst (processFindings exEnv [exJobsFinding, exWebFinding] exWorld)) = 1
   \<and> r_updated (fst (processFindings exEnv [exJobsFinding, exWebFinding]
       (snd (processFindings exEnv [exJobsFinding, exWebFinding] exWorld)))) = 1
   \<and> map i_state (issues (snd (processFindings exEnv [exJobsFinding, exWebFinding] exWorld)))
       = [Open]
   \<and> map i_state (issues (snd (processFindings exEnv [exJobsFinding, exWebFinding]
       (snd (processFindings exEnv [exJobsFinding, exWebFinding] exWorld))))) = [Open, Open]
   \<and> map i_number (issues (snd (processFindings exEnv [exJobsFinding, exWebFinding]
       (snd (processFindings exEnv [exJobsFinding, exWebFinding] exWorld))))) = [2, 1]
   \<and> createIssueBody exEnv exWebGroup exPrompts
       = Inr (truncateBody (assembleBody exEnv exWebGroup exPrompts))
   \<and> map i_body (issues (snd (processFindings exEnv [exJobsFinding, exWebFinding]
       (snd (processFindings exEnv [exJobsFinding, exWebFinding] exWorld)))))
       = [truncateBody (assembleBody exEnv exWebGroup exPrompts),
          truncateBody (assembleBody exEnv exWebGroup exPrompts)]
   \<and> map (matchesFinding exWebGroup)
        (issues (snd (processFindings exEnv [exJobsFinding, exWebFinding]
          (snd (processFindings exEnv [exJobsFinding, exWebFinding] exWorld))))) = [True, True]
   \<and> map (matchesFinding exJobsGroup)
        (issues (snd (processFindings exEnv [exJobsFinding, exWebFinding]
          (snd (processFindings exEnv [exJobsFinding, exWebFinding] exWorld))))) = [False, False]"
proof -
  let ?fs = "[exJobsFinding, exWebFinding]"
  let ?WB = "truncateBody (assembleBody exEnv exWebGroup exPrompts)"
  let ?run1 = "processFindings exEnv ?fs exWorld"
  let ?run2 = "processFindings exEnv ?fs (snd ?run1)"
  have w0: "faults exWorld = []" "\<forall>i \<in> set (issues exWorld). i_body i = ?WB"
    "distinct (map i_number (issues exWorld))"
    "\<forall>i \<in> set (issues exWorld). i_number i < nextNumber exWorld"
    by (simp_all add: exWorld_def)
  note r1 = exCross_run[OF w0]
  from r1(5) obtain l1 where i1: "issues (snd ?run1)
      = [\<lparr> i_number = 1, i_title = createIssueTitle exJobsGroup, i_body = ?WB, i_labels = l1,
           i_assignees = autoAssign (cfg exEnv), i_state = Open,
           i_comments = [updateComment exEnv] \<rparr>]"
    by (auto simp: exWorld_def)
  have n1: "nextNumber (snd ?run1) = 2" using r1(4) by (simp add: exWorld_def)
  have w1: "\<forall>i \<in> set (issues (snd ?run1)). i_body i = ?WB"
    "distinct (map i_number (issues (snd ?run1)))"
    "\<forall>i \<in> set (issues (snd ?run1)). i_number i < nextNumber (snd ?run1)"
    unfolding i1 n1 by simp_all
  note r2 = exCross_run[OF r1(3) w1]
  from r2(5) obtain l2 where i2: "issues (snd ?run2)
      = [\<lparr> i_number = 2, i_title = createIssueTitle exJobsGroup, i_body = ?WB, i_labels = l2,
           i_assignees = autoAssign (cfg exEnv), i_state = Open,
           i_comments = [updateComment exEnv] \<rparr>,
         \<lparr> i_number = 1, i_title = createIssueTitle exJobsGroup, i_body = ?WB, i_labels = l1,
           i_assignees = autoAssign (cfg exEnv), i_state = Open,
           i_comments = [updateComment exEnv] \<rparr>]"
    unfolding n1 i1 by auto
  have h: "length (bodyHeader exEnv exWebGroup exPrompts) \<le> 65000"
    using exCross_sizes(2) by simp
  have mw: "matchesFinding exWebGroup i" if "i_body i = ?WB" for i
    by (rule truncated_matches[OF h that])
  have mj: "\<not> matchesFinding exJobsGroup i" if "i_body i = ?WB" for i
    by (rule exWeb_body_not_Jobs[OF that])
  have cb: "createIssueBody exEnv exWebGroup exPrompts = Inr ?WB"
    by (rule createIssueBody_returns[OF exCross_fields(6)]) (simp add: exPrompts_def)
  show ?thesis
    unfolding r1(1,2) r2(1,2) cb i1 i2 by (simp add: mw mj)
qed
end
